(* ===== verification/Prelude.thy ===== *)
theory Prelude
  imports Complex_Main "HOL-Library.AList" "HOL-Library.Sublist" "HOL-Library.Code_Target_Numeral"
begin

text \<open>
  What the component theories share: the collections of rewrite rules that carry the component
  proofs, Go errors as values, Go maps as association lists behind a finite-map interface,
  and a model of \<open>float64\<close> for the scores.
\<close>

named_theorems go_defs "definitions of the Go library operations, for evaluation"
named_theorems inv_intros "preservation of the component invariants"

subsection \<open>Errors\<close>

text \<open>
  A Go \<open>error\<close> is its message together with the sentinel values that
  \<open>errors.Is\<close> finds on its chain. \<open>wrap_err pre e\<close> is
  \<open>fmt.Errorf(pre + "%w", e)\<close>: the prefix is added, the chain is kept.
\<close>

datatype sentinel =
    DeadlineExceeded | Canceled | CriticalOverloadShed | GuardianUnavailable

record goerr =
  err_msg :: string
  err_chain :: "sentinel list"

definition plain_err :: "string \<Rightarrow> goerr" where
  "plain_err m = \<lparr>err_msg = m, err_chain = []\<rparr>"

definition wrap_err :: "string \<Rightarrow> goerr \<Rightarrow> goerr" where
  "wrap_err pre e = e\<lparr>err_msg := pre @ err_msg e\<rparr>"

definition err_is :: "goerr \<Rightarrow> sentinel \<Rightarrow> bool" where
  "err_is e s \<longleftrightarrow> s \<in> set (err_chain e)"

type_synonym 'a result = "goerr + 'a"

fun result_ok :: "'a result \<Rightarrow> bool" where
  "result_ok (Inl _) = False"
| "result_ok (Inr _) = True"

lemma err_is_plain [simp]: "\<not> err_is (plain_err m) s"
  by (simp add: err_is_def plain_err_def)

lemma err_is_wrap [simp]: "err_is (wrap_err pre e) s = err_is e s"
  by (simp add: err_is_def wrap_err_def)

lemma result_ok_iff: "result_ok r \<longleftrightarrow> (\<exists>x. r = Inr x)"
  by (cases r) auto

subsection \<open>Go maps\<close>

text \<open>
  A Go map is an association list with one entry per key; its order stands for one of the
  iteration orders that \<open>range\<close> may choose. The clients use it through the interface
  \<open>finite_map\<close> below and never through the list.
\<close>

type_synonym ('k, 'v) gomap = "('k \<times> 'v) list"

definition mget :: "('k, 'v) gomap \<Rightarrow> 'k \<Rightarrow> 'v option" where
  [go_defs]: "mget m = map_of m"

definition mput :: "'k \<Rightarrow> 'v \<Rightarrow> ('k, 'v) gomap \<Rightarrow> ('k, 'v) gomap" where
  [go_defs]: "mput = AList.update"

definition mdel :: "'k \<Rightarrow> ('k, 'v) gomap \<Rightarrow> ('k, 'v) gomap" where
  [go_defs]: "mdel = AList.delete"

definition mkeys :: "('k, 'v) gomap \<Rightarrow> 'k list" where
  [go_defs]: "mkeys = map fst"

definition mfilter :: "('k \<Rightarrow> 'v \<Rightarrow> bool) \<Rightarrow> ('k, 'v) gomap \<Rightarrow> ('k, 'v) gomap" where
  [go_defs]: "mfilter P = filter (\<lambda>(k, v). P k v)"

definition mwf :: "('k, 'v) gomap \<Rightarrow> bool" where
  [go_defs]: "mwf m \<longleftrightarrow> distinct (map fst m)"

locale finite_map =
  fixes get :: "'m \<Rightarrow> 'k \<Rightarrow> 'v option"
    and put :: "'k \<Rightarrow> 'v \<Rightarrow> 'm \<Rightarrow> 'm"
    and del :: "'k \<Rightarrow> 'm \<Rightarrow> 'm"
    and keep :: "('k \<Rightarrow> 'v \<Rightarrow> bool) \<Rightarrow> 'm \<Rightarrow> 'm"
    and keys :: "'m \<Rightarrow> 'k list"
    and wf :: "'m \<Rightarrow> bool"
  assumes get_put: "get (put k v m) k' = (if k' = k then Some v else get m k')"
    and get_del: "get (del k m) k' = (if k' = k then None else get m k')"
    and get_keep: "wf m \<Longrightarrow> get (keep P m) k =
          (case get m k of None \<Rightarrow> None | Some v \<Rightarrow> if P k v then Some v else None)"
    and set_keys: "set (keys m) = {k. get m k \<noteq> None}"
    and distinct_keys: "wf m \<Longrightarrow> distinct (keys m)"
    and wf_put: "wf m \<Longrightarrow> wf (put k v m)"
    and wf_del: "wf m \<Longrightarrow> wf (del k m)"
    and wf_keep: "wf m \<Longrightarrow> wf (keep P m)"
begin

lemma get_put_same: "get (put k v m) k = Some v"
  by (simp add: get_put)

lemma get_put_other: "k' \<noteq> k \<Longrightarrow> get (put k v m) k' = get m k'"
  by (simp add: get_put)

lemma get_del_same: "get (del k m) k = None"
  by (simp add: get_del)

lemma keys_put: "set (keys (put k v m)) = insert k (set (keys m))"
  by (auto simp: set_keys get_put)

lemma keys_del: "set (keys (del k m)) = set (keys m) - {k}"
  by (auto simp: set_keys get_del)

lemma keep_SomeD: "wf m \<Longrightarrow> get (keep P m) k = Some v \<Longrightarrow> get m k = Some v \<and> P k v"
  by (auto simp: get_keep split: option.splits if_splits)

lemma length_keys: "wf m \<Longrightarrow> length (keys m) = card {k. get m k \<noteq> None}"
  using distinct_card [OF distinct_keys] by (simp add: set_keys)

lemma length_keys_del:
  assumes "wf m" and "get m k = Some v"
  shows "length (keys (del k m)) = length (keys m) - 1"
proof -
  have "set (keys (del k m)) = set (keys m) - {k}" by (rule keys_del)
  moreover have "k \<in> set (keys m)" using assms(2) by (simp add: set_keys)
  ultimately show ?thesis
    using assms(1) by (metis List.finite_set card_Diff_singleton distinct_card distinct_keys wf_del)
qed

end

lemma map_of_filter_distinct:
  "distinct (map fst m) \<Longrightarrow> map_of (filter (\<lambda>(k, v). P k v) m) k =
     (case map_of m k of None \<Rightarrow> None | Some v \<Rightarrow> if P k v then Some v else None)"
  by (induction m) (auto split: option.splits simp: rev_image_eqI weak_map_of_SomeI
      intro!: map_of_eq_None_iff [THEN iffD2])

interpretation gm: finite_map mget mput mdel mfilter mkeys mwf
proof (unfold_locales, goal_cases)
  case (3 m P k)
  then show ?case by (simp add: mget_def mfilter_def mwf_def map_of_filter_distinct)
next
  case (8 m P)
  then show ?case by (simp add: mfilter_def mwf_def distinct_map_filter)
qed (auto simp: go_defs AList.update_conv' AList.delete_conv' map_of_eq_None_iff
      AList.distinct_update AList.distinct_delete dest: map_of_SomeD)

lemma mget_Nil [simp]: "mget [] k = None"
  by (simp add: mget_def)

lemma mwf_Nil [simp]: "mwf []"
  by (simp add: mwf_def)

lemmas gomap_simps [simp] = gm.get_put gm.get_del gm.wf_put gm.wf_del gm.wf_keep

end
