(* ===== verification/Go_Strings.thy ===== *)
theory Go_Strings
  imports Prelude Go_Unicode
begin

text \<open>
  Go strings. A Go string is a sequence of bytes, here a \<open>string\<close> (a list of 8-bit
  characters); text is UTF-8, and what the program does with runes goes through
  \<open>runes\<close> (\<open>[]rune(s)\<close>, \<open>range s\<close>) and \<open>encode_runes\<close>
  (\<open>string(rs)\<close>). The decoder follows \<open>utf8.DecodeRuneInString\<close>: a byte that does
  not start a well-formed sequence decodes to U+FFFD and consumes one byte. The rest of the theory
  models the functions of the packages \<open>strings\<close>, \<open>strconv\<close> and
  \<open>fmt\<close> that the program calls.
\<close>

subsection \<open>UTF-8\<close>

definition byte_of :: "char \<Rightarrow> nat" where
  [go_defs]: "byte_of c = of_char c"

definition in_range :: "nat \<Rightarrow> nat \<Rightarrow> nat \<Rightarrow> bool" where
  [go_defs]: "in_range lo hi b \<longleftrightarrow> lo \<le> b \<and> b \<le> hi"

definition rune_error :: rune where
  [go_defs]: "rune_error = 65533"

definition valid_rune :: "rune \<Rightarrow> bool" where
  "valid_rune r \<longleftrightarrow> r < 55296 \<or> (57344 \<le> r \<and> r \<le> 1114111)"

definition bad_byte :: "rune \<times> nat" where
  [go_defs]: "bad_byte = (rune_error, 1)"

definition decode2 :: "nat \<Rightarrow> nat list \<Rightarrow> rune \<times> nat" where
  [go_defs]: "decode2 b0 bs =
     (case bs of
        b1 # _ \<Rightarrow>
          if in_range 128 191 b1 then ((b0 - 192) * 64 + (b1 - 128), 2) else bad_byte
      | [] \<Rightarrow> bad_byte)"

definition decode3 :: "nat \<Rightarrow> nat list \<Rightarrow> rune \<times> nat" where
  [go_defs]: "decode3 b0 bs =
     (case bs of
        b1 # b2 # _ \<Rightarrow>
          if in_range (if b0 = 224 then 160 else 128) (if b0 = 237 then 159 else 191) b1 \<and>
             in_range 128 191 b2
          then ((b0 - 224) * 4096 + (b1 - 128) * 64 + (b2 - 128), 3) else bad_byte
      | _ \<Rightarrow> bad_byte)"

definition decode4 :: "nat \<Rightarrow> nat list \<Rightarrow> rune \<times> nat" where
  [go_defs]: "decode4 b0 bs =
     (case bs of
        b1 # b2 # b3 # _ \<Rightarrow>
          if in_range (if b0 = 240 then 144 else 128) (if b0 = 244 then 143 else 191) b1 \<and>
             in_range 128 191 b2 \<and> in_range 128 191 b3
          then ((b0 - 240) * 262144 + (b1 - 128) * 4096 + (b2 - 128) * 64 + (b3 - 128), 4)
          else bad_byte
      | _ \<Rightarrow> bad_byte)"

definition decode_bytes :: "nat list \<Rightarrow> rune \<times> nat" where
  [go_defs]: "decode_bytes bs =
     (case bs of [] \<Rightarrow> (rune_error, 0)
      | b0 # bs' \<Rightarrow>
          if b0 < 128 then (b0, 1)
          else if in_range 194 223 b0 then decode2 b0 bs'
          else if in_range 224 239 b0 then decode3 b0 bs'
          else if in_range 240 244 b0 then decode4 b0 bs'
          else bad_byte)"

definition decode_rune :: "string \<Rightarrow> rune \<times> nat" where
  "decode_rune s = decode_bytes (map byte_of (take 4 s))"

lemma decode2_width: "1 \<le> snd (decode2 b0 bs) \<and> snd (decode2 b0 bs) \<le> Suc (length bs)"
  by (auto simp: decode2_def bad_byte_def split: list.split)

lemma decode3_width: "1 \<le> snd (decode3 b0 bs) \<and> snd (decode3 b0 bs) \<le> Suc (length bs)"
  by (auto simp: decode3_def bad_byte_def split: list.split)

lemma decode4_width: "1 \<le> snd (decode4 b0 bs) \<and> snd (decode4 b0 bs) \<le> Suc (length bs)"
  by (auto simp: decode4_def bad_byte_def split: list.split)

lemma decode_bytes_width: "bs \<noteq> [] \<Longrightarrow> 1 \<le> snd (decode_bytes bs) \<and> snd (decode_bytes bs) \<le> length bs"
  by (cases bs) (simp_all add: decode_bytes_def bad_byte_def decode2_width [simplified]
      decode3_width [simplified] decode4_width [simplified])

lemma decode_rune_width:
  assumes "s \<noteq> []"
  shows "1 \<le> snd (decode_rune s)" and "snd (decode_rune s) \<le> length s"
  using decode_bytes_width [of "map byte_of (take 4 s)"] assms
  by (auto simp: decode_rune_def)

text \<open>
  \<open>rune_chunks s\<close> pairs every decoded rune with the bytes it was decoded from, so that
  trimming and splitting return the original bytes.
\<close>

function rune_chunks :: "string \<Rightarrow> (rune \<times> string) list" where
  "rune_chunks [] = []"
| "rune_chunks (c # cs) =
     (let (r, w) = decode_rune (c # cs)
      in (r, c # take (w - 1) cs) # rune_chunks (drop (w - 1) cs))"
  by pat_completeness auto
termination
  by (relation "measure length") auto

definition runes :: "string \<Rightarrow> rune list" where
  "runes s = map fst (rune_chunks s)"

fun encode_bytes :: "rune \<Rightarrow> nat list" where
  "encode_bytes r =
     (if r < 128 then [r]
      else if r < 2048 then [192 + r div 64, 128 + r mod 64]
      else if \<not> valid_rune r then [239, 191, 189]
      else if r < 65536 then [224 + r div 4096, 128 + (r div 64) mod 64, 128 + r mod 64]
      else [240 + r div 262144, 128 + (r div 4096) mod 64, 128 + (r div 64) mod 64, 128 + r mod 64])"

definition encode_rune :: "rune \<Rightarrow> string" where
  "encode_rune r = map char_of (encode_bytes r)"

definition encode_runes :: "rune list \<Rightarrow> string" where
  "encode_runes rs = concat (map encode_rune rs)"

definition rune_count :: "string \<Rightarrow> nat" where
  "rune_count s = length (runes s)"

declare rune_chunks.simps(2) [simp del]
declare encode_bytes.simps [simp del]

lemma concat_rune_chunks: "concat (map snd (rune_chunks s)) = s"
  by (induction s rule: rune_chunks.induct) (auto simp: rune_chunks.simps(2) split: prod.splits)

lemma encode_bytes_small: "b \<in> set (encode_bytes r) \<Longrightarrow> b < 256"
  by (auto simp: encode_bytes.simps valid_rune_def split: if_splits)

lemma map_byte_encode: "map byte_of (encode_rune r) = encode_bytes r"
  using encode_bytes_small [of _ r]
  by (auto simp: encode_rune_def byte_of_def o_def intro!: map_idI)

lemma length_encode_bytes: "length (encode_bytes r) \<le> 4" "encode_bytes r \<noteq> []"
  by (auto simp: encode_bytes.simps)

lemma base64_digits2: "(r::nat) div 4096 * 4096 + r div 64 mod 64 * 64 + r mod 64 = r"
proof -
  have "r div 4096 = r div 64 div 64" by (simp add: div_mult2_eq [symmetric])
  then show ?thesis
    using div_mult_mod_eq [of r 64] div_mult_mod_eq [of "r div 64" 64] by linarith
qed

lemma base64_digits3:
  "(r::nat) div 262144 * 262144 + r div 4096 mod 64 * 4096 + r div 64 mod 64 * 64 + r mod 64 = r"
proof -
  have "r div 262144 = r div 4096 div 64" by (simp add: div_mult2_eq [symmetric])
  then show ?thesis
    using base64_digits2 [of r] div_mult_mod_eq [of "r div 4096" 64] by linarith
qed

lemma decode_encode_bytes:
  assumes "valid_rune r"
  shows "decode_bytes (encode_bytes r @ bs) = (r, length (encode_bytes r))"
proof -
  consider "r < 128" | "128 \<le> r" "r < 2048" | "2048 \<le> r" "r < 65536" | "65536 \<le> r"
    by linarith
  then show ?thesis
  proof cases
    case 1
    then show ?thesis by (simp add: encode_bytes.simps decode_bytes_def)
  next
    case 2
    have "2 \<le> r div 64" "r div 64 \<le> 31" using 2 by auto
    then have "in_range 194 223 (192 + r div 64)" "in_range 128 191 (128 + r mod 64)"
      unfolding in_range_def by auto
    with 2 show ?thesis
      by (simp add: encode_bytes.simps decode_bytes_def decode2_def)
  next
    case 3
    let ?b0 = "224 + r div 4096" and ?b1 = "128 + r div 64 mod 64" and ?b2 = "128 + r mod 64"
    have r0: "in_range 224 239 ?b0" "\<not> in_range 194 223 ?b0"
      using 3 unfolding in_range_def by auto
    define q m n where qmn: "q = r div 4096" "m = r div 64 mod 64" "n = r mod 64"
    have r: "r = q * 4096 + m * 64 + n" "m \<le> 63" "n \<le> 63"
      using base64_digits2 [of r] by (simp_all add: qmn less_Suc_eq_le [symmetric])
    have "q = 0 \<Longrightarrow> 32 \<le> m" using r 3 by auto
    moreover have "q = 13 \<Longrightarrow> m \<le> 31" using r assms unfolding valid_rune_def by auto
    ultimately have r1: "in_range (if ?b0 = 224 then 160 else 128) (if ?b0 = 237 then 159 else 191) ?b1"
      using r(2) unfolding in_range_def qmn [symmetric] by auto
    have r2: "in_range 128 191 ?b2" unfolding in_range_def by auto
    have "decode3 ?b0 (?b1 # ?b2 # bs) = ((?b0 - 224) * 4096 + (?b1 - 128) * 64 + (?b2 - 128), 3)"
      unfolding decode3_def using r1 r2 by (simp only: list.case if_True simp_thms)
    moreover have "(?b0 - 224) * 4096 + (?b1 - 128) * 64 + (?b2 - 128) = r"
      using base64_digits2 [of r] by simp
    ultimately show ?thesis using 3 assms r0
      by (simp add: encode_bytes.simps decode_bytes_def)
  next
    case 4
    then have up: "r \<le> 1114111" using assms by (simp add: valid_rune_def)
    let ?b0 = "240 + r div 262144" and ?b1 = "128 + r div 4096 mod 64"
      and ?b2 = "128 + r div 64 mod 64" and ?b3 = "128 + r mod 64"
    have r0: "in_range 240 244 ?b0" "\<not> in_range 194 223 ?b0" "\<not> in_range 224 239 ?b0"
      using 4 up unfolding in_range_def by auto
    define q m n where qmn: "q = r div 262144" "m = r div 4096 mod 64"
      "n = r div 64 mod 64 * 64 + r mod 64"
    have "r div 64 mod 64 \<le> 63" "r mod 64 \<le> 63" by (simp_all add: less_Suc_eq_le [symmetric])
    then have r: "r = q * 262144 + m * 4096 + n" "m \<le> 63" "n \<le> 4095"
      using base64_digits3 [of r] by (simp_all add: qmn less_Suc_eq_le [symmetric])
    have "q = 0 \<Longrightarrow> 16 \<le> m" using r 4 by auto
    moreover have "q = 4 \<Longrightarrow> m \<le> 15" using r up by auto
    ultimately have r1: "in_range (if ?b0 = 240 then 144 else 128) (if ?b0 = 244 then 143 else 191) ?b1"
      using r(2) unfolding in_range_def qmn [symmetric] by auto
    have r2: "in_range 128 191 ?b2" "in_range 128 191 ?b3" unfolding in_range_def by auto
    have "decode4 ?b0 (?b1 # ?b2 # ?b3 # bs) =
        ((?b0 - 240) * 262144 + (?b1 - 128) * 4096 + (?b2 - 128) * 64 + (?b3 - 128), 4)"
      unfolding decode4_def using r1 r2 by (simp only: list.case if_True simp_thms)
    moreover have "(?b0 - 240) * 262144 + (?b1 - 128) * 4096 + (?b2 - 128) * 64 + (?b3 - 128) = r"
      using base64_digits3 [of r] by simp
    ultimately show ?thesis using 4 assms r0
      by (simp add: encode_bytes.simps decode_bytes_def)
  qed
qed

lemma decode_rune_encode:
  assumes "valid_rune r"
  shows "decode_rune (encode_rune r @ s) = (r, length (encode_rune r))"
proof -
  let ?n = "length (encode_rune r)"
  have len: "?n = length (encode_bytes r)" by (simp add: encode_rune_def)
  then have le: "?n \<le> 4" by (simp add: length_encode_bytes)
  have "map byte_of (take 4 (encode_rune r @ s)) = encode_bytes r @ map byte_of (take (4 - ?n) s)"
    using le by (simp add: map_byte_encode)
  then show ?thesis
    by (simp add: decode_rune_def decode_encode_bytes [OF assms] len)
qed

lemma rune_chunks_unfold:
  "s \<noteq> [] \<Longrightarrow> rune_chunks s =
     (fst (decode_rune s), take (snd (decode_rune s)) s) # rune_chunks (drop (snd (decode_rune s)) s)"
  using decode_rune_width [of s]
  by (cases s) (auto simp: rune_chunks.simps(2) split: prod.splits simp: take_Cons' drop_Cons')

lemma rune_chunks_encode:
  assumes "valid_rune r"
  shows "rune_chunks (encode_rune r @ s) = (r, encode_rune r) # rune_chunks s"
proof -
  have "encode_rune r @ s \<noteq> []" by (simp add: encode_rune_def length_encode_bytes)
  then show ?thesis by (simp add: rune_chunks_unfold decode_rune_encode [OF assms])
qed

lemma runes_encode_append:
  "valid_rune r \<Longrightarrow> runes (encode_rune r @ s) = r # runes s"
  by (simp add: runes_def rune_chunks_encode)

lemma runes_Nil [simp]: "runes [] = []"
  by (simp add: runes_def)

lemma runes_encode_runes_append:
  "list_all valid_rune rs \<Longrightarrow> runes (encode_runes rs @ s) = rs @ runes s"
  by (induction rs) (auto simp: encode_runes_def runes_encode_append)

lemma runes_encode_runes: "list_all valid_rune rs \<Longrightarrow> runes (encode_runes rs) = rs"
  using runes_encode_runes_append [of rs "[]"] by simp

lemma decode2_valid: "in_range 194 223 b0 \<Longrightarrow> valid_rune (fst (decode2 b0 bs))"
  by (auto simp: decode2_def bad_byte_def rune_error_def valid_rune_def in_range_def
      split: list.split)

lemma decode3_valid: "in_range 224 239 b0 \<Longrightarrow> valid_rune (fst (decode3 b0 bs))"
proof (cases "fst (decode3 b0 bs) = rune_error")
  case False
  assume "in_range 224 239 b0"
  with False obtain b1 b2 bs' where bs: "bs = b1 # b2 # bs'"
    and in1: "in_range (if b0 = 224 then 160 else 128) (if b0 = 237 then 159 else 191) b1"
    and in2: "in_range 128 191 b2"
    by (auto simp: decode3_def bad_byte_def split: list.splits if_splits)
  define k where "k = b0 - 224"
  have k: "b0 = 224 + k" "k \<le> 15"
    using k_def \<open>in_range 224 239 b0\<close> by (auto simp: in_range_def)
  define j where "j = b1 - 128"
  have j: "b1 = 128 + j" "j \<le> 63" "k = 13 \<Longrightarrow> j \<le> 31"
    using j_def in1 k by (auto simp: in_range_def split: if_splits)
  define i where "i = b2 - 128"
  have i: "b2 = 128 + i" "i \<le> 63" using i_def in2 by (auto simp: in_range_def)
  have "fst (decode3 b0 bs) = k * 4096 + j * 64 + i"
    using in1 in2 by (simp add: bs decode3_def) (simp add: i(1) j(1) k(1))
  moreover have "k \<le> 12 \<or> k = 13 \<or> 14 \<le> k" by arith
  ultimately show ?thesis using j i k unfolding valid_rune_def by auto
qed (simp add: rune_error_def valid_rune_def)

lemma decode4_valid: "in_range 240 244 b0 \<Longrightarrow> valid_rune (fst (decode4 b0 bs))"
proof (cases "fst (decode4 b0 bs) = rune_error")
  case False
  assume "in_range 240 244 b0"
  with False obtain b1 b2 b3 bs' where bs: "bs = b1 # b2 # b3 # bs'"
    and in1: "in_range (if b0 = 240 then 144 else 128) (if b0 = 244 then 143 else 191) b1"
    and in2: "in_range 128 191 b2" "in_range 128 191 b3"
    by (auto simp: decode4_def bad_byte_def split: list.splits if_splits)
  define k where "k = b0 - 240"
  have k: "b0 = 240 + k" "k \<le> 4"
    using k_def \<open>in_range 240 244 b0\<close> by (auto simp: in_range_def)
  define j where "j = b1 - 128"
  have j: "b1 = 128 + j" "j \<le> 63" "k = 0 \<Longrightarrow> 16 \<le> j" "k = 4 \<Longrightarrow> j \<le> 15"
    using j_def in1 k by (auto simp: in_range_def split: if_splits)
  define i where "i = b2 - 128"
  have i: "b2 = 128 + i" "i \<le> 63" using i_def in2 by (auto simp: in_range_def)
  define h where "h = b3 - 128"
  have h: "b3 = 128 + h" "h \<le> 63" using h_def in2 by (auto simp: in_range_def)
  have "fst (decode4 b0 bs) = k * 262144 + j * 4096 + i * 64 + h"
    using in1 in2 by (simp add: bs decode4_def) (simp add: h(1) i(1) j(1) k(1))
  moreover have "k = 0 \<or> k = 4 \<or> (1 \<le> k \<and> k \<le> 3)" using k(2) by arith
  ultimately show ?thesis using j i h k unfolding valid_rune_def by auto
qed (simp add: rune_error_def valid_rune_def)

lemma decode_bytes_valid: "valid_rune (fst (decode_bytes bs))"
proof (cases bs)
  case Nil
  then show ?thesis by (simp add: decode_bytes_def rune_error_def valid_rune_def)
next
  case (Cons b0 bs')
  then show ?thesis
    by (simp add: decode_bytes_def bad_byte_def decode2_valid decode3_valid decode4_valid)
       (simp add: valid_rune_def rune_error_def)
qed

lemma decode_rune_valid: "valid_rune (fst (decode_rune s))"
  by (simp add: decode_rune_def decode_bytes_valid)

lemma runes_valid: "list_all valid_rune (runes s)"
  unfolding runes_def
proof (induction s rule: rune_chunks.induct)
  case (2 c cs)
  then show ?case
    using decode_rune_valid [of "c # cs"]
    by (auto simp: rune_chunks.simps(2) split: prod.splits)
qed simp

text \<open>
  Cutting a string between two of its chunks does not change the chunks on either side: a sequence
  that decodes does not depend on what follows it, and a byte that starts no sequence still
  starts none when fewer bytes follow.
\<close>

lemma decode2_shorter: "snd (decode2 b (xs @ ys)) \<le> Suc (length xs) \<Longrightarrow> decode2 b xs = decode2 b (xs @ ys)"
  by (cases xs) (auto simp: decode2_def bad_byte_def split: list.splits if_splits)

lemma decode3_shorter: "snd (decode3 b (xs @ ys)) \<le> Suc (length xs) \<Longrightarrow> decode3 b xs = decode3 b (xs @ ys)"
  by (auto simp: decode3_def bad_byte_def Cons_eq_append_conv append_eq_Cons_conv split: list.splits if_splits)

lemma decode4_shorter: "snd (decode4 b (xs @ ys)) \<le> Suc (length xs) \<Longrightarrow> decode4 b xs = decode4 b (xs @ ys)"
  by (auto simp: decode4_def bad_byte_def Cons_eq_append_conv append_eq_Cons_conv split: list.splits if_splits)

lemma decode_bytes_shorter:
  "xs \<noteq> [] \<Longrightarrow> snd (decode_bytes (xs @ ys)) \<le> length xs \<Longrightarrow> decode_bytes xs = decode_bytes (xs @ ys)"
proof (cases xs)
  case (Cons b bs)
  assume "snd (decode_bytes (xs @ ys)) \<le> length xs"
  then show ?thesis
    using decode2_shorter [of b bs ys] decode3_shorter [of b bs ys] decode4_shorter [of b bs ys]
    unfolding Cons append_Cons decode_bytes_def list.case Let_def
    by (simp split del: if_split split: if_split_asm cong: if_cong)
qed simp

lemma decode_rune_shorter:
  assumes "s \<noteq> []" and "snd (decode_rune (s @ t)) \<le> length s"
  shows "decode_rune s = decode_rune (s @ t)"
proof -
  have "map byte_of (take 4 (s @ t)) \<noteq> []" using assms(1) by simp
  moreover have "length (map byte_of (take 4 (s @ t))) \<le> 4" by (simp del: take_append)
  ultimately have "snd (decode_rune (s @ t)) \<le> 4"
    unfolding decode_rune_def using decode_bytes_width order_trans by blast
  then show ?thesis
    using assms decode_bytes_shorter [of "map byte_of (take 4 s)" "map byte_of (take (4 - length s) t)"]
    by (simp add: decode_rune_def)
qed

lemma rune_chunks_suffix:
  "rune_chunks s = cs1 @ cs2 \<Longrightarrow> rune_chunks (concat (map snd cs2)) = cs2"
proof (induction cs1 arbitrary: s)
  case Nil
  then show ?case by (metis append_Nil concat_rune_chunks)
next
  case (Cons c cs1)
  then have "s \<noteq> []" by auto
  from Cons(1) [of "drop (snd (decode_rune s)) s"] Cons(2) show ?case
    by (simp add: rune_chunks_unfold [OF \<open>s \<noteq> []\<close>])
qed

lemma rune_chunks_prefix:
  "rune_chunks s = cs1 @ cs2 \<Longrightarrow> rune_chunks (concat (map snd cs1)) = cs1"
proof (induction cs1 arbitrary: s)
  case (Cons c cs1)
  then have s: "s \<noteq> []" by auto
  let ?w = "snd (decode_rune s)" and ?p = "concat (map snd cs1)"
  have c: "c = (fst (decode_rune s), take ?w s)" and r: "rune_chunks (drop ?w s) = cs1 @ cs2"
    using Cons(2) by (simp_all add: rune_chunks_unfold [OF s])
  have w: "1 \<le> ?w" "?w \<le> length s" using decode_rune_width [OF s] by auto
  have "drop ?w s = ?p @ concat (map snd cs2)" using concat_rune_chunks [of "drop ?w s"] r by simp
  then have sp: "s = (take ?w s @ ?p) @ concat (map snd cs2)" by (metis append.assoc append_take_drop_id)
  have ne: "take ?w s @ ?p \<noteq> []" using s w by simp
  have "snd (decode_rune ((take ?w s @ ?p) @ concat (map snd cs2))) \<le> length (take ?w s @ ?p)"
    using w unfolding sp [symmetric] by simp
  from decode_rune_shorter [OF ne this] have d: "decode_rune (take ?w s @ ?p) = decode_rune s"
    unfolding sp [symmetric] .
  have "take ?w (take ?w s @ ?p) = take ?w s" "drop ?w (take ?w s @ ?p) = ?p" using w by simp_all
  then show ?case using Cons(1) [OF r] by (simp add: c rune_chunks_unfold [OF ne] d)
qed simp

text \<open>On a string of ASCII bytes every byte is a rune.\<close>

definition ascii_string :: "string \<Rightarrow> bool" where
  "ascii_string s \<longleftrightarrow> (\<forall>c\<in>set s. byte_of c < 128)"

lemma decode_rune_ascii: "byte_of c < 128 \<Longrightarrow> decode_rune (c # cs) = (byte_of c, 1)"
  by (simp add: decode_rune_def decode_bytes_def)

lemma rune_chunks_ascii_Cons:
  "byte_of c < 128 \<Longrightarrow> rune_chunks (c # cs) = (byte_of c, [c]) # rune_chunks cs"
  by (simp add: rune_chunks.simps(2) decode_rune_ascii)

lemma rune_chunks_ascii:
  "ascii_string s \<Longrightarrow> rune_chunks s = map (\<lambda>c. (byte_of c, [c])) s"
  by (induction s) (simp_all add: ascii_string_def rune_chunks_ascii_Cons)

lemma runes_ascii: "ascii_string s \<Longrightarrow> runes s = map byte_of s"
  by (simp add: runes_def rune_chunks_ascii)

lemma runes_ascii_append:
  assumes "ascii_string s" shows "runes (s @ t) = map byte_of s @ runes t"
  using assms by (induction s) (simp_all add: ascii_string_def runes_def rune_chunks_ascii_Cons)

lemma encode_rune_ascii: "r < 128 \<Longrightarrow> encode_rune r = [char_of r]"
  by (simp add: encode_rune_def encode_bytes.simps)

subsection \<open>Prefixes, substrings, splitting and joining\<close>

fun has_prefix :: "string \<Rightarrow> string \<Rightarrow> bool" where
  "has_prefix s [] = True"
| "has_prefix [] (p # ps) = False"
| "has_prefix (c # cs) (p # ps) = (c = p \<and> has_prefix cs ps)"

definition has_suffix :: "string \<Rightarrow> string \<Rightarrow> bool" where
  [go_defs]: "has_suffix s p = has_prefix (rev s) (rev p)"

definition trim_prefix :: "string \<Rightarrow> string \<Rightarrow> string" where
  [go_defs]: "trim_prefix s p = (if has_prefix s p then drop (length p) s else s)"

definition trim_suffix :: "string \<Rightarrow> string \<Rightarrow> string" where
  [go_defs]: "trim_suffix s p = (if has_suffix s p then take (length s - length p) s else s)"

fun index_of :: "string \<Rightarrow> string \<Rightarrow> nat option" where
  "index_of [] p = (if p = [] then Some 0 else None)"
| "index_of (c # cs) p =
     (if has_prefix (c # cs) p then Some 0 else map_option Suc (index_of cs p))"

definition str_contains :: "string \<Rightarrow> string \<Rightarrow> bool" where
  [go_defs]: "str_contains s p \<longleftrightarrow> index_of s p \<noteq> None"

text \<open>\<open>strings.SplitN(s, sep, 2)[0]\<close>: what stands before the first separator.\<close>

definition split_first :: "string \<Rightarrow> string \<Rightarrow> string" where
  [go_defs]: "split_first s sep = (case index_of s sep of None \<Rightarrow> s | Some i \<Rightarrow> take i s)"

fun split_on :: "char \<Rightarrow> string \<Rightarrow> string list" where
  "split_on d [] = [[]]"
| "split_on d (c # cs) =
     (if c = d then [] # split_on d cs
      else case split_on d cs of x # xs \<Rightarrow> (c # x) # xs | [] \<Rightarrow> [[c]])"

fun join :: "string \<Rightarrow> string list \<Rightarrow> string" where
  "join sep [] = []"
| "join sep [x] = x"
| "join sep (x # y # ys) = x @ sep @ join sep (y # ys)"

lemma has_prefix_iff: "has_prefix s p \<longleftrightarrow> prefix p s"
  by (induction s p rule: has_prefix.induct) auto

lemma has_suffix_iff: "has_suffix s p \<longleftrightarrow> suffix p s"
  by (simp add: has_suffix_def has_prefix_iff suffix_to_prefix)

lemma has_prefix_append [simp]: "has_prefix (p @ s) p"
  by (simp add: has_prefix_iff)

lemma trim_prefix_append [simp]: "trim_prefix (p @ s) p = s"
  by (simp add: trim_prefix_def)

lemma trim_suffix_append [simp]: "trim_suffix (s @ p) p = s"
  by (simp add: trim_suffix_def has_suffix_iff suffix_def)

lemma str_contains_iff: "str_contains s p \<longleftrightarrow> sublist p s"
proof (induction s)
  case Nil
  then show ?case by (simp add: str_contains_def)
next
  case (Cons c cs)
  then show ?case
    by (auto simp: str_contains_def has_prefix_iff sublist_Cons_right)
qed

lemma str_containsI: "str_contains (a @ p @ b) p"
  by (simp add: str_contains_iff sublist_appendI)

lemma split_on_not_Nil [simp]: "split_on d s \<noteq> []"
  by (induction s) (auto split: list.split)

lemma split_on_no_sep: "d \<notin> set s \<Longrightarrow> split_on d s = [s]"
  by (induction s) auto

lemma split_on_append: "d \<notin> set x \<Longrightarrow> split_on d (x @ d # s) = x # split_on d s"
  by (induction x) auto

lemma split_on_join:
  "xs \<noteq> [] \<Longrightarrow> \<forall>x\<in>set xs. d \<notin> set x \<Longrightarrow> split_on d (join [d] xs) = xs"
  by (induction "[d]" xs rule: join.induct) (simp_all add: split_on_no_sep split_on_append)

lemma join_split_on: "join [d] (split_on d s) = s"
proof (induction s)
  case (Cons c cs)
  obtain x xs where "split_on d cs = x # xs" by (cases "split_on d cs") auto
  with Cons show ?case by (cases xs) auto
qed simp

lemma mem_join: "d \<in> set (join [d] xs) \<longleftrightarrow> 2 \<le> length xs \<or> (\<exists>x\<in>set xs. d \<in> set x)"
  by (induction "[d]" xs rule: join.induct) auto

subsection \<open>White space and case\<close>

definition space_chunk :: "rune \<times> string \<Rightarrow> bool" where
  [go_defs]: "space_chunk p = rune_is_space (fst p)"

definition trim_chunks :: "(rune \<times> string) list \<Rightarrow> (rune \<times> string) list" where
  [go_defs]: "trim_chunks cs = rev (dropWhile space_chunk (rev (dropWhile space_chunk cs)))"

definition trim_space :: "string \<Rightarrow> string" where
  [go_defs]: "trim_space s = concat (map snd (trim_chunks (rune_chunks s)))"

fun fields_from :: "string \<Rightarrow> (rune \<times> string) list \<Rightarrow> string list" where
  "fields_from cur [] = (if cur = [] then [] else [cur])"
| "fields_from cur ((r, b) # cs) =
     (if rune_is_space r then (if cur = [] then fields_from [] cs else cur # fields_from [] cs)
      else fields_from (cur @ b) cs)"

definition str_fields :: "string \<Rightarrow> string list" where
  [go_defs]: "str_fields s = fields_from [] (rune_chunks s)"

definition to_lower :: "string \<Rightarrow> string" where
  [go_defs]: "to_lower s = encode_runes (map rune_lower (runes s))"

definition to_upper :: "string \<Rightarrow> string" where
  [go_defs]: "to_upper s = encode_runes (map rune_upper (runes s))"

lemma trim_space_Nil [simp]: "trim_space [] = []"
  by (simp add: trim_space_def trim_chunks_def)

lemma trim_chunks_split: "\<exists>a b. cs = a @ trim_chunks cs @ b"
proof -
  let ?d = "dropWhile space_chunk cs"
  have "?d = trim_chunks cs @ rev (takeWhile space_chunk (rev ?d))"
    unfolding trim_chunks_def by (metis rev_append rev_rev_ident takeWhile_dropWhile_id)
  then show ?thesis by (metis takeWhile_dropWhile_id)
qed

lemma rune_chunks_trim_space: "rune_chunks (trim_space s) = trim_chunks (rune_chunks s)"
proof -
  obtain a b where ab: "rune_chunks s = a @ trim_chunks (rune_chunks s) @ b"
    using trim_chunks_split by blast
  from rune_chunks_prefix [OF rune_chunks_suffix [OF ab]] show ?thesis by (simp add: trim_space_def)
qed

lemma trim_chunks_idem: "trim_chunks (trim_chunks cs) = trim_chunks cs"
proof -
  let ?d = "dropWhile space_chunk cs"
  have "dropWhile space_chunk (trim_chunks cs) = trim_chunks cs"
  proof (cases "trim_chunks cs")
    case (Cons c xs)
    have "?d = trim_chunks cs @ rev (takeWhile space_chunk (rev ?d))"
      unfolding trim_chunks_def by (metis rev_append rev_rev_ident takeWhile_dropWhile_id)
    then obtain ys where "?d = c # ys" using Cons by (metis append_Cons)
    then have "\<not> space_chunk c" by (simp add: dropWhile_eq_Cons_conv)
    then show ?thesis by (simp add: Cons)
  qed simp
  then have "trim_chunks (trim_chunks cs) = rev (dropWhile space_chunk (rev (trim_chunks cs)))"
    by (simp add: trim_chunks_def [of "trim_chunks cs"])
  also have "\<dots> = trim_chunks cs" by (simp add: trim_chunks_def)
  finally show ?thesis .
qed

lemma trim_space_idem [simp]: "trim_space (trim_space s) = trim_space s"
  by (simp add: trim_space_def [of "trim_space s"] rune_chunks_trim_space trim_chunks_idem)
     (simp add: trim_space_def)

lemma trim_space_id:
  assumes "rune_chunks s = c # cs" and "\<not> space_chunk c" and "\<not> space_chunk (last (c # cs))"
  shows "trim_space s = s"
proof -
  have "dropWhile space_chunk (rev (c # cs)) = rev (c # cs)"
    using assms(3) by (simp only: dropWhile_eq_self_iff hd_rev simp_thms)
  then have "trim_chunks (rune_chunks s) = rune_chunks s"
    using assms(1,2) by (simp add: trim_chunks_def)
  then show ?thesis by (simp add: trim_space_def concat_rune_chunks)
qed

lemma trim_space_ascii_id:
  assumes "ascii_string s" and "s \<noteq> []"
    and "\<not> rune_is_space (byte_of (hd s))" and "\<not> rune_is_space (byte_of (last s))"
  shows "trim_space s = s"
proof (cases s)
  case (Cons c cs)
  have ch: "rune_chunks s = (byte_of c, [c]) # map (\<lambda>c. (byte_of c, [c])) cs"
    using assms(1) Cons by (simp add: rune_chunks_ascii)
  have "fst (last ((byte_of c, [c]) # map (\<lambda>c. (byte_of c, [c])) cs)) = byte_of (last s)"
    using Cons by (cases "cs = []") (simp_all add: last_map)
  with assms(3,4) Cons show ?thesis
    by (intro trim_space_id [OF ch]) (simp_all add: space_chunk_def)
qed (use assms in simp)

lemma byte_of_inj: "byte_of a = byte_of b \<Longrightarrow> a = b"
  by (simp add: byte_of_def)

lemma char_byte [simp]: "char_of (byte_of c) = c"
  by (simp add: byte_of_def)

lemma encode_runes_ascii: "list_all (\<lambda>r. r < 128) rs \<Longrightarrow> encode_runes rs = map char_of rs"
  by (induction rs) (simp_all add: encode_runes_def encode_rune_ascii)

lemma to_lower_ascii:
  assumes "ascii_string s"
  shows "to_lower s = map (\<lambda>c. char_of (rune_lower (byte_of c))) s"
proof -
  have "list_all (\<lambda>r. r < 128) (map (rune_lower \<circ> byte_of) s)"
    using assms by (auto simp: list_all_iff ascii_string_def rune_lower_ascii_bound)
  then show ?thesis
    using assms by (simp add: to_lower_def runes_ascii encode_runes_ascii)
qed

end
