(* ===== verification/Go_Numbers.thy ===== *)
theory Go_Numbers
  imports Go_Strings
begin

text \<open>
  Numbers and their text: \<open>strconv.Itoa\<close>, \<open>strconv.Atoi\<close>,
  \<open>strconv.ParseUint\<close>, \<open>strconv.FormatBool\<close>, \<open>strconv.Quote\<close>, and
  \<open>float64\<close>. A float64 is a rational, an infinity or NaN; every finite float64 is a
  rational, and the comparisons and the decimal formatting below are exact on it. The program does
  no arithmetic on scores. Two things are left out: the sign of zero, which only changes how
  zero is printed, and the rounding of the two divisions the program makes (the share of
  ASCII runes and the CPU usage).
\<close>

subsection \<open>Decimal digits\<close>

definition digit_char :: "nat \<Rightarrow> char" where
  "digit_char d = char_of (48 + d)"

fun show_nat :: "nat \<Rightarrow> string" where
  "show_nat n = (if n < 10 then [digit_char n] else show_nat (n div 10) @ [digit_char (n mod 10)])"

declare show_nat.simps [simp del]

definition itoa :: "int \<Rightarrow> string" where
  "itoa i = (if i < 0 then CHR ''-'' # show_nat (nat (- i)) else show_nat (nat i))"

definition is_digit :: "char \<Rightarrow> bool" where
  "is_digit c \<longleftrightarrow> 48 \<le> byte_of c \<and> byte_of c \<le> 57"

definition digits_value :: "string \<Rightarrow> nat" where
  "digits_value s = foldl (\<lambda>a c. 10 * a + (byte_of c - 48)) 0 s"

definition parse_uint :: "nat \<Rightarrow> string \<Rightarrow> nat option" where
  "parse_uint limit s =
     (if s \<noteq> [] \<and> list_all is_digit s \<and> digits_value s < limit then Some (digits_value s) else None)"

definition atoi :: "string \<Rightarrow> int option" where
  "atoi s =
     (case s of
        [] \<Rightarrow> None
      | c # cs \<Rightarrow>
          if c = CHR ''-'' then map_option (\<lambda>n. - int n) (parse_uint (2 ^ 63 + 1) cs)
          else if c = CHR ''+'' then map_option int (parse_uint (2 ^ 63) cs)
          else map_option int (parse_uint (2 ^ 63) s))"

definition format_bool :: "bool \<Rightarrow> string" where
  "format_bool b = (if b then ''true'' else ''false'')"

lemma byte_of_char_of [simp]: "n < 256 \<Longrightarrow> byte_of (char_of n) = n"
  by (simp add: byte_of_def)

lemma byte_of_digit: "d < 10 \<Longrightarrow> byte_of (digit_char d) = 48 + d"
  by (simp add: digit_char_def)

lemma show_nat_digits: "list_all is_digit (show_nat n)"
proof (induction n rule: show_nat.induct)
  case (1 n)
  then show ?case
    by (cases "n < 10") (simp_all add: show_nat.simps [of n] is_digit_def byte_of_digit)
qed

lemma show_nat_not_Nil [simp]: "show_nat n \<noteq> []"
  by (subst show_nat.simps) simp

lemma digits_value_snoc: "digits_value (s @ [c]) = 10 * digits_value s + (byte_of c - 48)"
  by (simp add: digits_value_def)

lemma digits_value_show_nat: "digits_value (show_nat n) = n"
proof (induction n rule: show_nat.induct)
  case (1 n)
  show ?case
  proof (cases "n < 10")
    case True
    then show ?thesis by (simp add: show_nat.simps [of n] digits_value_def byte_of_digit)
  next
    case False
    with 1 show ?thesis
      by (simp add: show_nat.simps [of n] digits_value_snoc byte_of_digit)
  qed
qed

lemma show_nat_inject [simp]: "show_nat m = show_nat n \<longleftrightarrow> m = n"
  by (metis digits_value_show_nat)

lemma not_digit_hd_show_nat:
  assumes "\<not> is_digit c" shows "show_nat n \<noteq> c # s"
  using show_nat_digits [of n] assms by auto

lemma digit_not_sign: "\<not> is_digit (CHR ''-'')" "\<not> is_digit (CHR ''+'')"
  by (simp_all add: is_digit_def byte_of_def)

lemma itoa_inject [simp]: "itoa i = itoa j \<longleftrightarrow> i = j"
  using not_digit_hd_show_nat [OF digit_not_sign(1)]
  by (auto simp: itoa_def split: if_splits) (metis)+

text \<open>\<open>Atoi\<close> reads back what \<open>Itoa\<close> wrote, over the 64-bit range.\<close>

lemma atoi_itoa:
  assumes "- (2 ^ 63) \<le> i" and "i < 2 ^ 63"
  shows "atoi (itoa i) = Some i"
proof (cases "i < 0")
  case True
  with assms show ?thesis
    by (simp add: itoa_def atoi_def parse_uint_def show_nat_digits digits_value_show_nat)
next
  case False
  obtain c cs where s: "show_nat (nat i) = c # cs" by (cases "show_nat (nat i)") auto
  then have "c \<noteq> CHR ''-''" and "c \<noteq> CHR ''+''"
    using not_digit_hd_show_nat [OF digit_not_sign(1)] not_digit_hd_show_nat [OF digit_not_sign(2)]
    by metis+
  moreover have "parse_uint (2 ^ 63) (c # cs) = Some (nat i)"
    using assms False
    by (simp add: parse_uint_def show_nat_digits digits_value_show_nat flip: s)
  ultimately show ?thesis
    using False by (simp add: itoa_def atoi_def s)
qed

subsection \<open>Floating point\<close>

datatype f64 = NaN | NegInf | Fin rat | PosInf

fun f64_lt :: "f64 \<Rightarrow> f64 \<Rightarrow> bool" where
  "f64_lt NaN _ = False"
| "f64_lt _ NaN = False"
| "f64_lt _ NegInf = False"
| "f64_lt NegInf _ = True"
| "f64_lt PosInf _ = False"
| "f64_lt _ PosInf = True"
| "f64_lt (Fin a) (Fin b) = (a < b)"

fun f64_le :: "f64 \<Rightarrow> f64 \<Rightarrow> bool" where
  "f64_le NaN _ = False"
| "f64_le _ NaN = False"
| "f64_le NegInf _ = True"
| "f64_le _ NegInf = False"
| "f64_le _ PosInf = True"
| "f64_le PosInf _ = False"
| "f64_le (Fin a) (Fin b) = (a \<le> b)"

lemma f64_le_refl: "x \<noteq> NaN \<Longrightarrow> f64_le x x"
  by (cases x) auto

lemma f64_not_lt: "x \<noteq> NaN \<Longrightarrow> y \<noteq> NaN \<Longrightarrow> \<not> f64_lt x y \<longleftrightarrow> f64_le y x"
  by (cases x; cases y) auto

lemma f64_le_trans: "f64_le x y \<Longrightarrow> f64_le y z \<Longrightarrow> f64_le x z"
  by (cases x; cases y; cases z) auto

lemma f64_le_not_NaN: "f64_le x y \<Longrightarrow> x \<noteq> NaN \<and> y \<noteq> NaN"
  by (cases x; cases y) auto

lemma f64_lt_irrefl [simp]: "\<not> f64_lt x x"
  by (cases x) auto

lemma f64_lt_trans: "f64_lt x y \<Longrightarrow> f64_lt y z \<Longrightarrow> f64_lt x z"
  by (cases x; cases y; cases z) auto

definition round_half_even :: "rat \<Rightarrow> int" where
  "round_half_even x =
     (let f = \<lfloor>x\<rfloor>; e = x - of_int f
      in if e < 1 / 2 then f else if 1 / 2 < e then f + 1 else if even f then f else f + 1)"

definition pad_zeros :: "nat \<Rightarrow> string \<Rightarrow> string" where
  "pad_zeros d s = replicate (d - length s) (CHR ''0'') @ s"

text \<open>\<open>strconv.FormatFloat(x, 'f', d, 64)\<close> and \<open>%.df\<close>, for \<open>0 < d\<close>.\<close>

definition format_fixed :: "nat \<Rightarrow> f64 \<Rightarrow> string" where
  "format_fixed d x =
     (case x of
        NaN \<Rightarrow> ''NaN''
      | PosInf \<Rightarrow> ''+Inf''
      | NegInf \<Rightarrow> ''-Inf''
      | Fin r \<Rightarrow>
          let n = nat (round_half_even (\<bar>r\<bar> * 10 ^ d))
          in (if r < 0 then ''-'' else []) @ show_nat (n div 10 ^ d) @ ''.'' @
             pad_zeros d (show_nat (n mod 10 ^ d)))"

subsection \<open>Quoting\<close>

definition hex_digit :: "nat \<Rightarrow> char" where
  "hex_digit n = (if n < 10 then char_of (48 + n) else char_of (87 + n))"

fun hex_digits :: "nat \<Rightarrow> nat \<Rightarrow> string" where
  "hex_digits 0 n = []"
| "hex_digits (Suc k) n = hex_digits k (n div 16) @ [hex_digit (n mod 16)]"

definition quote_rune :: "rune \<times> string \<Rightarrow> string" where
  "quote_rune p =
     (let (r, b) = p in
      if length b = 1 \<and> r = rune_error then [CHR 0x5C] @ ''x'' @ hex_digits 2 (byte_of (hd b))
      else if r = 34 \<or> r = 92 then [CHR 0x5C] @ b
      else if rune_is_print r then b
      else if r = 7 then [CHR 0x5C] @ ''a''
      else if r = 8 then [CHR 0x5C] @ ''b''
      else if r = 12 then [CHR 0x5C] @ ''f''
      else if r = 10 then [CHR 0x5C] @ ''n''
      else if r = 13 then [CHR 0x5C] @ ''r''
      else if r = 9 then [CHR 0x5C] @ ''t''
      else if r = 11 then [CHR 0x5C] @ ''v''
      else if r < 32 \<or> r = 127 then [CHR 0x5C] @ ''x'' @ hex_digits 2 r
      else if r < 65536 then [CHR 0x5C] @ ''u'' @ hex_digits 4 r
      else [CHR 0x5C] @ ''U'' @ hex_digits 8 r)"

definition quote :: "string \<Rightarrow> string" where
  "quote s = [CHR 0x22] @ concat (map quote_rune (rune_chunks s)) @ [CHR 0x22]"

lemmas number_defs = show_nat.simps itoa_def digit_char_def format_fixed_def round_half_even_def
  pad_zeros_def format_bool_def

end
