(* ===== verification/Model_Types.thy ===== *)
theory Model_Types
  imports Go_Numbers
begin

text \<open>
  The data that the components exchange (\<open>model/types.go\<close>): search results and their
  metadata, documents, collections, index status and health levels. The field names carry
  a prefix for their type; the order is the source's. Times are nanoseconds, as integers.
\<close>

type_synonym time = int
type_synonym duration = int

abbreviation millisecond :: duration where "millisecond \<equiv> 1000000"
abbreviation second :: duration where "second \<equiv> 1000000000"
abbreviation minute :: duration where "minute \<equiv> 60000000000"
abbreviation hour :: duration where "hour \<equiv> 3600000000000"

record search_result =
  sr_title :: string
  sr_file :: string
  sr_collection :: string
  sr_score :: f64
  sr_snippet :: string
  sr_docid :: string

record search_meta =
  sm_mode_used :: string
  sm_served_mode :: string
  sm_collections_searched :: "string list"
  sm_fallback_triggered :: bool
  sm_cache_hit :: bool
  sm_degraded :: bool
  sm_degrade_reason :: string
  sm_trace_id :: string
  sm_latency_ms :: int

record search_response =
  rs_results :: "search_result list"
  rs_meta :: search_meta
  rs_formatted_text :: string

record document =
  doc_file :: string
  doc_content :: string

record search_and_get_response =
  sg_file_hits :: "search_result list"
  sg_documents :: "document list"
  sg_formatted_text :: string
  sg_meta :: search_meta

record collection_info =
  ci_name :: string
  ci_path :: string
  ci_mask :: string
  ci_files :: int

record path_context =
  pc_path :: string
  pc_description :: string

record index_status =
  ix_collections :: "collection_info list"
  ix_vectors :: int
  ix_last_update :: time
  ix_raw :: string

subsection \<open>Health levels\<close>

datatype health_level = Healthy | Degraded | Unhealthy | Critical

primrec level_int :: "health_level \<Rightarrow> int" where
  "level_int Healthy = 0"
| "level_int Degraded = 1"
| "level_int Unhealthy = 2"
| "level_int Critical = 3"

primrec level_str :: "health_level \<Rightarrow> string" where
  "level_str Healthy = ''healthy''"
| "level_str Degraded = ''degraded''"
| "level_str Unhealthy = ''unhealthy''"
| "level_str Critical = ''critical''"

instantiation health_level :: linorder
begin

definition less_eq_health_level :: "health_level \<Rightarrow> health_level \<Rightarrow> bool" where
  "less_eq_health_level a b \<longleftrightarrow> level_int a \<le> level_int b"

definition less_health_level :: "health_level \<Rightarrow> health_level \<Rightarrow> bool" where
  "less_health_level a b \<longleftrightarrow> level_int a < level_int b"

instance
proof
  fix a b :: health_level
  show "a \<le> b \<Longrightarrow> b \<le> a \<Longrightarrow> a = b"
    by (cases a; cases b) (simp_all add: less_eq_health_level_def)
qed (auto simp: less_eq_health_level_def less_health_level_def)

end

lemma Healthy_le [simp]: "Healthy \<le> l"
  by (cases l) (simp_all add: less_eq_health_level_def)

lemma le_Critical [simp]: "l \<le> Critical"
  by (cases l) (simp_all add: less_eq_health_level_def)

lemma level_str_inject [simp]: "level_str a = level_str b \<longleftrightarrow> a = b"
  by (cases a; cases b) simp_all

record component_health =
  ch_name :: string
  ch_level :: health_level
  ch_level_str :: string
  ch_last_check :: time
  ch_last_healthy :: time
  ch_message :: string
  ch_fail_count :: int

record system_health =
  sh_overall :: health_level
  sh_overall_str :: string
  sh_components :: "(string, component_health) gomap"
  sh_started_at :: time
  sh_uptime_sec :: int
  sh_mode :: string

end
