(* ===== verification/Cache.thy ===== *)
theory Cache
  imports Model_Types
begin

text \<open>
  The LRU result cache (\<open>cache/cache.go\<close>). The Go cache is a map from keys to
  elements of a \<open>container/list\<close> list, front most recent. Here an element is an address,
  \<open>c_heap\<close> is the store that maps it to its \<open>cacheItem\<close>, \<open>c_order\<close> is the list
  and \<open>c_items\<close> the map. Every operation runs as one atomic step, and reads the clock
  through its first argument. The last part states what the cache promises as the interface
  \<open>result_cache\<close>.
\<close>

record entry =
  en_results :: "search_result list"
  en_index_version :: string
  en_created_at :: time
  en_query :: string
  en_mode :: string
  en_collection :: string
  en_fallback_triggered :: bool
  en_degraded :: bool
  en_degrade_reason :: string

record cache_item =
  it_key :: string
  it_entry :: entry

record cache_config =
  cc_enabled :: bool
  cc_ttl :: duration
  cc_max_entries :: int
  cc_cleanup_interval :: duration
  cc_version_aware :: bool

record cache =
  c_items :: "(string, nat) gomap"
  c_order :: "nat list"
  c_heap :: "(nat, cache_item) gomap"
  c_next :: nat
  c_max :: int
  c_ttl :: duration
  c_version_aware :: bool
  c_version :: string
  c_enabled :: bool
  c_hits :: int
  c_misses :: int

definition cache_new :: "cache_config \<Rightarrow> cache" where
  "cache_new cfg =
     \<lparr>c_items = [], c_order = [], c_heap = [], c_next = 0,
      c_max = cc_max_entries cfg, c_ttl = cc_ttl cfg,
      c_version_aware = cc_version_aware cfg, c_version = [],
      c_enabled = cc_enabled cfg, c_hits = 0, c_misses = 0\<rparr>"

text \<open>\<open>List.MoveToFront\<close>, \<open>List.Remove\<close>: no effect on an element of no list.\<close>

definition move_to_front :: "nat \<Rightarrow> nat list \<Rightarrow> nat list" where
  "move_to_front el xs = (if el \<in> set xs then el # remove1 el xs else xs)"

definition cache_remove :: "string \<Rightarrow> cache \<Rightarrow> cache" where
  "cache_remove key c =
     (case mget (c_items c) key of
        None \<Rightarrow> c
      | Some el \<Rightarrow> c\<lparr>c_order := remove1 el (c_order c), c_items := mdel key (c_items c)\<rparr>)"

definition cache_evict :: "cache \<Rightarrow> cache" where
  "cache_evict c =
     (if c_order c = [] then c
      else let back = last (c_order c)
           in case mget (c_heap c) back of
                None \<Rightarrow> c
              | Some it \<Rightarrow>
                  c\<lparr>c_order := remove1 back (c_order c),
                    c_items := mdel (it_key it) (c_items c)\<rparr>)"

definition entry_expired :: "time \<Rightarrow> cache \<Rightarrow> entry \<Rightarrow> bool" where
  "entry_expired now c e \<longleftrightarrow> now - en_created_at e > c_ttl c"

definition version_mismatch :: "cache \<Rightarrow> entry \<Rightarrow> bool" where
  "version_mismatch c e \<longleftrightarrow> c_version_aware c \<and> en_index_version e \<noteq> c_version c"

definition cache_get :: "time \<Rightarrow> string \<Rightarrow> cache \<Rightarrow> entry option \<times> cache" where
  "cache_get now key c =
     (if \<not> c_enabled c then (None, c)
      else case mget (c_items c) key of
        None \<Rightarrow> (None, c\<lparr>c_misses := c_misses c + 1\<rparr>)
      | Some el \<Rightarrow>
          (case mget (c_heap c) el of
             None \<Rightarrow> (None, c)
           | Some it \<Rightarrow>
               if entry_expired now c (it_entry it) then
                 (None, (cache_remove key c)\<lparr>c_misses := c_misses c + 1\<rparr>)
               else if version_mismatch c (it_entry it) then
                 (None, (cache_remove key c)\<lparr>c_misses := c_misses c + 1\<rparr>)
               else
                 (Some (it_entry it),
                  c\<lparr>c_order := move_to_front el (c_order c), c_hits := c_hits c + 1\<rparr>)))"

definition stamp :: "time \<Rightarrow> cache \<Rightarrow> entry \<Rightarrow> entry" where
  "stamp now c e = e\<lparr>en_index_version := c_version c, en_created_at := now\<rparr>"

definition cache_put :: "time \<Rightarrow> string \<Rightarrow> entry \<Rightarrow> cache \<Rightarrow> cache" where
  "cache_put now key e c =
     (if \<not> c_enabled c then c
      else case mget (c_items c) key of
        Some el \<Rightarrow>
          (case mget (c_heap c) el of
             None \<Rightarrow> c
           | Some it \<Rightarrow>
               c\<lparr>c_order := move_to_front el (c_order c),
                 c_heap := mput el (it\<lparr>it_entry := stamp now c e\<rparr>) (c_heap c)\<rparr>)
      | None \<Rightarrow>
          let c1 = (if c_max c \<le> int (length (c_order c)) then cache_evict c else c);
              el = c_next c1
          in c1\<lparr>c_heap := mput el \<lparr>it_key = key, it_entry = stamp now c e\<rparr> (c_heap c1),
                c_next := Suc el,
                c_order := el # c_order c1,
                c_items := mput key el (c_items c1)\<rparr>)"

definition cache_set_version :: "string \<Rightarrow> cache \<Rightarrow> cache" where
  "cache_set_version v c = c\<lparr>c_version := v\<rparr>"

definition cache_clear :: "cache \<Rightarrow> cache" where
  "cache_clear c = c\<lparr>c_items := [], c_order := []\<rparr>"

text \<open>\<open>Cleanup\<close> ranges over the map and drops the stale entries; it returns their number.\<close>

definition stale_key :: "time \<Rightarrow> cache \<Rightarrow> string \<Rightarrow> bool" where
  "stale_key now c key =
     (case mget (c_items c) key of
        None \<Rightarrow> False
      | Some el \<Rightarrow>
          (case mget (c_heap c) el of
             None \<Rightarrow> False
           | Some it \<Rightarrow> entry_expired now c (it_entry it) \<or> version_mismatch c (it_entry it)))"

fun cleanup_keys :: "time \<Rightarrow> string list \<Rightarrow> cache \<Rightarrow> int \<times> cache" where
  "cleanup_keys now [] c = (0, c)"
| "cleanup_keys now (k # ks) c =
     (if stale_key now c k
      then (let (n, c') = cleanup_keys now ks (cache_remove k c) in (n + 1, c'))
      else cleanup_keys now ks c)"

definition cache_cleanup :: "time \<Rightarrow> cache \<Rightarrow> int \<times> cache" where
  "cache_cleanup now c = cleanup_keys now (mkeys (c_items c)) c"

definition cache_stats :: "cache \<Rightarrow> int \<times> int \<times> int" where
  "cache_stats c = (int (length (c_order c)), c_hits c, c_misses c)"

definition make_cache_key ::
    "string \<Rightarrow> string \<Rightarrow> string \<Rightarrow> f64 \<Rightarrow> int \<Rightarrow> bool \<Rightarrow> bool \<Rightarrow> bool \<Rightarrow> string" where
  "make_cache_key query mode collection min_score n fallback files_only files_all =
     join ''|''
       [quote query, mode, collection, format_fixed 6 min_score, itoa n,
        format_bool fallback, format_bool files_only, format_bool files_all]"

subsection \<open>The invariant: map, list and items agree\<close>

definition cache_inv :: "cache \<Rightarrow> bool" where
  "cache_inv c \<longleftrightarrow>
     mwf (c_items c) \<and> mwf (c_heap c) \<and> distinct (c_order c) \<and>
     (\<forall>k el. mget (c_items c) k = Some el \<longrightarrow>
        el \<in> set (c_order c) \<and> (\<exists>it. mget (c_heap c) el = Some it \<and> it_key it = k)) \<and>
     (\<forall>el \<in> set (c_order c). \<exists>it. mget (c_heap c) el = Some it \<and> mget (c_items c) (it_key it) = Some el) \<and>
     (\<forall>el \<in> set (c_order c). el < c_next c)"

lemma cache_invD:
  assumes "cache_inv c"
  shows "mwf (c_items c)" "mwf (c_heap c)" "distinct (c_order c)"
    and "mget (c_items c) k = Some el \<Longrightarrow>
           el \<in> set (c_order c) \<and> (\<exists>it. mget (c_heap c) el = Some it \<and> it_key it = k)"
    and "el \<in> set (c_order c) \<Longrightarrow>
           \<exists>it. mget (c_heap c) el = Some it \<and> mget (c_items c) (it_key it) = Some el"
    and "el \<in> set (c_order c) \<Longrightarrow> el < c_next c"
  using assms unfolding cache_inv_def by blast+

lemma cache_invI:
  assumes "mwf (c_items c)" and "mwf (c_heap c)" and "distinct (c_order c)"
    and "\<And>k el. mget (c_items c) k = Some el \<Longrightarrow> el \<in> set (c_order c)"
    and "\<And>k el. mget (c_items c) k = Some el \<Longrightarrow> \<exists>it. mget (c_heap c) el = Some it \<and> it_key it = k"
    and "\<And>el. el \<in> set (c_order c) \<Longrightarrow>
           \<exists>it. mget (c_heap c) el = Some it \<and> mget (c_items c) (it_key it) = Some el"
    and "\<And>el. el \<in> set (c_order c) \<Longrightarrow> el < c_next c"
  shows "cache_inv c"
  unfolding cache_inv_def using assms by blast

lemma items_lookupE:
  assumes "cache_inv c" and "mget (c_items c) k = Some el"
  obtains it where "el \<in> set (c_order c)" "mget (c_heap c) el = Some it" "it_key it = k"
  using cache_invD(4) [OF assms] by blast

lemma set_move_to_front [simp]: "set (move_to_front el xs) = set xs"
  by (induction xs) (auto simp: move_to_front_def)

lemma distinct_move_to_front [simp]: "distinct xs \<Longrightarrow> distinct (move_to_front el xs)"
  by (simp add: move_to_front_def)

lemma length_move_to_front [simp]: "length (move_to_front el xs) = length xs"
  by (auto simp: move_to_front_def length_remove1 dest: length_pos_if_in_set)

lemma cache_inv_new [inv_intros]: "cache_inv (cache_new cfg)"
  by (simp add: cache_inv_def cache_new_def)

lemma cache_inv_counters [simp]:
  "cache_inv (c\<lparr>c_misses := m\<rparr>) = cache_inv c"
  "cache_inv (c\<lparr>c_hits := m\<rparr>) = cache_inv c"
  by (simp_all add: cache_inv_def)

lemma cache_inv_order:
  "cache_inv c \<Longrightarrow> set xs = set (c_order c) \<Longrightarrow> distinct xs \<Longrightarrow> cache_inv (c\<lparr>c_order := xs\<rparr>)"
  by (simp add: cache_inv_def)

lemma items_inj:
  assumes "cache_inv c" and "mget (c_items c) k = Some el" and "mget (c_items c) k' = Some el"
  shows "k' = k"
  using items_lookupE [OF assms(1,2)] items_lookupE [OF assms(1,3)] by (metis option.inject)

lemma cache_inv_drop:
  assumes inv: "cache_inv c" and el: "mget (c_items c) k = Some el"
  shows "cache_inv (c\<lparr>c_order := remove1 el (c_order c), c_items := mdel k (c_items c)\<rparr>)"
proof -
  note I = cache_invD [OF inv]
  have other: "el' \<noteq> el" if "mget (c_items c) k' = Some el'" "k' \<noteq> k" for k' el'
    using that items_inj [OF inv el] by blast
  have key: "it_key it \<noteq> k" if "mget (c_items c) (it_key it) = Some el'" "el' \<noteq> el" for it el'
    using that el by auto
  show ?thesis
  proof (rule cache_invI, goal_cases)
    case (6 el')
    then have "el' \<in> set (c_order c)" "el' \<noteq> el" using I(3) by (simp_all add: set_remove1_eq)
    then obtain it where "mget (c_heap c) el' = Some it" "mget (c_items c) (it_key it) = Some el'"
      using I(5) by blast
    then show ?case using key \<open>el' \<noteq> el\<close> by simp
  next
    case (5 k' el')
    then show ?case using I(4) by (simp split: if_splits)
  qed (use I(1-4,6) other in \<open>auto simp: set_remove1_eq split: if_splits\<close>)
qed

lemma cache_inv_remove [inv_intros]: "cache_inv c \<Longrightarrow> cache_inv (cache_remove k c)"
  by (simp add: cache_remove_def cache_inv_drop split: option.split)

lemma cache_inv_evict [inv_intros]:
  assumes "cache_inv c" shows "cache_inv (cache_evict c)"
proof (cases "c_order c = []")
  case False
  then obtain it where "mget (c_heap c) (last (c_order c)) = Some it"
    "mget (c_items c) (it_key it) = Some (last (c_order c))"
    using cache_invD(5) [OF assms last_in_set] by blast
  with False show ?thesis
    using cache_inv_drop [OF assms] by (simp add: cache_evict_def)
qed (simp add: cache_evict_def assms)

lemma cache_inv_get [inv_intros]: "cache_inv c \<Longrightarrow> cache_inv (snd (cache_get now k c))"
  by (auto simp: cache_get_def cache_inv_remove cache_inv_order cache_invD(3) split: option.split)

lemma cache_inv_push:
  assumes inv: "cache_inv c" and new: "mget (c_items c) k = None"
  shows "cache_inv (c\<lparr>c_heap := mput (c_next c) \<lparr>it_key = k, it_entry = e\<rparr> (c_heap c),
           c_next := Suc (c_next c), c_order := c_next c # c_order c,
           c_items := mput k (c_next c) (c_items c)\<rparr>)"
proof -
  have fresh: "c_next c \<notin> set (c_order c)"
    using cache_invD(6) [OF inv] by blast
  have items: "mget (c_items c) k' = Some el \<Longrightarrow> el \<noteq> c_next c" for k' el
    using cache_invD(4) [OF inv] fresh by blast
  show ?thesis
    using inv new fresh items unfolding cache_inv_def
    by (auto simp: less_Suc_eq) (metis option.distinct(1) option.inject)+
qed

lemma c_items_evict:
  "mget (c_items c) k = None \<Longrightarrow> mget (c_items (cache_evict c)) k = None"
  by (auto simp: cache_evict_def Let_def split: option.split)

lemma cache_inv_update:
  assumes inv: "cache_inv c" and el: "mget (c_items c) k = Some el"
    and it: "mget (c_heap c) el = Some it"
  shows "cache_inv (c\<lparr>c_order := move_to_front el (c_order c),
           c_heap := mput el (it\<lparr>it_entry := e\<rparr>) (c_heap c)\<rparr>)"
proof -
  note I = cache_invD [OF inv]
  have it_el: "mget (c_items c) (it_key it) = Some el" and k: "it_key it = k"
    using I(4) [OF el] el it by auto
  show ?thesis
  proof (rule cache_invI, goal_cases)
    case (5 k' el')
    then have "\<exists>i. mget (c_heap c) el' = Some i \<and> it_key i = k'" using I(4) by simp
    then show ?case using it by auto
  next
    case (6 el')
    then have "\<exists>i. mget (c_heap c) el' = Some i \<and> mget (c_items c) (it_key i) = Some el'"
      using I(5) by simp
    then show ?case using it it_el by auto
  qed (use I(1-4,6) in auto)
qed

lemma cache_inv_put [inv_intros]:
  assumes inv: "cache_inv c" shows "cache_inv (cache_put now k e c)"
proof (cases "mget (c_items c) k")
  case None
  then show ?thesis
    using inv cache_inv_push [OF inv None]
      cache_inv_push [OF cache_inv_evict [OF inv] c_items_evict [OF None]]
    by (simp add: cache_put_def Let_def)
next
  case (Some el)
  then show ?thesis
    using inv cache_inv_update [OF inv Some]
    by (simp add: cache_put_def split: option.split)
qed

lemma cache_inv_set_version [inv_intros]: "cache_inv c \<Longrightarrow> cache_inv (cache_set_version v c)"
  by (simp add: cache_inv_def cache_set_version_def)

lemma cache_inv_clear [inv_intros]: "cache_inv c \<Longrightarrow> cache_inv (cache_clear c)"
  by (simp add: cache_inv_def cache_clear_def)

lemma cache_inv_cleanup_keys: "cache_inv c \<Longrightarrow> cache_inv (snd (cleanup_keys now ks c))"
  by (induction ks arbitrary: c) (simp_all add: cache_inv_remove case_prod_beta)

lemma cache_inv_cleanup [inv_intros]: "cache_inv c \<Longrightarrow> cache_inv (snd (cache_cleanup now c))"
  by (simp add: cache_cleanup_def cache_inv_cleanup_keys)

end
