(* ===== verification/Cache_Refine.thy ===== *)
theory Cache_Refine
  imports Cache
begin

text \<open>
  What the cache of \<open>Cache\<close> promises. \<open>lru c\<close> is the abstract state: the
  cached pairs, most recent first. Each pointer-level operation is shown to be an operation on that
  list; \<open>cache_live\<close> is what a lookup returns; the interface \<open>result_cache\<close>
  collects the laws a client needs and is interpreted on the operations.
\<close>

definition item_pair :: "cache_item \<Rightarrow> string \<times> entry" where
  "item_pair it = (it_key it, it_entry it)"

definition lru :: "cache \<Rightarrow> (string \<times> entry) list" where
  "lru c = map (\<lambda>el. item_pair (the (mget (c_heap c) el))) (c_order c)"

definition cache_peek :: "cache \<Rightarrow> string \<Rightarrow> entry option" where
  "cache_peek c k =
     (case mget (c_items c) k of
        None \<Rightarrow> None
      | Some el \<Rightarrow> map_option it_entry (mget (c_heap c) el))"

definition entry_fresh :: "time \<Rightarrow> cache \<Rightarrow> entry \<Rightarrow> bool" where
  "entry_fresh now c e \<longleftrightarrow> \<not> entry_expired now c e \<and> \<not> version_mismatch c e"

definition cache_live :: "time \<Rightarrow> cache \<Rightarrow> string \<Rightarrow> entry option" where
  "cache_live now c k =
     (if c_enabled c
      then (case cache_peek c k of
              None \<Rightarrow> None
            | Some e \<Rightarrow> if entry_fresh now c e then Some e else None)
      else None)"

subsection \<open>The abstract LRU list\<close>

definition lru_without :: "string \<Rightarrow> (string \<times> 'e) list \<Rightarrow> (string \<times> 'e) list" where
  "lru_without k xs = filter (\<lambda>p. fst p \<noteq> k) xs"

definition lru_touch :: "string \<Rightarrow> (string \<times> 'e) list \<Rightarrow> (string \<times> 'e) list" where
  "lru_touch k xs =
     (case map_of xs k of None \<Rightarrow> xs | Some e \<Rightarrow> (k, e) # lru_without k xs)"

definition lru_put :: "int \<Rightarrow> string \<Rightarrow> 'e \<Rightarrow> (string \<times> 'e) list \<Rightarrow> (string \<times> 'e) list" where
  "lru_put cap k e xs =
     (k, e) # (if map_of xs k \<noteq> None then lru_without k xs
               else if cap \<le> int (length xs) then butlast xs else xs)"

lemma map_of_lru_without: "map_of (lru_without k xs) k' = (if k' = k then None else map_of xs k')"
  by (induction xs) (auto simp: lru_without_def)

lemma lru_without_absent: "k \<notin> fst ` set xs \<Longrightarrow> lru_without k xs = xs"
  unfolding lru_without_def by (rule filter_True) auto

lemma length_lru_without:
  "distinct (map fst xs) \<Longrightarrow> map_of xs k = Some e \<Longrightarrow> Suc (length (lru_without k xs)) = length xs"
proof (induction xs)
  case (Cons p xs)
  then show ?case
    by (cases "fst p = k")
       (auto simp: lru_without_absent [unfolded lru_without_def] lru_without_def split: if_splits)
qed simp

lemma map_of_butlast: "map_of (butlast xs) k = Some e \<Longrightarrow> distinct (map fst xs) \<Longrightarrow> map_of xs k = Some e"
  by (induction xs) (auto split: if_splits)

lemma length_lru_put:
  assumes "distinct (map fst xs)"
  shows "int (length (lru_put cap k e xs)) \<le> max 1 (max cap (int (length xs)))"
proof (cases "map_of xs k")
  case None
  then show ?thesis by (cases xs) (auto simp: lru_put_def)
next
  case (Some e')
  then show ?thesis
    using length_lru_without [OF assms Some] by (simp add: lru_put_def)
qed

subsection \<open>Each operation is an operation on the list\<close>

lemma lru_cong:
  "c_heap c' = c_heap c \<Longrightarrow> c_order c' = c_order c \<Longrightarrow> lru c' = lru c"
  by (simp add: lru_def)

lemma order_lookupE:
  assumes "cache_inv c" and "el \<in> set (c_order c)"
  obtains it where "mget (c_heap c) el = Some it" "mget (c_items c) (it_key it) = Some el"
  using cache_invD(5) [OF assms] by blast

lemma distinct_lru:
  assumes inv: "cache_inv c"
  shows "distinct (map fst (lru c))"
proof -
  have "x = y"
    if x: "x \<in> set (c_order c)" and y: "y \<in> set (c_order c)"
      and eq: "it_key (the (mget (c_heap c) x)) = it_key (the (mget (c_heap c) y))" for x y
  proof -
    obtain ix where ix: "mget (c_heap c) x = Some ix" "mget (c_items c) (it_key ix) = Some x"
      by (rule order_lookupE [OF inv x])
    obtain iy where iy: "mget (c_heap c) y = Some iy" "mget (c_items c) (it_key iy) = Some y"
      by (rule order_lookupE [OF inv y])
    show ?thesis using eq ix iy by simp
  qed
  then have "inj_on (\<lambda>el. it_key (the (mget (c_heap c) el))) (set (c_order c))"
    by (rule inj_onI)
  then show ?thesis
    using cache_invD(3) [OF inv] by (simp add: lru_def item_pair_def distinct_map o_def)
qed

lemma map_of_lru:
  assumes inv: "cache_inv c"
  shows "map_of (lru c) k = cache_peek c k"
proof (cases "mget (c_items c) k")
  case None
  have "it_key (the (mget (c_heap c) el)) \<noteq> k" if el: "el \<in> set (c_order c)" for el
    by (rule order_lookupE [OF inv el]) (use None in auto)
  then have "k \<notin> fst ` set (lru c)" by (fastforce simp: lru_def item_pair_def)
  then show ?thesis by (simp add: cache_peek_def None map_of_eq_None_iff [THEN iffD2])
next
  case (Some el)
  then obtain it where it: "el \<in> set (c_order c)" "mget (c_heap c) el = Some it" "it_key it = k"
    by (rule items_lookupE [OF inv])
  have "(k, it_entry it) \<in> set (lru c)"
    using it by (force simp: lru_def item_pair_def)
  with distinct_lru [OF inv] have "map_of (lru c) k = Some (it_entry it)" by (rule map_of_is_SomeI)
  then show ?thesis by (simp add: cache_peek_def Some it(2))
qed

lemma lru_drop:
  assumes inv: "cache_inv c" and el: "mget (c_items c) k = Some el"
  shows "map (\<lambda>el. item_pair (the (mget (c_heap c) el))) (remove1 el (c_order c)) =
    lru_without k (lru c)"
proof -
  have "(x \<noteq> el) = (it_key (the (mget (c_heap c) x)) \<noteq> k)" if x: "x \<in> set (c_order c)" for x
  proof (rule order_lookupE [OF inv x])
    fix it assume it: "mget (c_heap c) x = Some it" "mget (c_items c) (it_key it) = Some x"
    show ?thesis
    proof (cases "x = el")
      case True
      then show ?thesis using items_inj [OF inv el] it by simp
    next
      case False
      then show ?thesis using it el by auto
    qed
  qed
  then have "filter (\<lambda>x. x \<noteq> el) (c_order c) =
      filter (\<lambda>x. it_key (the (mget (c_heap c) x)) \<noteq> k) (c_order c)"
    by (rule filter_cong [OF refl])
  moreover have "remove1 el (c_order c) = filter (\<lambda>x. x \<noteq> el) (c_order c)"
    using cache_invD(3) [OF inv] 
    by (simp add: distinct_remove1_removeAll removeAll_filter_not_eq eq_commute)
  ultimately show ?thesis
    by (simp add: lru_def lru_without_def filter_map o_def item_pair_def)
qed

lemma lru_remove:
  assumes "cache_inv c" shows "lru (cache_remove k c) = lru_without k (lru c)"
proof (cases "mget (c_items c) k")
  case None
  then have "k \<notin> fst ` set (lru c)"
    using map_of_lru [OF assms, of k] by (simp add: cache_peek_def map_of_eq_None_iff)
  with None show ?thesis by (simp add: cache_remove_def lru_without_absent)
next
  case (Some el)
  then show ?thesis using lru_drop [OF assms Some] by (simp add: cache_remove_def lru_def)
qed

lemma lru_evict:
  assumes "cache_inv c" shows "lru (cache_evict c) = butlast (lru c)"
proof (cases "c_order c = []")
  case False
  then obtain it where "mget (c_heap c) (last (c_order c)) = Some it"
    using cache_invD(5) [OF assms last_in_set] by blast
  moreover have "remove1 (last (c_order c)) (c_order c) = butlast (c_order c)"
  proof -
    have "c_order c = butlast (c_order c) @ [last (c_order c)]" using False by simp
    moreover from this have "last (c_order c) \<notin> set (butlast (c_order c))"
      using cache_invD(3) [OF assms] by (metis distinct.simps(2) distinct_append disjoint_iff list.set_intros(1))
    ultimately show ?thesis by (metis remove1_append remove1.simps(2) append_Nil2)
  qed
  ultimately show ?thesis
    using False by (simp add: cache_evict_def lru_def map_butlast)
qed (simp add: cache_evict_def lru_def)

lemma cache_remove_frame [simp]:
  "c_heap (cache_remove k c) = c_heap c" "c_max (cache_remove k c) = c_max c"
  "c_ttl (cache_remove k c) = c_ttl c" "c_version (cache_remove k c) = c_version c"
  "c_version_aware (cache_remove k c) = c_version_aware c"
  "c_enabled (cache_remove k c) = c_enabled c"
  by (simp_all add: cache_remove_def split: option.split)

lemma cache_evict_frame [simp]:
  "c_heap (cache_evict c) = c_heap c" "c_max (cache_evict c) = c_max c"
  "c_ttl (cache_evict c) = c_ttl c" "c_version (cache_evict c) = c_version c"
  "c_version_aware (cache_evict c) = c_version_aware c"
  "c_enabled (cache_evict c) = c_enabled c" "c_next (cache_evict c) = c_next c"
  by (simp_all add: cache_evict_def Let_def split: option.split)

lemma lru_to_front:
  assumes inv: "cache_inv c" and el: "mget (c_items c) k = Some el"
    and it: "mget (c_heap c) el = Some it"
  shows "lru (c\<lparr>c_order := move_to_front el (c_order c)\<rparr>) = (k, it_entry it) # lru_without k (lru c)"
  using items_lookupE [OF inv el] it lru_drop [OF inv el]
  by (auto simp: lru_def move_to_front_def item_pair_def)

lemma cache_get_live:
  "cache_inv c \<Longrightarrow> fst (cache_get now k c) = cache_live now c k"
  by (auto simp: cache_get_def cache_live_def cache_peek_def entry_fresh_def
      split: option.splits dest!: cache_invD(4))

lemma lru_get:
  assumes inv: "cache_inv c"
  shows "lru (snd (cache_get now k c)) =
    (if \<not> c_enabled c then lru c
     else case cache_peek c k of
       None \<Rightarrow> lru c
     | Some e \<Rightarrow> if entry_fresh now c e then lru_touch k (lru c) else lru_without k (lru c))"
proof (cases "c_enabled c \<and> mget (c_items c) k \<noteq> None")
  case True
  then obtain el where en: "c_enabled c" and el: "mget (c_items c) k = Some el" by auto
  obtain it where it: "mget (c_heap c) el = Some it" by (rule items_lookupE [OF inv el])
  have peek: "cache_peek c k = Some (it_entry it)" by (simp add: cache_peek_def el it)
  have hits: "lru (c'\<lparr>c_hits := h\<rparr>) = lru c'" "lru (c'\<lparr>c_misses := h\<rparr>) = lru c'" for c' h
    by (simp_all add: lru_def)
  have touch: "lru (c\<lparr>c_order := move_to_front el (c_order c)\<rparr>) = lru_touch k (lru c)"
    using lru_to_front [OF inv el it] map_of_lru [OF inv, of k] by (simp add: lru_touch_def peek)
  show ?thesis
    by (simp add: cache_get_def en el it peek entry_fresh_def hits touch lru_remove [OF inv])
next
  case False
  then show ?thesis
    by (auto simp: cache_get_def cache_peek_def lru_def)
qed

lemma lru_update:
  assumes inv: "cache_inv c" and el: "mget (c_items c) k = Some el"
    and it: "mget (c_heap c) el = Some it"
  shows "lru (c\<lparr>c_order := move_to_front el (c_order c),
           c_heap := mput el (it\<lparr>it_entry := e\<rparr>) (c_heap c)\<rparr>) = (k, e) # lru_without k (lru c)"
proof -
  have mem: "el \<in> set (c_order c)" and key: "it_key it = k"
    using items_lookupE [OF inv el] it by auto
  have "el \<notin> set (remove1 el (c_order c))" using cache_invD(3) [OF inv] by simp
  then have "map (\<lambda>x. item_pair (the (mget (mput el (it\<lparr>it_entry := e\<rparr>) (c_heap c)) x))) (remove1 el (c_order c))
      = map (\<lambda>x. item_pair (the (mget (c_heap c) x))) (remove1 el (c_order c))"
    by (intro map_cong) auto
  with lru_drop [OF inv el] show ?thesis
    using mem key by (simp add: lru_def move_to_front_def item_pair_def)
qed

lemma lru_push:
  assumes inv: "cache_inv c"
  shows "lru (c\<lparr>c_heap := mput (c_next c) \<lparr>it_key = k, it_entry = e\<rparr> (c_heap c),
           c_next := n, c_order := c_next c # c_order c, c_items := is\<rparr>) = (k, e) # lru c"
proof -
  have "c_next c \<notin> set (c_order c)" using cache_invD(6) [OF inv] by blast
  then show ?thesis by (auto simp: lru_def item_pair_def intro!: map_cong)
qed

lemma lru_put_refines:
  assumes inv: "cache_inv c"
  shows "lru (cache_put now k e c) =
    (if c_enabled c then lru_put (c_max c) k (stamp now c e) (lru c) else lru c)"
proof (cases "mget (c_items c) k")
  case None
  have "map_of (lru c) k = None" using map_of_lru [OF inv] by (simp add: cache_peek_def None)
  moreover have "int (length (c_order c)) = int (length (lru c))" by (simp add: lru_def)
  moreover have "stamp now (cache_evict c) e = stamp now c e" by (simp add: stamp_def)
  ultimately show ?thesis
    using lru_push [OF inv] lru_push [OF cache_inv_evict [OF inv]] lru_evict [OF inv]
    by (simp add: cache_put_def None Let_def lru_put_def)
next
  case (Some el)
  obtain it where it: "mget (c_heap c) el = Some it" by (rule items_lookupE [OF inv Some])
  have "map_of (lru c) k = Some (it_entry it)"
    using map_of_lru [OF inv] by (simp add: cache_peek_def Some it)
  then show ?thesis
    using lru_update [OF inv Some it] by (simp add: cache_put_def Some it lru_put_def)
qed

lemma lru_clear: "lru (cache_clear c) = []"
  by (simp add: lru_def cache_clear_def)

lemma stale_key_peek:
  "stale_key now c k \<longleftrightarrow> (case cache_peek c k of None \<Rightarrow> False | Some e \<Rightarrow> \<not> entry_fresh now c e)"
  by (auto simp: stale_key_def cache_peek_def entry_fresh_def split: option.splits)

lemma entry_fresh_cong:
  "c_ttl c' = c_ttl c \<Longrightarrow> c_version_aware c' = c_version_aware c \<Longrightarrow> c_version c' = c_version c \<Longrightarrow>
   entry_fresh now c' e = entry_fresh now c e"
  by (simp add: entry_fresh_def entry_expired_def version_mismatch_def)

lemma cache_peek_remove:
  "cache_inv c \<Longrightarrow> cache_peek (cache_remove k c) k' = (if k' = k then None else cache_peek c k')"
  by (metis cache_inv_remove lru_remove map_of_lru map_of_lru_without)

lemma stale_key_remove:
  "cache_inv c \<Longrightarrow> k' \<noteq> k \<Longrightarrow> stale_key now (cache_remove k c) k' = stale_key now c k'"
  by (simp add: stale_key_peek cache_peek_remove entry_fresh_cong [of "cache_remove k c" c] split: option.split)

lemma lru_cleanup_keys:
  "cache_inv c \<Longrightarrow> distinct ks \<Longrightarrow>
   lru (snd (cleanup_keys now ks c)) = filter (\<lambda>p. fst p \<in> set ks \<longrightarrow> \<not> stale_key now c (fst p)) (lru c) \<and>
   fst (cleanup_keys now ks c) = int (length (filter (stale_key now c) ks))"
proof (induction ks arbitrary: c)
  case (Cons k ks)
  show ?case
  proof (cases "stale_key now c k")
    case True
    let ?c = "cache_remove k c"
    have inv: "cache_inv ?c" using Cons.prems(1) by (rule cache_inv_remove)
    have keep: "stale_key now ?c k' = stale_key now c k'" if "k' \<in> set ks" for k'
      by (rule stale_key_remove [OF Cons.prems(1)]) (use that Cons.prems(2) in auto)
    have "filter (stale_key now ?c) ks = filter (stale_key now c) ks"
      by (rule filter_cong [OF refl keep])
    moreover have "filter (\<lambda>p. fst p \<in> set ks \<longrightarrow> \<not> stale_key now ?c (fst p)) (lru_without k (lru c)) =
        filter (\<lambda>p. fst p \<in> set (k # ks) \<longrightarrow> \<not> stale_key now c (fst p)) (lru c)"
      unfolding lru_without_def filter_filter using True keep by (intro filter_cong) auto
    ultimately show ?thesis
      using Cons.IH [OF inv] Cons.prems True
      by (simp add: case_prod_beta lru_remove [OF Cons.prems(1)])
  next
    case False
    have "filter (\<lambda>p. fst p \<in> set ks \<longrightarrow> \<not> stale_key now c (fst p)) (lru c) =
        filter (\<lambda>p. fst p \<in> set (k # ks) \<longrightarrow> \<not> stale_key now c (fst p)) (lru c)"
      using False by (intro filter_cong) auto
    with False show ?thesis using Cons.IH [OF Cons.prems(1)] Cons.prems(2) by simp
  qed
qed (simp add: filter_True)

lemma mkeys_items:
  assumes "cache_inv c" shows "set (mkeys (c_items c)) = fst ` set (lru c)"
proof -
  have "k \<in> set (mkeys (c_items c)) \<longleftrightarrow> cache_peek c k \<noteq> None" for k
    using cache_invD(4) [OF assms] by (fastforce simp: gm.set_keys cache_peek_def split: option.splits)
  then show ?thesis
    by (auto simp: map_of_lru [OF assms, symmetric] map_of_eq_None_iff)
qed

lemma cache_cleanup_spec:
  assumes inv: "cache_inv c"
  shows "lru (snd (cache_cleanup now c)) = filter (\<lambda>p. entry_fresh now c (snd p)) (lru c)"
    and "fst (cache_cleanup now c) = int (length (filter (\<lambda>p. \<not> entry_fresh now c (snd p)) (lru c)))"
proof -
  note D = distinct_lru [OF inv]
  have ks: "distinct (mkeys (c_items c))" by (rule gm.distinct_keys [OF cache_invD(1) [OF inv]])
  have stale: "stale_key now c (fst p) = (\<not> entry_fresh now c (snd p))" if "p \<in> set (lru c)" for p
  proof -
    have "cache_peek c (fst p) = Some (snd p)"
      using map_of_lru [OF inv, of "fst p"] map_of_is_SomeI [OF D, of "fst p" "snd p"] that by simp
    then show ?thesis by (simp add: stale_key_peek)
  qed
  have mem: "fst p \<in> set (mkeys (c_items c))" if "p \<in> set (lru c)" for p
    using that mkeys_items [OF inv] by auto
  show "lru (snd (cache_cleanup now c)) = filter (\<lambda>p. entry_fresh now c (snd p)) (lru c)"
    using lru_cleanup_keys [OF inv ks, of now] mem stale
    by (auto simp: cache_cleanup_def intro!: filter_cong)
  have "length (filter (stale_key now c) (mkeys (c_items c))) =
      card {k \<in> set (mkeys (c_items c)). stale_key now c k}"
    using ks by (metis distinct_card distinct_filter set_filter)
  also have "{k \<in> set (mkeys (c_items c)). stale_key now c k} =
      fst ` set (filter (\<lambda>p. \<not> entry_fresh now c (snd p)) (lru c))"
    using stale by (auto simp: mkeys_items [OF inv])
  also have "card \<dots> = length (filter (\<lambda>p. \<not> entry_fresh now c (snd p)) (lru c))"
    using D by (metis distinct_card distinct_map_filter length_map set_map)
  finally show "fst (cache_cleanup now c) =
      int (length (filter (\<lambda>p. \<not> entry_fresh now c (snd p)) (lru c)))"
    using lru_cleanup_keys [OF inv ks, of now] by (simp add: cache_cleanup_def)
qed

subsection \<open>Runs of the cache\<close>

datatype cache_op =
    CGet time string | CPut time string entry | CSetVersion string | CClear | CCleanup time

fun cache_step :: "cache \<Rightarrow> cache_op \<Rightarrow> cache" where
  "cache_step c (CGet t k) = snd (cache_get t k c)"
| "cache_step c (CPut t k e) = cache_put t k e c"
| "cache_step c (CSetVersion v) = cache_set_version v c"
| "cache_step c CClear = cache_clear c"
| "cache_step c (CCleanup t) = snd (cache_cleanup t c)"

definition cache_run :: "cache \<Rightarrow> cache_op list \<Rightarrow> cache" where
  "cache_run c ops = foldl cache_step c ops"

lemma cache_step_inv: "cache_inv c \<Longrightarrow> cache_inv (cache_step c op)"
  by (cases op) (auto intro: inv_intros)

lemma cache_run_inv: "cache_inv c \<Longrightarrow> cache_inv (cache_run c ops)"
  unfolding cache_run_def by (induction ops arbitrary: c) (auto simp: cache_step_inv)

text \<open>No operation but \<open>Put\<close> adds a pair; all of them keep the configuration.\<close>

lemma set_lru_without: "set (lru_without k xs) \<subseteq> set xs"
  by (auto simp: lru_without_def)

lemma set_lru_touch: "set (lru_touch k xs) \<subseteq> set xs"
  using set_lru_without [of k xs] by (auto simp: lru_touch_def map_of_SomeD split: option.splits)

lemma set_lru_put: "set (lru_put cap k e xs) \<subseteq> insert (k, e) (set xs)"
  using set_lru_without [of k xs] by (auto simp: lru_put_def dest: in_set_butlastD)

lemma set_lru_get:
  assumes "cache_inv c" shows "set (lru (snd (cache_get t k c))) \<subseteq> set (lru c)"
  by (simp add: lru_get [OF assms] set_lru_touch set_lru_without split: option.split)

lemma set_lru_step:
  assumes "cache_inv c"
  shows "set (lru (cache_step c op)) \<subseteq> set (lru c) \<union>
    (case op of CPut t k e \<Rightarrow> {(k, stamp t c e)} | _ \<Rightarrow> {})"
proof (cases op)
  case (CPut t k e)
  have "set (lru (cache_put t k e c)) \<subseteq> insert (k, stamp t c e) (set (lru c))"
    by (auto simp: lru_put_refines [OF assms] dest: subsetD [OF set_lru_put])
  then show ?thesis by (simp add: CPut)
next
  case (CSetVersion v)
  have "lru (cache_set_version v c) = lru c" by (simp add: cache_set_version_def lru_def)
  with CSetVersion show ?thesis by simp
next
  case (CCleanup t)
  then show ?thesis by (simp add: cache_cleanup_spec(1) [OF assms])
qed (simp_all add: lru_clear set_lru_get [OF assms])

lemma length_lru_step:
  assumes inv: "cache_inv c" and le: "int (length (lru c)) \<le> max 1 (c_max c)"
  shows "int (length (lru (cache_step c op))) \<le> max 1 (c_max c)"
proof (cases op)
  case (CGet t k)
  have "length (lru_touch k (lru c)) \<le> length (lru c)"
  proof (cases "map_of (lru c) k")
    case (Some e)
    then show ?thesis
      using length_lru_without [OF distinct_lru [OF inv] Some] by (simp add: lru_touch_def)
  qed (simp add: lru_touch_def)
  moreover have "length (lru_without k (lru c)) \<le> length (lru c)" by (simp add: lru_without_def)
  ultimately have "length (lru (snd (cache_get t k c))) \<le> length (lru c)"
    unfolding lru_get [OF inv] by (auto split: option.split)
  with le CGet show ?thesis by simp
next
  case (CPut t k e)
  then show ?thesis
    using length_lru_put [OF distinct_lru [OF inv], of "c_max c" k "stamp t c e"] le
    by (auto simp: lru_put_refines [OF inv] max_def split: if_splits)
next
  case (CCleanup t)
  have "length (filter (\<lambda>p. entry_fresh t c (snd p)) (lru c)) \<le> length (lru c)" by simp
  then have "length (lru (cache_step c op)) \<le> length (lru c)"
    by (simp add: CCleanup cache_cleanup_spec(1) [OF inv])
  with le show ?thesis by linarith
qed (use le in \<open>simp_all add: cache_clear_def cache_set_version_def lru_def\<close>)

subsection \<open>The interface the orchestrator relies on\<close>

text \<open>
  \<open>live t c k\<close> is what a lookup of \<open>k\<close> at time \<open>t\<close> would return;
  \<open>same\<close> relates an entry to what was stored, up to the fields that the store stamps.
\<close>

locale result_cache =
  fixes get :: "time \<Rightarrow> string \<Rightarrow> 'c \<Rightarrow> 'e option \<times> 'c"
    and put :: "time \<Rightarrow> string \<Rightarrow> 'e \<Rightarrow> 'c \<Rightarrow> 'c"
    and live :: "time \<Rightarrow> 'c \<Rightarrow> string \<Rightarrow> 'e option"
    and enabled :: "'c \<Rightarrow> bool"
    and window :: "'c \<Rightarrow> duration"
    and same :: "'e \<Rightarrow> 'e \<Rightarrow> bool"
    and inv :: "'c \<Rightarrow> bool"
  assumes get_live: "inv c \<Longrightarrow> fst (get t k c) = live t c k"
    and get_frame: "inv c \<Longrightarrow> t \<le> t' \<Longrightarrow> live t' (snd (get t k c)) k' = live t' c k'"
    and put_live: "inv c \<Longrightarrow> enabled c \<Longrightarrow> t' - t \<le> window c \<Longrightarrow>
           \<exists>e'. live t' (put t k e c) k = Some e' \<and> same e' e"
    and put_frame: "inv c \<Longrightarrow> k' \<noteq> k \<Longrightarrow> live t' (put t k e c) k' = Some e' \<Longrightarrow>
           live t' c k' = Some e'"
    and inv_get: "inv c \<Longrightarrow> inv (snd (get t k c))"
    and inv_put: "inv c \<Longrightarrow> inv (put t k e c)"
    and window_get: "window (snd (get t k c)) = window c"
    and enabled_get: "enabled (snd (get t k c)) = enabled c"
begin

lemma get_twice:
  "inv c \<Longrightarrow> t \<le> t' \<Longrightarrow> fst (get t' k (snd (get t k' c))) = live t' c k"
  by (simp add: get_live inv_get get_frame)

lemma put_then_get:
  assumes "inv c" and "enabled c" and "t' - t \<le> window c"
  obtains e' where "fst (get t' k (put t k e c)) = Some e'" and "same e' e"
  using put_live [OF assms] by (auto simp: get_live [OF inv_put [OF assms(1)]])

lemma miss_put_hit:
  assumes "inv c" and "enabled c" and "t1 - t0 \<le> window c"
  obtains e' where "fst (get t1 k (put t0 k e (snd (get t k c)))) = Some e'" and "same e' e"
  using put_then_get [OF inv_get [OF assms(1)], where t = t0 and t' = t1] assms(2,3)
  by (metis window_get enabled_get)

lemma get_other_put:
  assumes "inv c" and "k' \<noteq> k" and "fst (get t' k' (put t k e c)) = Some e'"
  shows "fst (get t' k' c) = Some e'"
  using put_frame [OF assms(1,2)] assms(3) by (simp add: get_live inv_put assms(1))

end

locale clearable_cache = result_cache +
  fixes clear :: "'a \<Rightarrow> 'a"
  assumes clear_live: "live t (clear c) k = None"
    and inv_clear: "inv c \<Longrightarrow> inv (clear c)"
begin

lemma get_after_clear: "inv c \<Longrightarrow> fst (get t k (clear c)) = None"
  by (simp add: get_live inv_clear clear_live)

end

text \<open>Two entries that agree on everything but the stamps.\<close>

definition same_payload :: "entry \<Rightarrow> entry \<Rightarrow> bool" where
  "same_payload a b \<longleftrightarrow>
     en_results a = en_results b \<and> en_query a = en_query b \<and> en_mode a = en_mode b \<and>
     en_collection a = en_collection b \<and> en_fallback_triggered a = en_fallback_triggered b \<and>
     en_degraded a = en_degraded b \<and> en_degrade_reason a = en_degrade_reason b"

lemma same_payload_stamp: "same_payload (stamp t c e) e"
  by (simp add: same_payload_def stamp_def)

lemma cache_get_config [simp]:
  "c_ttl (snd (cache_get t k c)) = c_ttl c" "c_enabled (snd (cache_get t k c)) = c_enabled c"
  "c_version (snd (cache_get t k c)) = c_version c"
  "c_version_aware (snd (cache_get t k c)) = c_version_aware c"
  "c_max (snd (cache_get t k c)) = c_max c"
  by (simp_all add: cache_get_def split: option.split)

lemma cache_put_config [simp]:
  "c_ttl (cache_put t k e c) = c_ttl c" "c_enabled (cache_put t k e c) = c_enabled c"
  "c_version (cache_put t k e c) = c_version c"
  "c_version_aware (cache_put t k e c) = c_version_aware c"
  "c_max (cache_put t k e c) = c_max c"
  by (simp_all add: cache_put_def Let_def split: option.split)

lemma map_of_lru_touch: "map_of (lru_touch k xs) k' = map_of xs k'"
  by (auto simp: lru_touch_def map_of_lru_without split: option.split)

lemma cache_peek_get:
  assumes inv: "cache_inv c"
  shows "cache_peek (snd (cache_get t k c)) k' =
    (if k' = k \<and> c_enabled c \<and> (\<exists>e. cache_peek c k = Some e \<and> \<not> entry_fresh t c e) then None
     else cache_peek c k')"
  using map_of_lru [OF inv, of k']
  by (auto simp: map_of_lru [OF cache_inv_get [OF inv], symmetric] lru_get [OF inv]
      map_of_lru_touch map_of_lru_without split: option.split)

lemma cache_peek_put_same:
  "cache_inv c \<Longrightarrow> c_enabled c \<Longrightarrow> cache_peek (cache_put t k e c) k = Some (stamp t c e)"
  by (simp add: map_of_lru [OF cache_inv_put, symmetric] lru_put_refines lru_put_def)

lemma cache_peek_put_other:
  assumes inv: "cache_inv c" and "k' \<noteq> k" and "cache_peek (cache_put t k e c) k' = Some e'"
  shows "cache_peek c k' = Some e'"
  using assms(2,3) map_of_butlast [OF _ distinct_lru [OF inv]]
  by (auto simp: map_of_lru [OF cache_inv_put [OF inv], symmetric] map_of_lru [OF inv, symmetric]
      lru_put_refines [OF inv] lru_put_def map_of_lru_without split: if_splits)

lemma entry_fresh_mono: "entry_fresh t' c e \<Longrightarrow> t \<le> t' \<Longrightarrow> entry_fresh t c e"
  by (simp add: entry_fresh_def entry_expired_def)

lemma entry_fresh_get [simp]: "entry_fresh t' (snd (cache_get t k c)) e = entry_fresh t' c e"
  by (rule entry_fresh_cong) simp_all

lemma entry_fresh_put [simp]: "entry_fresh t' (cache_put t k x c) e = entry_fresh t' c e"
  by (rule entry_fresh_cong) simp_all

lemma entry_fresh_stamp: "t' - t \<le> c_ttl c \<Longrightarrow> entry_fresh t' c (stamp t c e)"
  by (simp add: entry_fresh_def entry_expired_def version_mismatch_def stamp_def)

interpretation rc: clearable_cache cache_get cache_put cache_live c_enabled c_ttl same_payload
  cache_inv cache_clear
proof (unfold_locales, goal_cases)
  case (1 c t k)
  then show ?case by (rule cache_get_live)
next
  case (2 c t t' k k')
  then show ?case
    by (auto simp: cache_live_def cache_peek_get dest: entry_fresh_mono split: option.splits)
next
  case (3 c t' t k e)
  then show ?case
    by (simp add: cache_live_def cache_peek_put_same entry_fresh_stamp same_payload_stamp)
next
  case (4 c k' k t' t e e')
  then show ?case
    using cache_peek_put_other by (fastforce simp: cache_live_def split: option.splits if_splits)
next
  case (9 t c k)
  then show ?case by (simp add: cache_live_def cache_clear_def cache_peek_def)
qed (simp_all add: inv_intros)

end
