(* ===== verification/Cache_Properties.thy ===== *)
theory Cache_Properties
  imports Cache_Refine
begin

text \<open>
  The properties of the result cache, over all runs of its operations from \<open>New\<close>. The
  abstract machine \<open>lru_spec_step\<close> keeps the list of cached pairs and the current index
  version, and knows nothing of elements, addresses and the map.
\<close>

definition cache_at :: "cache_config \<Rightarrow> cache_op list \<Rightarrow> cache" where
  "cache_at cfg ops = cache_run (cache_new cfg) ops"

definition cache_abs :: "cache \<Rightarrow> (string \<times> entry) list \<times> string" where
  "cache_abs c = (lru c, c_version c)"

definition spec_fresh :: "cache_config \<Rightarrow> string \<Rightarrow> time \<Rightarrow> entry \<Rightarrow> bool" where
  "spec_fresh cfg ver now e \<longleftrightarrow>
     now - en_created_at e \<le> cc_ttl cfg \<and>
     (cc_version_aware cfg \<longrightarrow> en_index_version e = ver)"

fun lru_spec_step :: "cache_config \<Rightarrow> (string \<times> entry) list \<times> string \<Rightarrow> cache_op \<Rightarrow>
    (string \<times> entry) list \<times> string" where
  "lru_spec_step cfg (xs, ver) (CGet t k) =
     ((case map_of xs k of
         None \<Rightarrow> xs
       | Some e \<Rightarrow> if spec_fresh cfg ver t e then lru_touch k xs else lru_without k xs), ver)"
| "lru_spec_step cfg (xs, ver) (CPut t k e) =
     ((if cc_enabled cfg
       then lru_put (cc_max_entries cfg) k (e\<lparr>en_index_version := ver, en_created_at := t\<rparr>) xs
       else xs), ver)"
| "lru_spec_step cfg (xs, ver) (CSetVersion v) = (xs, v)"
| "lru_spec_step cfg (xs, ver) CClear = ([], ver)"
| "lru_spec_step cfg (xs, ver) (CCleanup t) = (filter (\<lambda>p. spec_fresh cfg ver t (snd p)) xs, ver)"

definition cache_of :: "cache_config \<Rightarrow> cache \<Rightarrow> bool" where
  "cache_of cfg c \<longleftrightarrow> cache_inv c \<and> c_enabled c = cc_enabled cfg \<and> c_ttl c = cc_ttl cfg \<and>
     c_version_aware c = cc_version_aware cfg \<and> c_max c = cc_max_entries cfg \<and>
     (\<not> c_enabled c \<longrightarrow> lru c = [])"

lemma cache_of_fresh: "cache_of cfg c \<Longrightarrow> entry_fresh t c e = spec_fresh cfg (c_version c) t e"
  by (auto simp: cache_of_def entry_fresh_def entry_expired_def version_mismatch_def spec_fresh_def)

lemma cleanup_keys_config:
  "c_ttl (snd (cleanup_keys now ks c)) = c_ttl c" "c_enabled (snd (cleanup_keys now ks c)) = c_enabled c"
  "c_version (snd (cleanup_keys now ks c)) = c_version c"
  "c_version_aware (snd (cleanup_keys now ks c)) = c_version_aware c"
  "c_max (snd (cleanup_keys now ks c)) = c_max c"
  by (induction ks arbitrary: c) (simp_all add: case_prod_beta)

lemma cache_step_refines:
  assumes c: "cache_of cfg c"
  shows "cache_abs (cache_step c op) = lru_spec_step cfg (cache_abs c) op \<and> cache_of cfg (cache_step c op)"
proof -
  have inv: "cache_inv c" and inv': "cache_inv (cache_step c op)"
    using c cache_step_inv by (auto simp: cache_of_def)
  have peek: "map_of (lru c) k = cache_peek c k" for k by (rule map_of_lru [OF inv])
  have sim: "cache_abs (cache_step c op) = lru_spec_step cfg (cache_abs c) op"
  proof (cases op)
    case (CGet t k)
    have "cache_peek c k = None" if "\<not> c_enabled c"
      using that c peek [of k] by (simp add: cache_of_def)
    then show ?thesis
      using CGet by (auto simp: cache_abs_def lru_get [OF inv] peek cache_of_fresh [OF c]
          split: option.split)
  next
    case (CPut t k e)
    then show ?thesis
      using c by (simp add: cache_abs_def lru_put_refines [OF inv] stamp_def cache_of_def)
  next
    case (CCleanup t)
    then show ?thesis
      by (simp add: cache_abs_def cache_cleanup_spec(1) [OF inv] cache_of_fresh [OF c])
         (simp add: cache_cleanup_def cleanup_keys_config)
  qed (simp_all add: cache_abs_def cache_clear_def cache_set_version_def lru_def)
  moreover have "cache_of cfg (cache_step c op)"
  proof (cases op)
    case (CPut t k e)
    then show ?thesis using c inv' by (simp add: cache_of_def lru_put_refines [OF inv])
  next
    case (CGet t k)
    then show ?thesis using c inv' by (simp add: cache_of_def lru_get [OF inv])
  next
    case (CCleanup t)
    then show ?thesis
      using c inv' by (simp add: cache_of_def cache_cleanup_spec(1) [OF inv])
        (simp add: cache_cleanup_def cleanup_keys_config)
  qed (use c inv' in \<open>simp_all add: cache_of_def cache_clear_def cache_set_version_def lru_def\<close>)
  ultimately show ?thesis by blast
qed

lemma cache_of_new: "cache_of cfg (cache_new cfg)"
  by (simp add: cache_of_def cache_inv_new) (simp add: cache_new_def lru_def)

lemma cache_at_snoc: "cache_at cfg (ops @ [op]) = cache_step (cache_at cfg ops) op"
  by (simp add: cache_at_def cache_run_def)

lemma cache_at_of: "cache_of cfg (cache_at cfg ops)"
proof (induction ops rule: rev_induct)
  case Nil
  then show ?case by (simp add: cache_at_def cache_run_def cache_of_new)
next
  case (snoc op ops)
  then show ?case using cache_step_refines by (simp add: cache_at_snoc)
qed

lemma cache_at_inv: "cache_inv (cache_at cfg ops)"
  using cache_at_of by (simp add: cache_of_def)

lemma cache_abs_at: "cache_abs (cache_at cfg ops) = foldl (lru_spec_step cfg) ([], []) ops"
proof (induction ops rule: rev_induct)
  case Nil
  show ?case by (simp add: cache_at_def cache_run_def cache_abs_def cache_new_def lru_def)
next
  case (snoc op ops)
  then show ?case using cache_step_refines [OF cache_at_of] by (simp add: cache_at_snoc)
qed

text \<open>What the last \<open>Put\<close> under a key stored, and the versions a run has seen.\<close>

fun last_put :: "string \<Rightarrow> cache_op list \<Rightarrow> (time \<times> entry) option" where
  "last_put k [] = None"
| "last_put k (op # ops) =
     (case last_put k ops of
        Some p \<Rightarrow> Some p
      | None \<Rightarrow> (case op of CPut t k' e \<Rightarrow> if k' = k then Some (t, e) else None | _ \<Rightarrow> None))"

lemma last_put_snoc:
  "last_put k (ops @ [op]) =
     (case op of CPut t k' e \<Rightarrow> if k' = k then Some (t, e) else last_put k ops | _ \<Rightarrow> last_put k ops)"
  by (induction ops) (auto split: cache_op.splits option.splits)

fun run_versions :: "cache_op list \<Rightarrow> string list" where
  "run_versions [] = [[]]"
| "run_versions (CSetVersion v # ops) = v # run_versions ops"
| "run_versions (_ # ops) = run_versions ops"

lemma run_versions_snoc:
  "set (run_versions (ops @ [op])) =
     set (run_versions ops) \<union> (case op of CSetVersion v \<Rightarrow> {v} | _ \<Rightarrow> {})"
  by (induction ops rule: run_versions.induct) (auto split: cache_op.splits)

lemma cache_peek_step:
  assumes inv: "cache_inv c" and pk: "cache_peek (cache_step c op) k = Some e"
  shows "cache_peek c k = Some e \<and> (\<forall>t e'. op \<noteq> CPut t k e' \<or> \<not> c_enabled c) \<or>
    (\<exists>t e'. op = CPut t k e' \<and> e = stamp t c e')"
proof -
  have mem: "(k, e) \<in> set (lru (cache_step c op))"
    using pk map_of_lru [OF cache_step_inv [OF inv]] by (metis map_of_SomeD)
  have old: "(k, e) \<in> set (lru c) \<Longrightarrow> cache_peek c k = Some e"
    using map_of_lru [OF inv] distinct_lru [OF inv] by (metis map_of_is_SomeI)
  show ?thesis
  proof (cases "\<exists>t e'. op = CPut t k e' \<and> c_enabled c")
    case True
    then show ?thesis using pk cache_peek_put_same [OF inv] by auto
  next
    case False
    then show ?thesis
      using subsetD [OF set_lru_step [OF inv] mem] old by (cases op) auto
  qed
qed

lemma cache_at_last_put:
  "cache_peek (cache_at cfg ops) k = Some e \<Longrightarrow>
     \<exists>t e'. last_put k ops = Some (t, e') \<and> same_payload e e' \<and> en_created_at e = t \<and>
       en_index_version e \<in> set (run_versions ops)"
proof (induction ops arbitrary: e rule: rev_induct)
  case Nil
  then show ?case by (simp add: cache_at_def cache_run_def cache_new_def cache_peek_def)
next
  case (snoc op ops)
  let ?c = "cache_at cfg ops"
  have ver: "c_version ?c \<in> set (run_versions ops)"
  proof (induction ops rule: rev_induct)
    case Nil
    then show ?case by (simp add: cache_at_def cache_run_def cache_new_def)
  next
    case (snoc op ops)
    have "c_version (cache_step c op) = (case op of CSetVersion v \<Rightarrow> v | _ \<Rightarrow> c_version c)" for c
      by (cases op) (simp_all add: cache_set_version_def cache_clear_def cache_cleanup_def cleanup_keys_config)
    with snoc show ?case by (auto simp: cache_at_snoc run_versions_snoc split: cache_op.split)
  qed
  have dis: "\<not> c_enabled ?c \<Longrightarrow> cache_peek ?c k = None" for k
    using cache_at_of [of cfg ops] map_of_lru [OF cache_at_inv, of cfg ops k]
    by (simp add: cache_of_def)
  from cache_peek_step [OF cache_at_inv, of cfg ops op k e] snoc.prems
  consider "cache_peek ?c k = Some e" "\<forall>t e'. op \<noteq> CPut t k e' \<or> \<not> c_enabled ?c"
    | t e' where "op = CPut t k e'" "e = stamp t ?c e'"
    by (auto simp: cache_at_snoc)
  then show ?case
  proof cases
    case 1
    then have "op \<noteq> CPut t k e'" for t e' using dis [of k] by auto
    then show ?thesis
      using snoc.IH [OF 1(1)] by (auto simp: last_put_snoc run_versions_snoc split: cache_op.split)
  next
    case 2
    then show ?thesis using ver
      by (simp add: last_put_snoc run_versions_snoc same_payload_stamp) (simp add: stamp_def)
  qed
qed

subsection \<open>Properties\<close>

text \<open>C6: The pointer-level cache (map of keys to list elements, recency list, items) behaves,
  over every sequence of Get, Put, SetVersion, Clear and Cleanup, as the abstract LRU list: a hit
  moves its pair to the front, a stale hit drops it, a Put at capacity drops the least recently used
  pair, Cleanup keeps exactly the fresh pairs.\<close>

theorem cache_refines_lru:
  "cache_abs (cache_run (cache_new cfg) ops) = foldl (lru_spec_step cfg) ([], []) ops"
  using cache_abs_at by (simp add: cache_at_def)

text \<open>C33: After every sequence of operations the map, the recency list and the items agree (each
  key has exactly one element of the list and each element is the element of its key), and the cache
  holds at most \<open>max_entries\<close> entries (one, when \<open>max_entries\<close> is not positive).\<close>

theorem cache_consistent_and_bounded:
  "cache_inv (cache_at cfg ops) \<and>
   set (mkeys (c_items (cache_at cfg ops))) = fst ` set (lru (cache_at cfg ops)) \<and>
   fst (cache_stats (cache_at cfg ops)) \<le> max 1 (cc_max_entries cfg)"
proof -
  have "int (length (lru (cache_at cfg ops))) \<le> max 1 (cc_max_entries cfg)"
  proof (induction ops rule: rev_induct)
    case Nil
    show ?case by (simp add: cache_at_def cache_run_def cache_new_def lru_def)
  next
    case (snoc op ops)
    then show ?case
      using length_lru_step [OF cache_at_inv, of cfg ops op] cache_at_of [of cfg ops]
      by (simp add: cache_at_snoc cache_of_def)
  qed
  then show ?thesis
    by (simp add: cache_at_inv mkeys_items cache_stats_def) (simp add: lru_def)
qed

text \<open>C34: What Get serves under a key is the payload of the last Put under that key in the run,
  no older than the TTL, and, when the cache is version aware, stored under the current index
  version.\<close>

theorem cache_serves_last_put:
  assumes "fst (cache_get now k (cache_at cfg ops)) = Some e"
  shows "\<exists>t e'. last_put k ops = Some (t, e') \<and> same_payload e e' \<and> now - t \<le> cc_ttl cfg \<and>
    (cc_version_aware cfg \<longrightarrow> en_index_version e = c_version (cache_at cfg ops))"
proof -
  have live: "cache_live now (cache_at cfg ops) k = Some e"
    using assms rc.get_live [OF cache_at_inv] by simp
  then have pk: "cache_peek (cache_at cfg ops) k = Some e"
    and fresh: "spec_fresh cfg (c_version (cache_at cfg ops)) now e"
    by (auto simp: cache_live_def cache_of_fresh [OF cache_at_of] split: if_splits option.splits)
  from cache_at_last_put [OF pk] fresh show ?thesis by (auto simp: spec_fresh_def)
qed

definition demo_entry :: entry where
  "demo_entry = \<lparr>en_results = [], en_index_version = [], en_created_at = 0, en_query = ''q'',
     en_mode = ''search'', en_collection = ''alpha'', en_fallback_triggered = False,
     en_degraded = False, en_degrade_reason = []\<rparr>"

definition demo_cache_config :: cache_config where
  "demo_cache_config = \<lparr>cc_enabled = True, cc_ttl = 100, cc_max_entries = 2,
     cc_cleanup_interval = 0, cc_version_aware = True\<rparr>"

definition demo_ops :: "cache_op list" where
  "demo_ops = [CPut 1 ''a'' demo_entry, CPut 2 ''b'' demo_entry, CGet 3 ''a'', CPut 4 ''c'' demo_entry]"

lemma demo_get_a: "fst (cache_get 5 ''a'' (cache_at demo_cache_config demo_ops)) =
    Some (demo_entry\<lparr>en_created_at := 1\<rparr>)"
  by code_simp

theorem cache_serves_last_put_witness:
  "\<exists>t e'. last_put ''a'' demo_ops = Some (t, e') \<and>
    same_payload (demo_entry\<lparr>en_created_at := 1\<rparr>) e' \<and> 5 - t \<le> cc_ttl demo_cache_config"
  using cache_serves_last_put [OF demo_get_a] by blast

text \<open>After an index refresh has set a version that the run has not used before, a version
  aware cache serves nothing it held: every Get misses until the next Put.\<close>

theorem new_version_invalidates:
  assumes "cc_version_aware cfg" and "v \<notin> set (run_versions ops)"
  shows "fst (cache_get now k (cache_at cfg (ops @ [CSetVersion v]))) = None"
proof (rule ccontr)
  assume "fst (cache_get now k (cache_at cfg (ops @ [CSetVersion v]))) \<noteq> None"
  then obtain e where e: "fst (cache_get now k (cache_at cfg (ops @ [CSetVersion v]))) = Some e"
    by auto
  have ver: "c_version (cache_at cfg (ops @ [CSetVersion v])) = v"
    by (simp add: cache_at_snoc cache_set_version_def)
  have "cache_peek (cache_at cfg (ops @ [CSetVersion v])) k = Some e"
    and "en_index_version e = v"
    using e rc.get_live [OF cache_at_inv, of now k cfg "ops @ [CSetVersion v]"] assms(1) ver
    by (auto simp: cache_live_def cache_of_fresh [OF cache_at_of] spec_fresh_def
        split: if_splits option.splits)
  then have "cache_peek (cache_at cfg ops) k = Some e"
    by (simp add: cache_at_snoc cache_set_version_def cache_peek_def split: option.splits)
  then show False
    using cache_at_last_put assms(2) \<open>en_index_version e = v\<close> by blast
qed

theorem new_version_invalidates_witness:
  "fst (cache_get 5 ''a'' (cache_at demo_cache_config (demo_ops @ [CSetVersion ''v2'']))) = None"
  by (rule new_version_invalidates) (simp_all add: demo_cache_config_def demo_ops_def)

end
