(* ===== verification/Search_Util.thy ===== *)
theory Search_Util
  imports Model_Types "HOL-Library.Multiset"
begin

text \<open>
  Deduplication, ordering and diversity of search results
  (\<open>internal/searchutil/searchutil.go\<close>). \<open>sort.Slice\<close> promises a permutation in
  which no element is less than an earlier one, and not more: it is not stable. The routine takes
  the sort as an argument, the locale \<open>score_sort\<close> states that promise, and every
  lemma about the routine is proved from it. The model runs the insertion sort that
  \<open>sort.Slice\<close> uses for up to twelve elements; the locale is interpreted on it.
\<close>

definition dedup_key :: "search_result \<Rightarrow> string" where
  "dedup_key r =
     (let key = trim_space (sr_docid r);
          key = (if key = [] then trim_space (sr_file r) else key)
      in if key = [] then sr_title r @ ''|'' @ sr_snippet r @ ''|'' @ format_fixed 4 (sr_score r)
         else key)"

fun dedup_from :: "string list \<Rightarrow> search_result list \<Rightarrow> search_result list" where
  "dedup_from seen [] = []"
| "dedup_from seen (r # rs) =
     (if dedup_key r \<in> set seen then dedup_from seen rs
      else r # dedup_from (dedup_key r # seen) rs)"

definition score_less :: "search_result \<Rightarrow> search_result \<Rightarrow> bool" where
  "score_less a b \<longleftrightarrow> f64_lt (sr_score b) (sr_score a)"

definition max_per_file :: nat where
  "max_per_file = 2"

definition file_count :: "(string, nat) gomap \<Rightarrow> string \<Rightarrow> nat" where
  "file_count counts f = (case mget counts f of None \<Rightarrow> 0 | Some n \<Rightarrow> n)"

definition file_full :: "(string, nat) gomap \<Rightarrow> string \<Rightarrow> bool" where
  "file_full counts file \<longleftrightarrow> file \<noteq> [] \<and> max_per_file \<le> file_count counts file"

definition bump_file :: "(string, nat) gomap \<Rightarrow> string \<Rightarrow> (string, nat) gomap" where
  "bump_file counts file =
     (if file \<noteq> [] then mput file (Suc (file_count counts file)) counts else counts)"

text \<open>\<open>n\<close> is the room that is left: the loop breaks when it is used up.\<close>

fun diverse_from :: "int \<Rightarrow> (string, nat) gomap \<Rightarrow> search_result list \<Rightarrow> search_result list" where
  "diverse_from n counts [] = []"
| "diverse_from n counts (r # rs) =
     (if file_full counts (trim_space (sr_file r)) then diverse_from n counts rs
      else r # (if n \<le> 1 then []
                else diverse_from (n - 1) (bump_file counts (trim_space (sr_file r))) rs))"

definition dedup_sort_limit_with ::
    "(search_result list \<Rightarrow> search_result list) \<Rightarrow> search_result list \<Rightarrow> int \<Rightarrow> search_result list" where
  "dedup_sort_limit_with srt results top_k =
     (let deduped = srt (dedup_from [] results)
      in if 0 < top_k then diverse_from top_k [] deduped else deduped)"

text \<open>Go's \<open>insertionSort\<close>: each element moves left past the elements it is less than.\<close>

fun insert_left :: "('a \<Rightarrow> 'a \<Rightarrow> bool) \<Rightarrow> 'a \<Rightarrow> 'a list \<Rightarrow> 'a list" where
  "insert_left lt x [] = [x]"
| "insert_left lt x (y # ys) = (if lt x y then y # insert_left lt x ys else x # y # ys)"

definition sort_slice :: "('a \<Rightarrow> 'a \<Rightarrow> bool) \<Rightarrow> 'a list \<Rightarrow> 'a list" where
  "sort_slice lt xs = rev (foldl (\<lambda>acc x. insert_left lt x acc) [] xs)"

definition dedup_sort_limit :: "search_result list \<Rightarrow> int \<Rightarrow> search_result list" where
  "dedup_sort_limit = dedup_sort_limit_with (sort_slice score_less)"

subsection \<open>Deduplication\<close>

lemma set_dedup_from: "set (dedup_from seen rs) \<subseteq> set rs"
  by (induction rs arbitrary: seen) auto

lemma dedup_from_keys:
  "dedup_key ` set (dedup_from seen rs) = dedup_key ` set rs - set seen"
  by (induction rs arbitrary: seen) auto

lemma dedup_from_unseen: "r \<in> set (dedup_from seen rs) \<Longrightarrow> dedup_key r \<notin> set seen"
  by (induction rs arbitrary: seen) (fastforce split: if_splits)+

lemma distinct_dedup_from: "distinct (map dedup_key (dedup_from seen rs))"
proof (induction rs arbitrary: seen)
  case (Cons r rs)
  have "dedup_key r \<notin> dedup_key ` set (dedup_from (dedup_key r # seen) rs)"
    by (simp add: dedup_from_keys)
  with Cons show ?case by (auto simp: image_iff)
qed simp

definition first_of_key :: "search_result \<Rightarrow> search_result list \<Rightarrow> bool" where
  "first_of_key r rs \<longleftrightarrow> (\<exists>xs ys. rs = xs @ r # ys \<and> dedup_key r \<notin> dedup_key ` set xs)"

lemma first_of_key_Cons:
  "first_of_key r rs \<Longrightarrow> dedup_key r \<noteq> dedup_key q \<Longrightarrow> first_of_key r (q # rs)"
proof -
  assume "first_of_key r rs" and neq: "dedup_key r \<noteq> dedup_key q"
  then obtain xs ys where "rs = xs @ r # ys" "dedup_key r \<notin> dedup_key ` set xs"
    by (auto simp: first_of_key_def)
  then have "q # rs = (q # xs) @ r # ys" "dedup_key r \<notin> dedup_key ` set (q # xs)"
    using neq by auto
  then show "first_of_key r (q # rs)" unfolding first_of_key_def by blast
qed

lemma first_of_key_hd: "first_of_key r (r # rs)"
proof -
  have "r # rs = [] @ r # rs" "dedup_key r \<notin> dedup_key ` set []" by simp_all
  then show ?thesis unfolding first_of_key_def by blast
qed

lemma dedup_from_first:
  "r \<in> set (dedup_from seen rs) \<Longrightarrow> first_of_key r rs"
proof (induction rs arbitrary: seen)
  case (Cons q rs)
  show ?case
  proof (cases "dedup_key q \<in> set seen")
    case True
    then have mem: "r \<in> set (dedup_from seen rs)" using Cons.prems by simp
    then have "dedup_key r \<noteq> dedup_key q" using True dedup_from_unseen [OF mem] by auto
    with Cons.IH [OF mem] show ?thesis by (rule first_of_key_Cons)
  next
    case False
    show ?thesis
    proof (cases "r = q")
      case True
      then show ?thesis by (simp add: first_of_key_hd)
    next
      case neq: False
      then have mem: "r \<in> set (dedup_from (dedup_key q # seen) rs)"
        using Cons.prems False by simp
      then have "dedup_key r \<noteq> dedup_key q"
using dedup_from_unseen [OF mem] by simp
      with Cons.IH [OF mem] show ?thesis by (rule first_of_key_Cons)
    qed
  qed
qed simp

subsection \<open>Diversity and limit\<close>

lemma diverse_from_subseq: "subseq (diverse_from n counts rs) rs"
  by (induction n counts rs rule: diverse_from.induct) auto

lemma length_diverse_from: "1 \<le> n \<Longrightarrow> int (length (diverse_from n counts rs)) \<le> n"
proof (induction n counts rs rule: diverse_from.induct)
  case (2 n counts r rs)
  then show ?case
    by (cases "file_full counts (trim_space (sr_file r))"; cases "n \<le> 1") force+
qed simp

definition hits_of :: "string \<Rightarrow> search_result list \<Rightarrow> search_result list" where
  "hits_of f rs = filter (\<lambda>r. trim_space (sr_file r) = f) rs"

lemma hits_of_simps [simp]:
  "hits_of f [] = []"
  "hits_of f (r # rs) = (if trim_space (sr_file r) = f then r # hits_of f rs else hits_of f rs)"
  by (simp_all add: hits_of_def)

lemma file_count_Nil [simp]: "file_count [] f = 0"
  by (simp add: file_count_def)

lemma file_count_bump:
  "f \<noteq> [] \<Longrightarrow> file_count (bump_file counts g) f =
     (if g = f then Suc (file_count counts f) else file_count counts f)"
  by (simp add: file_count_def bump_file_def)

definition counts_ok :: "(string, nat) gomap \<Rightarrow> bool" where
  "counts_ok counts \<longleftrightarrow> (\<forall>f. f \<noteq> [] \<longrightarrow> file_count counts f \<le> max_per_file)"

lemma counts_ok_Nil [simp]: "counts_ok []"
  by (simp add: counts_ok_def)

lemma counts_ok_bump: "counts_ok counts \<Longrightarrow> \<not> file_full counts g \<Longrightarrow> counts_ok (bump_file counts g)"
  by (auto simp: counts_ok_def file_count_bump file_full_def)

lemma hits_of_diverse:
  assumes "f \<noteq> []" and "counts_ok counts"
  shows "file_count counts f + length (hits_of f (diverse_from n counts rs)) \<le> max_per_file"
  using assms
proof (induction n counts rs rule: diverse_from.induct)
  case (1 n counts)
  then show ?case by (simp add: counts_ok_def)
next
  case (2 n counts r rs)
  let ?g = "trim_space (sr_file r)"
  show ?case
  proof (cases "file_full counts ?g")
    case True
    then show ?thesis using 2 by simp
  next
    case False
    note ok = counts_ok_bump [OF "2.prems"(2) False]
    have "file_count (bump_file counts ?g) f \<le> max_per_file"
      using ok \<open>f \<noteq> []\<close> by (simp add: counts_ok_def)
    moreover have "\<not> n \<le> 1 \<Longrightarrow> file_count (bump_file counts ?g) f +
        length (hits_of f (diverse_from (n - 1) (bump_file counts ?g) rs)) \<le> max_per_file"
      using "2.IH"(2) [OF False _ \<open>f \<noteq> []\<close> ok] .
    ultimately show ?thesis
      using False by (auto simp: file_count_bump [OF \<open>f \<noteq> []\<close>] split: if_splits)
  qed
qed

lemma diverse_from_prefix: "prefix (diverse_from n counts xs) (diverse_from n counts (xs @ ys))"
  by (induction n counts xs rule: diverse_from.induct) auto

text \<open>Why a result was left out: the room was used up, or its file has its two hits.\<close>

definition left_out :: "int \<Rightarrow> (string, nat) gomap \<Rightarrow> string \<Rightarrow> search_result list \<Rightarrow> bool" where
  "left_out n counts f out \<longleftrightarrow>
     max 1 n \<le> int (length out) \<or>
     (f \<noteq> [] \<and> max_per_file \<le> file_count counts f + length (hits_of f out))"

lemma left_out_Cons:
  assumes "left_out (n - 1) (bump_file counts (trim_space (sr_file q))) f out" and "\<not> n \<le> 1"
  shows "left_out n counts f (q # out)"
  using assms by (auto simp: left_out_def file_count_bump split: if_splits)

lemma diverse_from_complete:
  "rs = xs @ r # ys \<Longrightarrow> r \<notin> set (diverse_from n counts rs) \<Longrightarrow>
   left_out n counts (trim_space (sr_file r)) (diverse_from n counts xs)"
proof (induction n counts rs arbitrary: xs rule: diverse_from.induct)
  case (2 n counts q rs)
  show ?case
  proof (cases xs)
    case Nil
    then show ?thesis using 2(3,4) by (auto simp: left_out_def file_full_def split: if_splits)
  next
    case (Cons x xs')
    then have q: "x = q" and rs: "rs = xs' @ r # ys" using "2.prems"(1) by auto
    show ?thesis
    proof (cases "file_full counts (trim_space (sr_file q))")
      case True
      then show ?thesis
        using "2.IH"(1) [OF True rs] "2.prems"(2) by (simp add: Cons q)
    next
      case False
      show ?thesis
      proof (cases "n \<le> 1")
        case True
        then show ?thesis using False by (simp add: Cons q left_out_def)
      next
        case n: False
        then have "r \<notin> set (diverse_from (n - 1) (bump_file counts (trim_space (sr_file q))) rs)"
          using "2.prems"(2) False by simp
        from left_out_Cons [OF "2.IH"(2) [OF False n rs this] n] show ?thesis
          using False n by (simp add: Cons q)
      qed
    qed
  qed
qed simp

subsection \<open>The sort\<close>

locale score_sort =
  fixes srt :: "search_result list \<Rightarrow> search_result list"
  assumes mset_srt: "mset (srt xs) = mset xs"
    and sorted_srt: "\<forall>r \<in> set xs. sr_score r \<noteq> NaN \<Longrightarrow>
           sorted_wrt (\<lambda>a b. f64_le (sr_score b) (sr_score a)) (srt xs)"
begin

abbreviation dsl :: "search_result list \<Rightarrow> int \<Rightarrow> search_result list" where
  "dsl \<equiv> dedup_sort_limit_with srt"

lemma set_srt [simp]: "set (srt xs) = set xs"
  by (metis mset_srt set_mset_mset)

lemma distinct_srt: "distinct (map dedup_key (srt xs)) = distinct (map dedup_key xs)"
  by (metis mset_eq_imp_distinct_iff mset_map mset_srt)

lemma dsl_subseq: "subseq (dsl rs k) (srt (dedup_from [] rs))"
  by (simp add: dedup_sort_limit_with_def Let_def diverse_from_subseq)

lemma set_subseqD: "subseq xs ys \<Longrightarrow> set xs \<subseteq> set ys"
  by (auto simp: subseq_conv_nths dest: in_set_nthsD)

lemma distinct_subseqD: "subseq xs ys \<Longrightarrow> distinct ys \<Longrightarrow> distinct xs"
  by (auto simp: subseq_conv_nths)

lemma dsl_subset: "set (dsl rs k) \<subseteq> set rs"
  using set_subseqD [OF dsl_subseq] set_dedup_from by fastforce

lemma dsl_distinct: "distinct (map dedup_key (dsl rs k))"
  by (rule distinct_subseqD [OF subseq_map [OF dsl_subseq]])
     (simp add: distinct_srt distinct_dedup_from)

lemma dsl_first:
  "r \<in> set (dsl rs k) \<Longrightarrow> first_of_key r rs"
  using set_subseqD [OF dsl_subseq, of rs k] by (auto intro: dedup_from_first)

lemma sorted_wrt_subseq: "subseq xs ys \<Longrightarrow> sorted_wrt P ys \<Longrightarrow> sorted_wrt P xs"
  by (induction rule: list_emb.induct) (auto dest: set_subseqD)

lemma dsl_sorted:
  assumes "\<forall>r \<in> set rs. sr_score r \<noteq> NaN"
  shows "sorted_wrt (\<lambda>a b. f64_le (sr_score b) (sr_score a)) (dsl rs k)"
  by (rule sorted_wrt_subseq [OF dsl_subseq], rule sorted_srt)
     (use assms set_dedup_from in blast)

lemma dsl_length: "0 < k \<Longrightarrow> int (length (dsl rs k)) \<le> k"
  by (simp add: dedup_sort_limit_with_def Let_def length_diverse_from)

lemma dsl_per_file: "0 < k \<Longrightarrow> f \<noteq> [] \<Longrightarrow> length (hits_of f (dsl rs k)) \<le> max_per_file"
  using hits_of_diverse [of f "[]" k "srt (dedup_from [] rs)"]
  by (simp add: dedup_sort_limit_with_def Let_def)

lemma dsl_unlimited: "k \<le> 0 \<Longrightarrow> dedup_key ` set (dsl rs k) = dedup_key ` set rs"
  by (simp add: dedup_sort_limit_with_def Let_def dedup_from_keys)

end

lemma set_insert_left [simp]: "set (insert_left lt x ys) = insert x (set ys)"
  by (induction ys) auto

lemma mset_insert_left: "mset (insert_left lt x ys) = add_mset x (mset ys)"
  by (induction ys) auto

lemma mset_foldl_insert_left:
  "mset (foldl (\<lambda>acc x. insert_left lt x acc) acc xs) = mset acc + mset xs"
  by (induction xs arbitrary: acc) (auto simp: mset_insert_left)

lemma mset_sort_slice: "mset (sort_slice lt xs) = mset xs"
  by (simp add: sort_slice_def mset_foldl_insert_left)

abbreviation score_asc :: "search_result \<Rightarrow> search_result \<Rightarrow> bool" where
  "score_asc a b \<equiv> f64_le (sr_score a) (sr_score b)"

lemma sorted_insert_left:
  assumes "\<forall>r \<in> insert x (set ys). sr_score r \<noteq> NaN" and "sorted_wrt score_asc ys"
  shows "sorted_wrt score_asc (insert_left score_less x ys)"
  using assms
proof (induction ys)
  case (Cons y ys)
  show ?case
  proof (cases "score_less x y")
    case True
    then have "f64_le (sr_score y) (sr_score x)"
      using Cons.prems(1) f64_not_lt f64_lt_irrefl f64_lt_trans unfolding score_less_def
      by (metis insertI1 insertI2 list.simps(15))
    with True Cons show ?thesis by auto
  next
    case False
    then have "f64_le (sr_score x) (sr_score y)"
      using Cons.prems(1) by (simp add: score_less_def f64_not_lt)
    with False Cons.prems(2) show ?thesis by (auto intro: f64_le_trans)
  qed
qed simp

lemma sorted_foldl_insert_left:
  assumes "\<forall>r \<in> set acc \<union> set xs. sr_score r \<noteq> NaN" and "sorted_wrt score_asc acc"
  shows "sorted_wrt score_asc (foldl (\<lambda>acc x. insert_left score_less x acc) acc xs)"
  using assms
proof (induction xs arbitrary: acc)
  case (Cons x xs)
  have "sorted_wrt score_asc (insert_left score_less x acc)"
    by (rule sorted_insert_left) (use Cons.prems in auto)
  then show ?case using Cons by simp
qed simp

interpretation gosort: score_sort "sort_slice score_less"
proof (unfold_locales, goal_cases)
  case (1 xs)
  show ?case by (rule mset_sort_slice)
next
  case (2 xs)
  then have "sorted_wrt score_asc (foldl (\<lambda>acc x. insert_left score_less x acc) [] xs)"
    by (intro sorted_foldl_insert_left) auto
  then show ?case by (simp add: sort_slice_def sorted_wrt_rev)
qed

subsection \<open>Properties\<close>

lemma dedup_sort_limit_unfold: "0 < k \<Longrightarrow>
    dedup_sort_limit rs k = diverse_from k [] (sort_slice score_less (dedup_from [] rs))"
  by (simp add: dedup_sort_limit_def dedup_sort_limit_with_def Let_def)

text \<open>C35: DedupSortLimit returns results of its input with pairwise different identity keys, each
  the first of its key, at most \<open>top_k\<close> of them and at most two of one file, whatever order ties are
  sorted in (it is stated of every sort that keeps the multiset).\<close>

theorem dedup_sort_limit_sound:
  assumes "score_sort srt" and "0 < k" and "f \<noteq> []"
  shows "set (dedup_sort_limit_with srt rs k) \<subseteq> set rs \<and>
    distinct (map dedup_key (dedup_sort_limit_with srt rs k)) \<and>
    (\<forall>r \<in> set (dedup_sort_limit_with srt rs k). first_of_key r rs) \<and>
    int (length (dedup_sort_limit_with srt rs k)) \<le> k \<and>
    length (hits_of f (dedup_sort_limit_with srt rs k)) \<le> max_per_file"
  using score_sort.dsl_subset [OF assms(1)] score_sort.dsl_distinct [OF assms(1)]
    score_sort.dsl_first [OF assms(1)] score_sort.dsl_length [OF assms(1,2)]
    score_sort.dsl_per_file [OF assms(1-3)] by blast

definition hit :: "string \<Rightarrow> string \<Rightarrow> rat \<Rightarrow> search_result" where
  "hit d f s = \<lparr>sr_title = [], sr_file = f, sr_collection = [], sr_score = Fin s,
     sr_snippet = [], sr_docid = d\<rparr>"

definition demo_hits :: "search_result list" where
  "demo_hits = [hit ''a1'' ''a.md'' (95/100), hit ''a2'' ''a.md'' (90/100),
     hit ''a3'' ''a.md'' (85/100), hit ''b1'' ''b.md'' (80/100), hit ''a1'' ''a.md'' (99/100)]"

theorem dedup_sort_limit_sound_witness:
  "distinct (map dedup_key (dedup_sort_limit_with (sort_slice score_less) demo_hits 4)) \<and>
    int (length (dedup_sort_limit_with (sort_slice score_less) demo_hits 4)) \<le> 4 \<and>
    length (hits_of ''a.md'' (dedup_sort_limit_with (sort_slice score_less) demo_hits 4)) \<le> max_per_file"
  using dedup_sort_limit_sound [OF gosort.score_sort_axioms, of 4 "''a.md''" demo_hits] by simp


lemma demo_left_out: "hit ''a3'' ''a.md'' (85/100) \<in> set (dedup_from [] demo_hits)"
  "hit ''a3'' ''a.md'' (85/100) \<notin> set (dedup_sort_limit demo_hits 4)"
  "\<forall>r \<in> set demo_hits. sr_score r \<noteq> NaN"
  by code_simp+


end
