(* ===== verification/Cpu_Monitor.thy ===== *)
theory Cpu_Monitor
  imports Model_Types "HOL-Library.Word"
begin

text \<open>
  The CPU overload guard (\<open>internal/resourceguard/cpu_monitor.go\<close>). A tick of the loop
  reads the idle and total jiffies (64-bit counters, whose differences wrap), computes the usage and
  runs two counters with hysteresis over it: one for overload, one for critical overload. The
  two switch statements of the loop are the same automaton, \<open>hyst_step\<close>, at different
  thresholds; its specification \<open>hyst_spec\<close> reads the flag off the history of samples.
\<close>

type_synonym u64 = "64 word"

record cpu_config =
  cm_enabled :: bool
  cm_sample_interval :: duration
  cm_overload_percent :: int
  cm_overload_sustain :: duration
  cm_recover_percent :: int
  cm_recover_sustain :: duration
  cm_critical_percent :: int
  cm_critical_sustain :: duration

record cpu_monitor =
  mon_cfg :: cpu_config
  mon_overloaded :: bool
  mon_critical :: bool
  mon_usage_pct :: rat
  mon_updated_at :: time

record cpu_snapshot =
  snap_overloaded :: bool
  snap_critical_overloaded :: bool
  snap_usage_pct :: rat
  snap_updated_at :: time

definition or_default :: "int \<Rightarrow> int \<Rightarrow> int" where
  [go_defs]: "or_default d x = (if x \<le> 0 then d else x)"

definition new_cpu_monitor :: "cpu_config \<Rightarrow> cpu_monitor" where
  "new_cpu_monitor cfg =
     (let cfg = cfg\<lparr>cm_sample_interval := or_default second (cm_sample_interval cfg)\<rparr>;
          cfg = cfg\<lparr>cm_overload_percent := or_default 90 (cm_overload_percent cfg)\<rparr>;
          cfg = cfg\<lparr>cm_overload_sustain := or_default (10 * second) (cm_overload_sustain cfg)\<rparr>;
          cfg = cfg\<lparr>cm_recover_percent := or_default 75 (cm_recover_percent cfg)\<rparr>;
          cfg = cfg\<lparr>cm_recover_sustain := or_default (12 * second) (cm_recover_sustain cfg)\<rparr>;
          cfg = cfg\<lparr>cm_critical_percent := or_default 95 (cm_critical_percent cfg)\<rparr>;
          cfg = cfg\<lparr>cm_critical_sustain := or_default (5 * second) (cm_critical_sustain cfg)\<rparr>;
          cfg = (if cm_critical_percent cfg < cm_overload_percent cfg
                 then cfg\<lparr>cm_critical_percent := cm_overload_percent cfg\<rparr> else cfg)
      in \<lparr>mon_cfg = cfg, mon_overloaded = False, mon_critical = False,
          mon_usage_pct = 0, mon_updated_at = 0\<rparr>)"

definition monitor_snapshot :: "cpu_monitor \<Rightarrow> cpu_snapshot" where
  "monitor_snapshot m =
     \<lparr>snap_overloaded = mon_overloaded m, snap_critical_overloaded = mon_critical m,
      snap_usage_pct = mon_usage_pct m, snap_updated_at = mon_updated_at m\<rparr>"

definition required_samples :: "duration \<Rightarrow> duration \<Rightarrow> int" where
  "required_samples d interval =
     (if d \<le> 0 \<or> interval \<le> 0 then 1
      else let n = d div interval;
               n = (if d mod interval \<noteq> 0 then n + 1 else n)
           in if n < 1 then 1 else n)"

subsection \<open>Reading the counters\<close>

fun parse_u64s :: "string list \<Rightarrow> u64 list option" where
  "parse_u64s [] = Some []"
| "parse_u64s (s # ss) =
     (case parse_uint (2 ^ 64) s of
        None \<Rightarrow> None
      | Some n \<Rightarrow> map_option (\<lambda>vs. word_of_nat n # vs) (parse_u64s ss))"

definition parse_cpu_line :: "string \<Rightarrow> (u64 \<times> u64) result" where
  "parse_cpu_line line =
     (let fields = str_fields line
      in if length fields < 5 then Inl (plain_err (''unexpected cpu line: '' @ quote line))
         else case parse_u64s (tl fields) of
           None \<Rightarrow> Inl (plain_err ''strconv.ParseUint: invalid value'')
         | Some vals \<Rightarrow>
             Inr (if 4 < length vals then vals ! 3 + vals ! 4 else vals ! 3, sum_list vals))"

fun find_cpu_line :: "string list \<Rightarrow> (u64 \<times> u64) result" where
  "find_cpu_line [] = Inl (plain_err ''cpu line not found in /proc/stat'')"
| "find_cpu_line (line # rest) =
     (if has_prefix line ''cpu '' then parse_cpu_line line else find_cpu_line rest)"

text \<open>The argument is the outcome of opening and reading \<open>/proc/stat\<close>.\<close>

definition read_system_cpu_jiffies :: "string result \<Rightarrow> (u64 \<times> u64) result" where
  "read_system_cpu_jiffies stat =
     (case stat of Inl e \<Rightarrow> Inl e | Inr text \<Rightarrow> find_cpu_line (split_on (CHR 0x0A) text))"

subsection \<open>The sampling loop\<close>

record cpu_loop =
  lp_prev_idle :: u64
  lp_prev_total :: u64
  lp_above :: int
  lp_below :: int
  lp_critical_above :: int
  lp_critical_below :: int

definition cpu_usage :: "u64 \<Rightarrow> u64 \<Rightarrow> rat" where
  "cpu_usage d_idle d_total = of_nat (unat (d_total - d_idle)) / of_nat (unat d_total) * 100"

definition set_usage :: "time \<Rightarrow> rat \<Rightarrow> cpu_monitor \<Rightarrow> cpu_monitor" where
  "set_usage now u m = m\<lparr>mon_usage_pct := u, mon_updated_at := now\<rparr>"

definition set_overloaded :: "time \<Rightarrow> bool \<Rightarrow> rat \<Rightarrow> cpu_monitor \<Rightarrow> cpu_monitor" where
  "set_overloaded now on u m = m\<lparr>mon_overloaded := on, mon_usage_pct := u, mon_updated_at := now\<rparr>"

definition set_critical :: "time \<Rightarrow> bool \<Rightarrow> rat \<Rightarrow> cpu_monitor \<Rightarrow> cpu_monitor" where
  "set_critical now on u m = m\<lparr>mon_critical := on, mon_usage_pct := u, mon_updated_at := now\<rparr>"

definition overload_switch :: "time \<Rightarrow> rat \<Rightarrow> cpu_loop \<times> cpu_monitor \<Rightarrow> cpu_loop \<times> cpu_monitor" where
  "overload_switch now u st =
     (let (l, m) = st; cfg = mon_cfg m;
          need_above = required_samples (cm_overload_sustain cfg) (cm_sample_interval cfg);
          need_below = required_samples (cm_recover_sustain cfg) (cm_sample_interval cfg)
      in if of_int (cm_overload_percent cfg) \<le> u then
           let l = l\<lparr>lp_above := lp_above l + 1, lp_below := 0\<rparr>
           in (l, if need_above \<le> lp_above l then set_overloaded now True u m else m)
         else if u \<le> of_int (cm_recover_percent cfg) then
           let l = l\<lparr>lp_below := lp_below l + 1, lp_above := 0\<rparr>
           in (l, if need_below \<le> lp_below l then set_overloaded now False u m else m)
         else (l\<lparr>lp_above := 0, lp_below := 0\<rparr>, m))"

definition critical_switch :: "time \<Rightarrow> rat \<Rightarrow> cpu_loop \<times> cpu_monitor \<Rightarrow> cpu_loop \<times> cpu_monitor" where
  "critical_switch now u st =
     (let (l, m) = st; cfg = mon_cfg m;
          need_critical = required_samples (cm_critical_sustain cfg) (cm_sample_interval cfg);
          need_below = required_samples (cm_recover_sustain cfg) (cm_sample_interval cfg)
      in if of_int (cm_critical_percent cfg) \<le> u then
           let l = l\<lparr>lp_critical_above := lp_critical_above l + 1, lp_critical_below := 0\<rparr>
           in (l, if need_critical \<le> lp_critical_above l then set_critical now True u m else m)
         else if u \<le> of_int (cm_overload_percent cfg) then
           let l = l\<lparr>lp_critical_below := lp_critical_below l + 1, lp_critical_above := 0\<rparr>
           in (l, if need_below \<le> lp_critical_below l then set_critical now False u m else m)
         else (l\<lparr>lp_critical_above := 0, lp_critical_below := 0\<rparr>, m))"

definition cpu_tick :: "time \<Rightarrow> (u64 \<times> u64) result \<Rightarrow> cpu_loop \<times> cpu_monitor \<Rightarrow>
    cpu_loop \<times> cpu_monitor" where
  "cpu_tick now sample st =
     (case sample of
        Inl _ \<Rightarrow> st
      | Inr (idle_now, total_now) \<Rightarrow>
          let (l, m) = st;
              d_idle = idle_now - lp_prev_idle l;
              d_total = total_now - lp_prev_total l;
              l = l\<lparr>lp_prev_idle := idle_now, lp_prev_total := total_now\<rparr>
          in if d_total = 0 then (l, m) else let u = cpu_usage d_idle d_total
                  in critical_switch now u (overload_switch now u (l, set_usage now u m)))"

definition cpu_loop_start :: "(u64 \<times> u64) \<Rightarrow> cpu_loop" where
  "cpu_loop_start p =
     \<lparr>lp_prev_idle = fst p, lp_prev_total = snd p, lp_above = 0, lp_below = 0,
      lp_critical_above = 0, lp_critical_below = 0\<rparr>"

text \<open>
  The guard after the loop started at the counters \<open>p\<close> and ticked through the list of
  outcomes of reading the counters, each with its time.
\<close>

definition cpu_run :: "cpu_config \<Rightarrow> u64 \<times> u64 \<Rightarrow> (time \<times> (u64 \<times> u64) result) list \<Rightarrow>
    cpu_loop \<times> cpu_monitor" where
  "cpu_run cfg p ss = foldl (\<lambda>st (now, r). cpu_tick now r st) (cpu_loop_start p, new_cpu_monitor cfg) ss"

subsection \<open>The hysteresis automaton and its specification\<close>

record hyst =
  hy_flag :: bool
  hy_above :: int
  hy_below :: int

definition hyst_init :: hyst where
  "hyst_init = \<lparr>hy_flag = False, hy_above = 0, hy_below = 0\<rparr>"

definition hyst_step :: "int \<Rightarrow> int \<Rightarrow> int \<Rightarrow> int \<Rightarrow> rat \<Rightarrow> hyst \<Rightarrow> hyst" where
  "hyst_step hi lo na nb u h =
     (if of_int hi \<le> u then
        h\<lparr>hy_above := hy_above h + 1, hy_below := 0,
          hy_flag := (if na \<le> hy_above h + 1 then True else hy_flag h)\<rparr>
      else if u \<le> of_int lo then
        h\<lparr>hy_below := hy_below h + 1, hy_above := 0,
          hy_flag := (if nb \<le> hy_below h + 1 then False else hy_flag h)\<rparr>
      else h\<lparr>hy_above := 0, hy_below := 0\<rparr>)"

definition trailing :: "('a \<Rightarrow> bool) \<Rightarrow> 'a list \<Rightarrow> nat" where
  "trailing P us = length (takeWhile P (rev us))"

lemma trailing_Nil [simp]: "trailing P [] = 0"
  by (simp add: trailing_def)

lemma trailing_snoc [simp]: "trailing P (us @ [u]) = (if P u then Suc (trailing P us) else 0)"
  by (simp add: trailing_def)

text \<open>\<open>n \<le> trailing P us\<close>: the last \<open>n\<close> elements all satisfy \<open>P\<close>.\<close>

lemma trailing_iff:
  "n \<le> trailing P us \<longleftrightarrow> n \<le> length us \<and> (\<forall>u \<in> set (drop (length us - n) us). P u)"
proof (induction us arbitrary: n rule: rev_induct)
  case (snoc u us)
  show ?case
  proof (cases n)
    case (Suc k)
    have "drop (length (us @ [u]) - n) (us @ [u]) = drop (length us - k) us @ [u]"
      using Suc by simp
    then show ?thesis using snoc [of k] Suc by auto
  qed simp
qed simp

definition is_above :: "int \<Rightarrow> rat \<Rightarrow> bool" where
  "is_above hi u \<longleftrightarrow> of_int hi \<le> u"

definition is_below :: "int \<Rightarrow> int \<Rightarrow> rat \<Rightarrow> bool" where
  "is_below hi lo u \<longleftrightarrow> \<not> of_int hi \<le> u \<and> u \<le> of_int lo"

text \<open>The flag from the history, newest sample last: the latest decisive window counts.\<close>

fun hyst_spec_rev :: "int \<Rightarrow> int \<Rightarrow> int \<Rightarrow> int \<Rightarrow> rat list \<Rightarrow> bool" where
  "hyst_spec_rev hi lo na nb [] = False"
| "hyst_spec_rev hi lo na nb (u # us) =
     (if is_above hi u \<and> na \<le> int (length (takeWhile (is_above hi) (u # us))) then True
      else if is_below hi lo u \<and> nb \<le> int (length (takeWhile (is_below hi lo) (u # us))) then False
      else hyst_spec_rev hi lo na nb us)"

definition hyst_spec :: "int \<Rightarrow> int \<Rightarrow> int \<Rightarrow> int \<Rightarrow> rat list \<Rightarrow> bool" where
  "hyst_spec hi lo na nb us = hyst_spec_rev hi lo na nb (rev us)"

definition hyst_run :: "int \<Rightarrow> int \<Rightarrow> int \<Rightarrow> int \<Rightarrow> rat list \<Rightarrow> hyst" where
  "hyst_run hi lo na nb us = foldl (\<lambda>h u. hyst_step hi lo na nb u h) hyst_init us"

lemma hyst_run_snoc:
  "hyst_run hi lo na nb (us @ [u]) = hyst_step hi lo na nb u (hyst_run hi lo na nb us)"
  by (simp add: hyst_run_def)

lemma hyst_run_counts:
  "hy_above (hyst_run hi lo na nb us) = int (trailing (is_above hi) us) \<and>
   hy_below (hyst_run hi lo na nb us) = int (trailing (is_below hi lo) us)"
proof (induction us rule: rev_induct)
  case Nil
  then show ?case by (simp add: hyst_run_def hyst_init_def)
next
  case (snoc u us)
  then show ?case by (auto simp: hyst_run_snoc hyst_step_def is_above_def is_below_def)
qed

lemma hyst_spec_snoc:
  "hyst_spec hi lo na nb (us @ [u]) =
     (if is_above hi u \<and> na \<le> int (trailing (is_above hi) (us @ [u])) then True
      else if is_below hi lo u \<and> nb \<le> int (trailing (is_below hi lo) (us @ [u])) then False
      else hyst_spec hi lo na nb us)"
  by (simp add: hyst_spec_def trailing_def)

lemma hyst_run_flag: "hy_flag (hyst_run hi lo na nb us) = hyst_spec hi lo na nb us"
proof (induction us rule: rev_induct)
  case Nil
  then show ?case by (simp add: hyst_run_def hyst_init_def hyst_spec_def)
next
  case (snoc u us)
  then show ?case
    using hyst_run_counts [of hi lo na nb us]
    by (auto simp: hyst_run_snoc hyst_spec_snoc hyst_step_def is_above_def is_below_def)
qed

text \<open>The guard runs two such automata over the same usages.\<close>

definition need_above :: "cpu_config \<Rightarrow> int" where
  "need_above cfg = required_samples (cm_overload_sustain cfg) (cm_sample_interval cfg)"

definition need_below :: "cpu_config \<Rightarrow> int" where
  "need_below cfg = required_samples (cm_recover_sustain cfg) (cm_sample_interval cfg)"

definition need_critical :: "cpu_config \<Rightarrow> int" where
  "need_critical cfg = required_samples (cm_critical_sustain cfg) (cm_sample_interval cfg)"

definition overload_run :: "cpu_config \<Rightarrow> rat list \<Rightarrow> hyst" where
  "overload_run cfg us =
     hyst_run (cm_overload_percent cfg) (cm_recover_percent cfg) (need_above cfg) (need_below cfg) us"

definition critical_run :: "cpu_config \<Rightarrow> rat list \<Rightarrow> hyst" where
  "critical_run cfg us =
     hyst_run (cm_critical_percent cfg) (cm_overload_percent cfg) (need_critical cfg) (need_below cfg) us"

definition overload_view :: "cpu_loop \<times> cpu_monitor \<Rightarrow> hyst" where
  "overload_view st = \<lparr>hy_flag = mon_overloaded (snd st), hy_above = lp_above (fst st),
     hy_below = lp_below (fst st)\<rparr>"

definition critical_view :: "cpu_loop \<times> cpu_monitor \<Rightarrow> hyst" where
  "critical_view st = \<lparr>hy_flag = mon_critical (snd st), hy_above = lp_critical_above (fst st),
     hy_below = lp_critical_below (fst st)\<rparr>"

text \<open>The samples that count: readable, and after a tick of the total counter.\<close>

fun usages_from :: "u64 \<times> u64 \<Rightarrow> (time \<times> (u64 \<times> u64) result) list \<Rightarrow> rat list" where
  "usages_from p [] = []"
| "usages_from p ((now, Inl _) # ss) = usages_from p ss"
| "usages_from p ((now, Inr q) # ss) =
     (if snd q - snd p = 0 then [] else [cpu_usage (fst q - fst p) (snd q - snd p)]) @ usages_from q ss"

fun last_counters :: "u64 \<times> u64 \<Rightarrow> (time \<times> (u64 \<times> u64) result) list \<Rightarrow> u64 \<times> u64" where
  "last_counters p [] = p"
| "last_counters p ((now, Inl _) # ss) = last_counters p ss"
| "last_counters p ((now, Inr q) # ss) = last_counters q ss"

lemma usages_from_append:
  "usages_from p (ss @ ts) = usages_from p ss @ usages_from (last_counters p ss) ts"
  by (induction p ss rule: usages_from.induct) auto

lemma last_counters_append: "last_counters p (ss @ ts) = last_counters (last_counters p ss) ts"
  by (induction p ss rule: last_counters.induct) auto

lemma switch_cfg [simp]:
  "mon_cfg (snd (overload_switch now u st)) = mon_cfg (snd st)"
  "mon_cfg (snd (critical_switch now u st)) = mon_cfg (snd st)"
  by (auto simp: overload_switch_def critical_switch_def Let_def case_prod_beta set_overloaded_def
      set_critical_def)

lemma switch_counters [simp]:
  "lp_prev_idle (fst (overload_switch now u st)) = lp_prev_idle (fst st)"
  "lp_prev_total (fst (overload_switch now u st)) = lp_prev_total (fst st)"
  "lp_prev_idle (fst (critical_switch now u st)) = lp_prev_idle (fst st)"
  "lp_prev_total (fst (critical_switch now u st)) = lp_prev_total (fst st)"
  by (auto simp: overload_switch_def critical_switch_def Let_def case_prod_beta)

lemma overload_view_switch:
  "overload_view (overload_switch now u st) =
     hyst_step (cm_overload_percent (mon_cfg (snd st))) (cm_recover_percent (mon_cfg (snd st)))
       (need_above (mon_cfg (snd st))) (need_below (mon_cfg (snd st))) u (overload_view st)"
  "overload_view (critical_switch now u st) = overload_view st"
  by (auto simp: overload_switch_def critical_switch_def overload_view_def hyst_step_def Let_def
      case_prod_beta need_above_def need_below_def set_overloaded_def set_critical_def)

lemma critical_view_switch:
  "critical_view (critical_switch now u st) =
     hyst_step (cm_critical_percent (mon_cfg (snd st))) (cm_overload_percent (mon_cfg (snd st)))
       (need_critical (mon_cfg (snd st))) (need_below (mon_cfg (snd st))) u (critical_view st)"
  "critical_view (overload_switch now u st) = critical_view st"
  by (auto simp: overload_switch_def critical_switch_def critical_view_def hyst_step_def Let_def
      case_prod_beta need_critical_def need_below_def set_overloaded_def set_critical_def)

lemma view_set_usage [simp]:
  "overload_view (l, set_usage now u m) = overload_view (l, m)"
  "critical_view (l, set_usage now u m) = critical_view (l, m)"
  "mon_cfg (set_usage now u m) = mon_cfg m"
  by (simp_all add: set_usage_def overload_view_def critical_view_def)

lemma view_prev [simp]:
  "overload_view (l\<lparr>lp_prev_idle := i, lp_prev_total := t\<rparr>, m) = overload_view (l, m)"
  "critical_view (l\<lparr>lp_prev_idle := i, lp_prev_total := t\<rparr>, m) = critical_view (l, m)"
  "overload_view (l\<lparr>lp_prev_idle := i\<rparr>, m) = overload_view (l, m)"
  "critical_view (l\<lparr>lp_prev_idle := i\<rparr>, m) = critical_view (l, m)"
  by (simp_all add: overload_view_def critical_view_def)

lemma cpu_run_snoc:
  "cpu_run cfg p (ss @ [(now, r)]) = cpu_tick now r (cpu_run cfg p ss)"
  by (simp add: cpu_run_def)

text \<open>One tick advances both automata by the usages it contributes.\<close>

lemma cpu_tick_views:
  assumes "p = (lp_prev_idle (fst st), lp_prev_total (fst st))" and "cfg = mon_cfg (snd st)"
    and "us = usages_from p [(now, r)]"
  shows "overload_view (cpu_tick now r st) =
      foldl (\<lambda>h u. hyst_step (cm_overload_percent cfg) (cm_recover_percent cfg) (need_above cfg)
        (need_below cfg) u h) (overload_view st) us"
    and "critical_view (cpu_tick now r st) =
      foldl (\<lambda>h u. hyst_step (cm_critical_percent cfg) (cm_overload_percent cfg) (need_critical cfg)
        (need_below cfg) u h) (critical_view st) us"
    and "mon_cfg (snd (cpu_tick now r st)) = cfg"
    and "(lp_prev_idle (fst (cpu_tick now r st)), lp_prev_total (fst (cpu_tick now r st))) =
      last_counters p [(now, r)]"
  using assms
  by (auto simp: cpu_tick_def Let_def case_prod_beta overload_view_switch critical_view_switch
      split: sum.splits)

lemma cpu_run_views:
  assumes "cfg = mon_cfg (new_cpu_monitor cfg0)"
  shows "overload_view (cpu_run cfg0 p ss) = overload_run cfg (usages_from p ss) \<and>
    critical_view (cpu_run cfg0 p ss) = critical_run cfg (usages_from p ss) \<and>
    mon_cfg (snd (cpu_run cfg0 p ss)) = cfg \<and>
    (lp_prev_idle (fst (cpu_run cfg0 p ss)), lp_prev_total (fst (cpu_run cfg0 p ss))) =
      last_counters p ss"
proof (induction ss rule: rev_induct)
  case Nil
  have "mon_overloaded (new_cpu_monitor cfg0) = False" "mon_critical (new_cpu_monitor cfg0) = False"
    by (simp_all add: new_cpu_monitor_def Let_def)
  then show ?case
    using assms by (simp add: cpu_run_def overload_run_def critical_run_def hyst_run_def
        hyst_init_def cpu_loop_start_def overload_view_def critical_view_def)
next
  case (snoc s ss)
  obtain now r where s: "s = (now, r)" by fastforce
  note tick = cpu_tick_views [OF _ _ refl, of "last_counters p ss" "cpu_run cfg0 p ss" cfg now r]
  show ?case
    unfolding s cpu_run_snoc usages_from_append last_counters_append
    using snoc tick by (simp add: overload_run_def critical_run_def hyst_run_def)
qed

text \<open>The order between the two flags: critical needs at least as many, and higher, samples.\<close>

lemma takeWhile_length_mono:
  "(\<And>x. P x \<Longrightarrow> Q x) \<Longrightarrow> length (takeWhile P xs) \<le> length (takeWhile Q xs)"
  by (induction xs) auto

lemma hyst_spec_rev_order:
  assumes "hi \<le> hi'" and "na \<le> na'"
  shows "hyst_spec_rev hi' hi na' nb us \<Longrightarrow> hyst_spec_rev hi lo na nb us"
proof (induction us)
  case (Cons u us)
  have above: "length (takeWhile (is_above hi') us) \<le> length (takeWhile (is_above hi) us)"
    using assms(1) by (intro takeWhile_length_mono) (auto simp: is_above_def elim: order_trans [rotated])
  have below: "length (takeWhile (is_below hi lo) us) \<le> length (takeWhile (is_below hi' hi) us)"
  proof (rule takeWhile_length_mono)
    fix x assume "is_below hi lo x"
    moreover have "(of_int hi :: rat) \<le> of_int hi'" using assms(1) by simp
    ultimately show "is_below hi' hi x" by (auto simp: is_below_def)
  qed
  have h: "(of_int hi :: rat) \<le> of_int hi'" using assms(1) by simp
  show ?case
  proof (cases "is_above hi' u")
    case True
    then have "is_above hi u" using h by (auto simp: is_above_def)
    with True Cons above assms(2) show ?thesis
      by (auto simp: is_below_def is_above_def split: if_splits)
  next
    case False
    show ?thesis
    proof (cases "is_above hi u")
      case True
      with False Cons show ?thesis by (auto simp: is_below_def is_above_def split: if_splits)
    next
      case notabove: False
      then have "is_below hi' hi u" using False by (auto simp: is_below_def is_above_def)
      with False notabove Cons below show ?thesis
        by (auto simp: is_below_def is_above_def split: if_splits)
    qed
  qed
qed simp

lemma new_cpu_monitor_thresholds:
  "cm_overload_percent (mon_cfg (new_cpu_monitor cfg)) \<le>
   cm_critical_percent (mon_cfg (new_cpu_monitor cfg))"
  by (simp add: new_cpu_monitor_def Let_def)

lemma required_samples_pos: "1 \<le> required_samples d i"
  by (simp add: required_samples_def Let_def)

subsection \<open>Properties\<close>

text \<open>C37: After any sequence of ticks, unreadable samples included, the two flags of the guard
  are the ones the history dictates: a flag is on exactly when the latest decisive window of
  usages (enough consecutive samples above the threshold, or enough at or below the recovery
  threshold) was one above.\<close>

theorem guard_flags_follow_history:
  "mon_overloaded (snd (cpu_run cfg0 p ss)) =
     (let cfg = mon_cfg (new_cpu_monitor cfg0) in
      hyst_spec (cm_overload_percent cfg) (cm_recover_percent cfg) (need_above cfg) (need_below cfg)
        (usages_from p ss)) \<and>
   mon_critical (snd (cpu_run cfg0 p ss)) =
     (let cfg = mon_cfg (new_cpu_monitor cfg0) in
      hyst_spec (cm_critical_percent cfg) (cm_overload_percent cfg) (need_critical cfg) (need_below cfg)
        (usages_from p ss))"
  using cpu_run_views [OF refl, of cfg0 p ss]
  by (simp add: overload_view_def critical_view_def overload_run_def critical_run_def Let_def
      flip: hyst_run_flag) (metis hyst.select_convs(1))

text \<open>If the critical window is at least as long as the overload window, then a critically
  overloaded guard also reports overload, after every sequence of ticks.\<close>

theorem critical_implies_overloaded:
  assumes "cfg = mon_cfg (new_cpu_monitor cfg0)"
    and "need_above cfg \<le> need_critical cfg"
    and "mon_critical (snd (cpu_run cfg0 p ss))"
  shows "mon_overloaded (snd (cpu_run cfg0 p ss))"
proof -
  have "hy_flag (critical_run cfg (usages_from p ss))"
    using cpu_run_views [OF assms(1), of p ss] assms(3) by (metis critical_view_def hyst.select_convs(1))
  then have "hyst_spec_rev (cm_critical_percent cfg) (cm_overload_percent cfg) (need_critical cfg)
      (need_below cfg) (rev (usages_from p ss))"
    by (simp add: critical_run_def hyst_run_flag hyst_spec_def)
  from hyst_spec_rev_order [OF _ assms(2) this] have "hy_flag (overload_run cfg (usages_from p ss))"
    using new_cpu_monitor_thresholds assms(1) by (simp add: overload_run_def hyst_run_flag hyst_spec_def)
  then show ?thesis
    using cpu_run_views [OF assms(1), of p ss] by (metis overload_view_def hyst.select_convs(1))
qed

text \<open>A guard with equal windows, and a machine that is fully busy for some seconds, sampled once a second.\<close>

definition sample_config :: cpu_config where
  "sample_config = \<lparr>cm_enabled = True, cm_sample_interval = second, cm_overload_percent = 90,
     cm_overload_sustain = 3 * second, cm_recover_percent = 75, cm_recover_sustain = 4 * second,
     cm_critical_percent = 95, cm_critical_sustain = 3 * second\<rparr>"

definition busy_samples :: "nat \<Rightarrow> (time \<times> (u64 \<times> u64) result) list" where
  "busy_samples n = map (\<lambda>i. (int i * second, Inr (0, word_of_nat (100 * i)))) [1 ..< Suc n]"

lemma critical_implies_overloaded_witness:
  "mon_overloaded (snd (cpu_run sample_config (0, 0) (busy_samples 3)))"
proof -
  have a: "need_above (mon_cfg (new_cpu_monitor sample_config)) \<le>
      need_critical (mon_cfg (new_cpu_monitor sample_config))"
    by code_simp
  have b: "mon_critical (snd (cpu_run sample_config (0, 0) (busy_samples 3)))"
    by code_simp
  show ?thesis using critical_implies_overloaded [OF refl a b] .
qed

text \<open>With the shipped windows (ten seconds for overload, five for critical overload), five
  fully busy seconds make the guard critically overloaded while it does not report overload:
  the levels are not ordered, unlike the escalation the README describes.\<close>

theorem critical_without_overload:
  "let cfg = sample_config\<lparr>cm_overload_sustain := 10 * second, cm_recover_sustain := 12 * second,
       cm_critical_sustain := 5 * second\<rparr>;
     m = snd (cpu_run cfg (0, 0) (busy_samples 5))
   in mon_critical m \<and> \<not> mon_overloaded m"
  by code_simp

text \<open>While the counters are monotone and the idle counter does not outrun the total, the
  usage of a tick is a percentage between 0 and 100; it is 0 exactly on an idle
  machine and 100 exactly on a machine without idle time.\<close>

theorem usage_is_percentage:
  assumes "i0 \<le> i1" and "t0 < (t1 :: u64)" and "unat i1 - unat i0 \<le> unat t1 - unat t0"
  shows "0 \<le> cpu_usage (i1 - i0) (t1 - t0) \<and> cpu_usage (i1 - i0) (t1 - t0) \<le> 100 \<and>
    (cpu_usage (i1 - i0) (t1 - t0) = 0 \<longleftrightarrow> i1 - i0 = t1 - t0) \<and>
    (cpu_usage (i1 - i0) (t1 - t0) = 100 \<longleftrightarrow> i1 = i0)"
proof -
  have di: "unat (i1 - i0) = unat i1 - unat i0" using assms(1) by (rule unat_sub)
  have dt: "unat (t1 - t0) = unat t1 - unat t0" using assms(2) by (simp add: unat_sub)
  have le: "i1 - i0 \<le> t1 - t0" using assms(3) by (simp add: word_le_nat_alt di dt)
  define d n where "d = unat (t1 - t0)" and "n = unat (t1 - t0) - unat (i1 - i0)"
  have u: "cpu_usage (i1 - i0) (t1 - t0) = of_nat n / of_nat d * 100"
    by (simp only: cpu_usage_def unat_sub [OF le] n_def d_def)
  have pos: "0 < d" using assms(2) by (simp add: d_def dt word_less_nat_alt)
  have le': "unat (i1 - i0) \<le> d" using le by (simp add: word_le_nat_alt d_def)
  have n: "n = d - unat (i1 - i0)" by (simp add: n_def d_def)
  have "n = 0 \<longleftrightarrow> i1 - i0 = t1 - t0" using le' by (auto simp: n d_def word_unat_eq_iff)
  moreover have "n = d \<longleftrightarrow> unat (i1 - i0) = 0" using le' pos by (auto simp: n)
  then have "n = d \<longleftrightarrow> i1 = i0" by (simp add: unat_eq_zero)
  moreover have "n \<le> d" by (simp add: n)
  ultimately show ?thesis using pos by (auto simp: u divide_le_eq divide_eq_eq)
qed

lemma usage_is_percentage_witness:
  "cpu_usage (25 - 20) (200 - 100) \<le> 100"
  using usage_is_percentage [of 20 25 100 200] by simp

text \<open>When the idle counter (which includes iowait, a counter that Linux does not keep
  monotone) advances by more than the total does, the unsigned difference wraps: an idle machine
  is sampled far above every threshold, and enough such ticks set both flags.\<close>

theorem idle_machine_reads_overloaded:
  "cpu_usage (11 - 0) (10 - 0) > 10 ^ 20 \<and>
   mon_critical (snd (cpu_run sample_config (0, 0)
     [(second, Inr (11, 10)), (2 * second, Inr (22, 20)), (3 * second, Inr (33, 30))]))"
  by code_simp

end
