(* ===== verification/Text_Util.thy ===== *)
theory Text_Util
  imports Go_Strings
begin

text \<open>
  Text measures and snippet cleaning (\<open>internal/textutil\<close>). Each of the seven regular
  expressions of \<open>snippet.go\<close> is a function that reads the one match it can have at a
  position: every one of them has a unique match per start, since each repeated class excludes the
  character that follows it. \<open>replace_from\<close> is the leftmost, non-overlapping
  replacement of \<open>ReplaceAllString\<close>; it knows the byte before the position for the
  anchor of headings. All delimiters are ASCII, so the matching is on bytes.
\<close>

subsection \<open>Counting\<close>

definition is_cjk :: "rune \<Rightarrow> bool" where
  "is_cjk r \<longleftrightarrow>
     (0x4E00 \<le> r \<and> r \<le> 0x9FFF) \<or> (0x3400 \<le> r \<and> r \<le> 0x4DBF) \<or>
     (0x20000 \<le> r \<and> r \<le> 0x2A6DF) \<or> (0xF900 \<le> r \<and> r \<le> 0xFAFF)"

definition count_cjk :: "string \<Rightarrow> nat" where
  "count_cjk s = length (filter is_cjk (runes s))"

definition mixed_step :: "rune \<Rightarrow> nat \<times> bool \<Rightarrow> nat \<times> bool" where
  "mixed_step r st =
     (let (n, in_word) = st in
      if rune_is_space r then (if in_word then (n + 1, False) else (n, in_word))
      else
        let in_word = (if \<not> in_word then True else in_word) in
        if is_cjk r then
          let (n, in_word) = (if in_word then (n + 1, False) else (n, in_word))
          in (n + 1, in_word)
        else (n, in_word))"

definition count_words_mixed :: "string \<Rightarrow> nat" where
  "count_words_mixed s =
     (let (n, in_word) = fold mixed_step (runes s) (0, False)
      in if in_word then n + 1 else n)"

definition count_words_max_fields_or_cjk :: "string \<Rightarrow> nat" where
  "count_words_max_fields_or_cjk s =
     (let ascii_words = length (str_fields s); cjk_words = count_cjk s
      in if ascii_words < cjk_words then cjk_words else ascii_words)"

subsection \<open>Markdown\<close>

definition re_space :: "char \<Rightarrow> bool" where
  "re_space c \<longleftrightarrow> c \<in> {CHR 0x09, CHR 0x0A, CHR 0x0C, CHR 0x0D, CHR '' ''}"

text \<open>A matcher gets the byte before the position and the rest of the text from there on,
  and returns the replacement and the length of the match.\<close>

type_synonym matcher = "char option \<Rightarrow> string \<Rightarrow> (string \<times> nat) option"

definition match_heading :: matcher where
  "match_heading before s =
     (if before = None \<or> before = Some (CHR 0x0A) then
        let h = length (takeWhile (\<lambda>c. c = CHR ''#'') s);
            w = length (takeWhile re_space (drop h s))
        in if 1 \<le> h \<and> h \<le> 6 \<and> 1 \<le> w then Some ([], h + w) else None
      else None)"

definition match_link :: matcher where
  "match_link before s =
     (case s of
        c # t \<Rightarrow>
          if c = CHR ''['' then
            let label = takeWhile (\<lambda>c. c \<noteq> CHR '']'') t;
                rest = drop (length label) t;
                url = takeWhile (\<lambda>c. c \<noteq> CHR '')'') (drop 2 rest)
            in if label \<noteq> [] \<and> has_prefix rest ''](''  \<and> url \<noteq> [] \<and> has_prefix (drop (2 + length url) rest) '')''
               then Some (label, length label + length url + 4) else None
          else None
      | [] \<Rightarrow> None)"

definition match_delim :: "string \<Rightarrow> matcher" where
  "match_delim d before s =
     (if has_prefix s d then
        let t = drop (length d) s;
            body = takeWhile (\<lambda>c. c \<noteq> hd d \<and> c \<noteq> CHR 0x0A) t
        in if body \<noteq> [] \<and> has_prefix (drop (length body) t) d
           then Some (body, length body + 2 * length d) else None
      else None)"

definition match_blank_lines :: matcher where
  "match_blank_lines before s =
     (let n = length (takeWhile (\<lambda>c. c = CHR 0x0A) s)
      in if 3 \<le> n then Some ([CHR 0x0A, CHR 0x0A], n) else None)"

function replace_from :: "matcher \<Rightarrow> char option \<Rightarrow> string \<Rightarrow> string" where
  "replace_from f before [] = []"
| "replace_from f before (c # cs) =
     (case f before (c # cs) of
        Some (rep, n) \<Rightarrow> rep @ replace_from f (Some ((c # cs) ! (n - 1))) (drop (n - 1) cs)
      | None \<Rightarrow> c # replace_from f (Some c) cs)"
  by pat_completeness auto
termination
  by (relation "measure (\<lambda>(f, b, s). length s)") auto

definition replace_all :: "matcher \<Rightarrow> string \<Rightarrow> string" where
  "replace_all f s = replace_from f None s"

definition strip_markdown :: "string \<Rightarrow> string" where
  "strip_markdown s =
     (let s = replace_all match_heading s;
          s = replace_all match_link s;
          s = replace_all (match_delim ''**'') s;
          s = replace_all (match_delim ''*'') s;
          s = replace_all (match_delim ''__'') s;
          s = replace_all (match_delim ''_'') s;
          s = replace_all match_blank_lines s
      in trim_space s)"

definition is_sentence_end :: "rune \<Rightarrow> bool" where
  "is_sentence_end r \<longleftrightarrow> r \<in> {0x3002, 0x2E, 0xFF1F, 0x3F, 0xFF01, 0x21, 0x0A}"

definition ellipsis :: string where
  "ellipsis = ''...''"

text \<open>The length to keep, given the length \<open>k\<close> that fits: back from \<open>k - 1\<close>, by at most 200 runes, to a sentence end.\<close>

definition sentence_cut :: "rune list \<Rightarrow> int \<Rightarrow> int" where
  "sentence_cut rs k =
     (let start = (if k - 200 < 0 then 0 else k - 200)
      in case find (\<lambda>i. is_sentence_end (rs ! nat i)) (rev [start .. k - 1]) of
           Some i \<Rightarrow> i + 1
         | None \<Rightarrow> k)"

definition clean_snippet :: "string \<Rightarrow> int \<Rightarrow> string" where
  "clean_snippet s max_len =
     (let s = strip_markdown s in
      if 0 < max_len \<and> max_len < int (rune_count s) then
        let rs = runes s in
        if max_len \<le> 3 then encode_runes (take (nat max_len) rs)
        else
          let k = sentence_cut rs (max_len - 3);
              k = (if k < 0 then 0 else k)
          in trim_space (encode_runes (take (nat k) rs)) @ ellipsis
      else s)"

subsection \<open>Trimming encoded runes\<close>

definition trim_runes :: "rune list \<Rightarrow> rune list" where
  "trim_runes rs = rev (dropWhile rune_is_space (rev (dropWhile rune_is_space rs)))"

lemma rune_chunks_encode_runes:
  "list_all valid_rune rs \<Longrightarrow> rune_chunks (encode_runes rs) = map (\<lambda>r. (r, encode_rune r)) rs"
  by (induction rs) (simp_all add: encode_runes_def rune_chunks_encode)

lemma trim_chunks_map:
  "trim_chunks (map (\<lambda>r. (r, f r)) rs) = map (\<lambda>r. (r, f r)) (trim_runes rs)"
  by (simp add: trim_chunks_def trim_runes_def rev_map dropWhile_map o_def space_chunk_def)

lemma trim_space_encode_runes:
  "list_all valid_rune rs \<Longrightarrow> trim_space (encode_runes rs) = encode_runes (trim_runes rs)"
  by (simp add: trim_space_def rune_chunks_encode_runes trim_chunks_map o_def)
     (simp add: encode_runes_def)

lemma length_trim_runes: "length (trim_runes rs) \<le> length rs"
  using length_dropWhile_le [of rune_is_space "rev (dropWhile rune_is_space rs)"]
    length_dropWhile_le [of rune_is_space rs] by (simp add: trim_runes_def)

lemma set_trim_runes: "set (trim_runes rs) \<subseteq> set rs"
  by (auto simp: trim_runes_def dest!: set_dropWhileD)

lemma ascii_ellipsis: "ascii_string ellipsis"
  by (simp add: ascii_string_def ellipsis_def byte_of_def)

lemma rune_count_encode_runes: "list_all valid_rune rs \<Longrightarrow> rune_count (encode_runes rs) = length rs"
  by (simp add: rune_count_def runes_encode_runes)

lemma rune_count_encode_ellipsis:
  "list_all valid_rune rs \<Longrightarrow> rune_count (encode_runes rs @ ellipsis) = length rs + 3"
  by (simp add: rune_count_def runes_encode_runes_append runes_ascii [OF ascii_ellipsis])
     (simp add: ellipsis_def)

lemma valid_take_runes: "list_all valid_rune (take n (runes s))"
  using runes_valid [of s] by (auto simp: list_all_iff dest: in_set_takeD)

lemma find_SomeD: "find P xs = Some x \<Longrightarrow> x \<in> set xs \<and> P x"
  by (induction xs) (auto split: if_splits)

lemma sentence_cut_range:
  assumes "1 \<le> k"
  shows "1 \<le> sentence_cut rs k" and "sentence_cut rs k \<le> k"
  using assms
  by (auto simp: sentence_cut_def Let_def split: option.splits dest!: find_SomeD split: if_splits)

lemma sentence_cut_end:
  "sentence_cut rs k = k \<or> is_sentence_end (rs ! nat (sentence_cut rs k - 1))"
  by (auto simp: sentence_cut_def Let_def split: option.splits dest!: find_SomeD split: if_splits)

subsection \<open>What the replacement of blank lines leaves\<close>

definition newlines :: "string \<Rightarrow> nat" where
  "newlines s = length (takeWhile (\<lambda>c. c = CHR 0x0A) s)"

lemma newlines_simps [simp]:
  "newlines [] = 0" "newlines (c # s) = (if c = CHR 0x0A then Suc (newlines s) else 0)"
  by (simp_all add: newlines_def)

definition triple_newline :: "string \<Rightarrow> bool" where
  "triple_newline s \<longleftrightarrow> str_contains s [CHR 0x0A, CHR 0x0A, CHR 0x0A]"

lemma triple_prefix: "prefix [CHR 0x0A, CHR 0x0A, CHR 0x0A] s \<longleftrightarrow> 3 \<le> newlines s"
proof -
  consider "s = []" | a where "s = [a]" | a b where "s = [a, b]" | a b c t where "s = a # b # c # t"
    by (metis list.exhaust)
  then show ?thesis by cases auto
qed

lemma triple_newline_simps [simp]:
  "\<not> triple_newline []"
  "triple_newline (c # s) \<longleftrightarrow> 3 \<le> newlines (c # s) \<or> triple_newline s"
  by (simp add: triple_newline_def str_contains_iff)
     (simp only: triple_newline_def str_contains_iff sublist_Cons_right triple_prefix)

lemma newlines_drop: "newlines (drop (newlines s) s) = 0"
  by (induction s) auto

lemma replace_blank_lines:
  "newlines (replace_from match_blank_lines b s) = min 2 (newlines s) \<and>
   \<not> triple_newline (replace_from match_blank_lines b s)"
proof (induction "match_blank_lines" b s rule: replace_from.induct)
  case (2 b c cs)
  show ?case
  proof (cases "3 \<le> newlines (c # cs)")
    case True
    then have m: "match_blank_lines b (c # cs) = Some ([CHR 0x0A, CHR 0x0A], newlines (c # cs))"
      by (simp add: match_blank_lines_def newlines_def Let_def)
    have n: "newlines (c # cs) = Suc (newlines cs)" using True by (auto split: if_splits)
    have "newlines (drop (newlines cs) cs) = 0" by (rule newlines_drop)
    with 2(2) [OF m refl] True show ?thesis
      by (simp add: m n del: newlines_simps) (simp add: n)
  next
    case False
    then have m: "match_blank_lines b (c # cs) = None"
      by (simp add: match_blank_lines_def newlines_def Let_def)
    from 2(1) [OF m] False show ?thesis by (auto simp: m split: if_splits)
  qed
qed simp

lemma sublist_trans: "sublist xs ys \<Longrightarrow> sublist ys zs \<Longrightarrow> sublist xs zs"
  by (metis append.assoc sublist_def)

lemma triple_newline_sublist: "sublist s t \<Longrightarrow> triple_newline s \<Longrightarrow> triple_newline t"
  unfolding triple_newline_def str_contains_iff by (erule sublist_trans [rotated])

lemma sublist_dropWhile: "sublist (dropWhile P xs) xs"
  by (metis suffix_dropWhile suffix_imp_sublist)

lemma sublist_trim_chunks: "sublist (trim_chunks cs) cs"
proof -
  have "sublist (rev (dropWhile space_chunk (rev (dropWhile space_chunk cs))))
      (rev (rev (dropWhile space_chunk cs)))"
    unfolding sublist_rev by (rule sublist_dropWhile)
  then have "sublist (trim_chunks cs) (dropWhile space_chunk cs)" by (simp add: trim_chunks_def)
  from sublist_trans [OF this sublist_dropWhile] show ?thesis .
qed

lemma sublist_concat_map:
  assumes "sublist xs ys" shows "sublist (concat (map f xs)) (concat (map f ys))"
proof -
  obtain ps ss where "ys = ps @ xs @ ss" using assms by (auto simp: sublist_def)
  then show ?thesis by (simp add: sublist_appendI)
qed

lemma sublist_trim_space: "sublist (trim_space s) s"
  using sublist_concat_map [OF sublist_trim_chunks, of snd "rune_chunks s"]
  by (simp add: trim_space_def concat_rune_chunks)

subsection \<open>Words\<close>

lemma cjk_not_space: "is_cjk r \<Longrightarrow> \<not> rune_is_space r"
  by (auto simp: is_cjk_def rune_is_space_def)

definition words_of :: "nat \<times> bool \<Rightarrow> nat" where
  "words_of st = (if snd st then fst st + 1 else fst st)"

lemma count_words_mixed_words_of: "count_words_mixed s = words_of (fold mixed_step (runes s) (0, False))"
  by (simp add: count_words_mixed_def words_of_def case_prod_beta)

lemma mixed_fields:
  assumes "\<forall>p\<in>set cs. \<not> is_cjk (fst p) \<and> snd p \<noteq> []"
  shows "words_of (fold mixed_step (map fst cs) (m, cur \<noteq> [])) = m + length (fields_from cur cs)"
  using assms
proof (induction cs arbitrary: m cur)
  case (Cons p cs)
  obtain r b where p: "p = (r, b)" by fastforce
  from Cons(1) [of "if rune_is_space r \<and> cur \<noteq> [] then m + 1 else m"
      "if rune_is_space r then [] else cur @ b"] Cons(2)
  show ?case by (auto simp: p mixed_step_def Let_def split: if_splits)
qed (simp add: words_of_def)

lemma rune_chunks_not_Nil: "p \<in> set (rune_chunks s) \<Longrightarrow> snd p \<noteq> []"
  by (induction s rule: rune_chunks.induct) (auto simp: rune_chunks.simps(2) split: prod.splits)

lemma mixed_cjk: "\<forall>r\<in>set rs. is_cjk r \<Longrightarrow> fold mixed_step rs (m, False) = (m + 2 * length rs, False)"
  by (induction rs arbitrary: m) (auto simp: mixed_step_def cjk_not_space)

lemma clean_snippet_le:
  assumes "0 < n"
  shows "int (rune_count (clean_snippet s n)) \<le> n"
proof (cases "n < int (rune_count (strip_markdown s))")
  case True
  let ?rs = "runes (strip_markdown s)"
  show ?thesis
  proof (cases "n \<le> 3")
    case le: True
    then have "clean_snippet s n = encode_runes (take (nat n) ?rs)"
      using assms True by (simp add: clean_snippet_def Let_def)
    then show ?thesis
      using assms True by (simp add: rune_count_encode_runes valid_take_runes)
  next
    case False
    let ?k = "sentence_cut ?rs (n - 3)"
    have k: "1 \<le> ?k" "?k \<le> n - 3" using sentence_cut_range [of "n - 3" ?rs] False by auto
    then have "clean_snippet s n = encode_runes (trim_runes (take (nat ?k) ?rs)) @ ellipsis"
      using assms True False
      by (simp add: clean_snippet_def Let_def trim_space_encode_runes valid_take_runes)
    moreover have "list_all valid_rune (trim_runes (take (nat ?k) ?rs))"
      using set_trim_runes [of "take (nat ?k) ?rs"] valid_take_runes [of "nat ?k" "strip_markdown s"]
      by (auto simp: list_all_iff)
    moreover have "int (length (trim_runes (take (nat ?k) ?rs))) \<le> n - 3"
      using length_trim_runes [of "take (nat ?k) ?rs"] k by auto
    ultimately show ?thesis using True by (simp add: rune_count_encode_ellipsis)
  qed
qed (simp add: clean_snippet_def Let_def)

subsection \<open>Properties\<close>

text \<open>A cleaned snippet has at most \<open>max_len\<close> runes when a limit is given, and the cleaned
  text is returned whole when it fits.\<close>

theorem clean_snippet_bounded:
  assumes "0 < n"
  shows "int (rune_count (clean_snippet s n)) \<le> n \<and>
    (int (rune_count (strip_markdown s)) \<le> n \<longrightarrow> clean_snippet s n = strip_markdown s)"
  using clean_snippet_le [OF assms] by (simp add: clean_snippet_def Let_def)

lemma clean_snippet_bounded_witness:
  "int (rune_count (clean_snippet ''# A **bold** claim.'' 9)) \<le> 9"
  using clean_snippet_bounded [of 9 "''# A **bold** claim.''"] by simp

text \<open>A snippet that is cut (to more than three runes) is a prefix of the cleaned text, trimmed and
  followed by an ellipsis; the prefix fills the space or ends with a sentence.\<close>

theorem clean_snippet_cuts_at_sentence:
  assumes "3 < n" and "n < int (rune_count (strip_markdown s))"
  shows "\<exists>k. clean_snippet s n = encode_runes (trim_runes (take k (runes (strip_markdown s)))) @ ellipsis \<and>
    1 \<le> k \<and> int k \<le> n - 3 \<and>
    (int k = n - 3 \<or> is_sentence_end (runes (strip_markdown s) ! (k - 1)))"
proof -
  let ?rs = "runes (strip_markdown s)"
  let ?k = "sentence_cut ?rs (n - 3)"
  have k: "1 \<le> ?k" "?k \<le> n - 3" using sentence_cut_range [of "n - 3" ?rs] assms by auto
  then have "clean_snippet s n = encode_runes (trim_runes (take (nat ?k) ?rs)) @ ellipsis"
    using assms by (simp add: clean_snippet_def Let_def trim_space_encode_runes valid_take_runes)
  moreover have "nat ?k - 1 = nat (?k - 1)" using k by simp
  ultimately show ?thesis
    using k sentence_cut_end [of ?rs "n - 3"] by (intro exI [of _ "nat ?k"]) auto
qed

lemma clean_snippet_cuts_at_sentence_witness:
  "\<exists>k. clean_snippet ''One. Two three four'' 10 =
      encode_runes (trim_runes (take k (runes (strip_markdown ''One. Two three four'')))) @ ellipsis"
proof -
  have "10 < int (rune_count (strip_markdown ''One. Two three four''))" by code_simp
  from clean_snippet_cuts_at_sentence [OF _ this] show ?thesis by auto
qed

text \<open>The cleaned text never holds three consecutive newlines.\<close>

theorem strip_markdown_no_blank_runs: "\<not> triple_newline (strip_markdown s)"
  unfolding strip_markdown_def Let_def replace_all_def
  using triple_newline_sublist [OF sublist_trim_space] replace_blank_lines by blast

text \<open>On text without Han characters the mixed word count is the number of
  white-space separated fields.\<close>

theorem count_words_mixed_is_fields:
  assumes "list_all (\<lambda>r. \<not> is_cjk r) (runes s)"
  shows "count_words_mixed s = length (str_fields s)"
  using mixed_fields [of "rune_chunks s" 0 "[]"] assms
  by (auto simp: count_words_mixed_words_of str_fields_def runes_def list_all_iff
      dest: rune_chunks_not_Nil)

lemma count_words_mixed_is_fields_witness:
  "count_words_mixed ''core search  modes'' = length (str_fields ''core search  modes'')"
  by (rule count_words_mixed_is_fields) code_simp

text \<open>In a text of Han characters every character counts as two words: the branch that opens a
  word for a character that is not white space runs before the branch for Han characters.\<close>

theorem han_characters_count_twice:
  assumes "list_all is_cjk (runes s)"
  shows "count_words_mixed s = 2 * rune_count s"
  using assms
  by (simp add: count_words_mixed_words_of mixed_cjk list_all_iff words_of_def rune_count_def)

lemma han_characters_count_twice_witness:
  "count_words_mixed (encode_runes [0x4F60, 0x597D]) = 2 * rune_count (encode_runes [0x4F60, 0x597D])"
  by (rule han_characters_count_twice) code_simp

end
