(* ===== verification/Router.thy ===== *)
theory Router
  imports Text_Util
begin

text \<open>
  The query router (\<open>router/router.go\<close>). A mode is a string, as in the source: the
  orchestrator also passes on modes that the router does not know. The Chinese words are given by
  their code points.
\<close>

definition mode_search :: string where "mode_search = ''search''"
definition mode_vsearch :: string where "mode_vsearch = ''vsearch''"
definition mode_query :: string where "mode_query = ''query''"
definition mode_auto :: string where "mode_auto = ''auto''"

lemmas mode_defs = mode_search_def mode_vsearch_def mode_query_def mode_auto_def

lemma modes_distinct [simp]:
  "mode_search \<noteq> mode_vsearch" "mode_search \<noteq> mode_query" "mode_vsearch \<noteq> mode_query"
  "mode_vsearch \<noteq> mode_search" "mode_query \<noteq> mode_search" "mode_query \<noteq> mode_vsearch"
  "mode_auto \<noteq> mode_search" "mode_auto \<noteq> mode_vsearch" "mode_auto \<noteq> mode_query"
  "mode_search \<noteq> mode_auto" "mode_vsearch \<noteq> mode_auto" "mode_query \<noteq> mode_auto"
  "mode_search \<noteq> []" "mode_vsearch \<noteq> []" "mode_query \<noteq> []" "mode_auto \<noteq> []"
  by (simp_all add: mode_defs)

text \<open>Does the pattern of a quoted phrase (quote, other bytes, quote) match anywhere?\<close>

fun has_quoted :: "string \<Rightarrow> bool" where
  "has_quoted [] = False"
| "has_quoted (c # cs) =
     ((c = CHR 0x22 \<and>
       (let b = takeWhile (\<lambda>c. c \<noteq> CHR 0x22) cs in b \<noteq> [] \<and> length b < length cs)) \<or>
      has_quoted cs)"

definition question_prefix :: "string list" where
  "question_prefix =
     [encode_runes [0x5982, 0x4F55], encode_runes [0x600E, 0x4E48],
      encode_runes [0x600E, 0x6837], encode_runes [0x4EC0, 0x4E48],
      encode_runes [0x4E3A, 0x4EC0, 0x4E48], encode_runes [0x4E3A, 0x4F55],
      encode_runes [0x54EA, 0x4E9B], encode_runes [0x54EA, 0x4E2A],
      encode_runes [0x54EA, 0x91CC], encode_runes [0x8C01],
      encode_runes [0x591A, 0x5C11], encode_runes [0x662F, 0x5426],
      encode_runes [0x80FD, 0x4E0D, 0x80FD], encode_runes [0x53EF, 0x4EE5],
      encode_runes [0x5E94, 0x8BE5]]"

definition temporal_words :: "string list" where
  "temporal_words =
     [encode_runes [0x4E4B, 0x524D], encode_runes [0x4E0A, 0x6B21],
      encode_runes [0x6628, 0x5929], encode_runes [0x4ECA, 0x5929],
      encode_runes [0x6700, 0x8FD1], encode_runes [0x8FC7, 0x53BB],
      encode_runes [0x4EE5, 0x524D], encode_runes [0x5386, 0x53F2],
      encode_runes [0x66FE, 0x7ECF], ''earlier'',
      ''previous'', ''last time'']"

definition is_predominantly_ascii :: "string \<Rightarrow> bool" where
  "is_predominantly_ascii s =
     (let visible = filter (\<lambda>r. \<not> rune_is_space r) (runes s);
          n_ascii = length (filter (\<lambda>r. r < 128) visible);
          n_total = length visible
      in if n_total = 0 then True else (of_nat n_ascii / of_nat n_total :: rat) > 8 / 10)"

definition wants_deep :: "string \<Rightarrow> nat \<Rightarrow> bool" where
  "wants_deep query n =
     (list_ex (\<lambda>p. has_prefix query p) question_prefix \<or>
      list_ex (\<lambda>w. str_contains query w) temporal_words \<or> 8 < n)"

definition detect_mode :: "string \<Rightarrow> bool \<Rightarrow> bool \<Rightarrow> string" where
  "detect_mode query has_vector has_deep_query =
     (let query = trim_space query in
      if query = [] then mode_search
      else if has_quoted query then mode_search
      else
        let n_words = count_words_mixed query in
        if n_words \<le> 3 \<and> is_predominantly_ascii query then mode_search
        else if has_deep_query \<and> wants_deep query n_words then mode_query
        else if has_vector \<and> 4 \<le> n_words then mode_vsearch
        else if has_vector \<and> \<not> is_predominantly_ascii query \<and> 2 \<le> n_words then mode_vsearch
        else mode_search)"

subsection \<open>Properties\<close>

lemma has_quoted_iff:
  "has_quoted s \<longleftrightarrow> (\<exists>a b c. s = a @ CHR 0x22 # b @ CHR 0x22 # c \<and> b \<noteq> [] \<and> CHR 0x22 \<notin> set b)"
proof (induction s)
  case (Cons x xs)
  have tw: "(let b = takeWhile (\<lambda>c. c \<noteq> CHR 0x22) xs in b \<noteq> [] \<and> length b < length xs) \<longleftrightarrow>
      (\<exists>b c. xs = b @ CHR 0x22 # c \<and> b \<noteq> [] \<and> CHR 0x22 \<notin> set b)" (is "?l \<longleftrightarrow> ?r")
  proof
    let ?b = "takeWhile (\<lambda>c. c \<noteq> CHR 0x22) xs"
    assume ?l
    then have b: "?b \<noteq> []" "length ?b < length xs" by (auto simp: Let_def)
    then obtain c cs where d: "dropWhile (\<lambda>c. c \<noteq> CHR 0x22) xs = c # cs"
      by (metis append_Nil2 less_irrefl list.exhaust takeWhile_dropWhile_id)
    then have "c = CHR 0x22" by (metis (mono_tags) dropWhile_eq_Cons_conv)
    then have "xs = ?b @ CHR 0x22 # cs" using d by (metis takeWhile_dropWhile_id)
    moreover have "CHR 0x22 \<notin> set ?b" by (auto dest: set_takeWhileD)
    ultimately show ?r using b by blast
  next
    assume ?r
    then obtain b c where "xs = b @ CHR 0x22 # c" "b \<noteq> []" "CHR 0x22 \<notin> set b" by blast
    moreover from this have "takeWhile (\<lambda>c. c \<noteq> CHR 0x22) xs = b"
      by (auto simp: takeWhile_append)
    ultimately show ?l by (simp add: Let_def)
  qed
  show ?case
    unfolding has_quoted.simps tw Cons
    by (auto simp: Cons_eq_append_conv)
qed simp

lemma detect_mode_deep_iff:
  "detect_mode q v True = mode_query \<longleftrightarrow>
     trim_space q \<noteq> [] \<and> \<not> has_quoted (trim_space q) \<and>
     \<not> (count_words_mixed (trim_space q) \<le> 3 \<and> is_predominantly_ascii (trim_space q)) \<and>
     wants_deep (trim_space q) (count_words_mixed (trim_space q))"
  by (auto simp: detect_mode_def Let_def)

text \<open>The router answers with one of three modes, and only with a mode whose capability is
  there. A query that holds a phrase between two quote characters is keyword search, whatever the
  capabilities, and so is a query of at most three words that is mostly ASCII.\<close>

theorem detect_mode_respects_capabilities:
  "detect_mode q v d \<in> {mode_search} \<union> (if v then {mode_vsearch} else {}) \<union> (if d then {mode_query} else {}) \<and>
   (trim_space q = a @ CHR 0x22 # b @ CHR 0x22 # c \<and> b \<noteq> [] \<and> CHR 0x22 \<notin> set b \<longrightarrow>
     detect_mode q v d = mode_search) \<and>
   (count_words_mixed (trim_space q) \<le> 3 \<and> is_predominantly_ascii (trim_space q) \<longrightarrow>
     detect_mode q v d = mode_search)"
  using has_quoted_iff [of "trim_space q"] by (auto simp: detect_mode_def Let_def)

lemma detect_mode_respects_capabilities_witness:
  "detect_mode ''find an \"exact phrase\" in earlier notes'' True True = mode_search"
proof -
  have "trim_space ''find an \"exact phrase\" in earlier notes'' =
      ''find an '' @ CHR 0x22 # ''exact phrase'' @ CHR 0x22 # '' in earlier notes''"
    by code_simp
  with detect_mode_respects_capabilities [of "''find an \"exact phrase\" in earlier notes''" True True
      "''find an ''" "''exact phrase''" "'' in earlier notes''"]
  show ?thesis by simp
qed

text \<open>Five Han characters that ask nothing are ten words for the router, and so
  already a deep query; the same number of English words is a vector search.\<close>

theorem five_han_characters_are_deep:
  "detect_mode (encode_runes [0x7F51, 0x7EDC, 0x67B6, 0x6784, 0x56FE]) True True = mode_query \<and>
   detect_mode ''wide area network architecture diagram'' True True = mode_vsearch"
  by code_simp

end
