(* ===== verification/Go_Path.thy ===== *)
theory Go_Path
  imports Go_Strings
begin

text \<open>
  Paths: \<open>filepath.Clean\<close>, \<open>Dir\<close>, \<open>Base\<close>, \<open>Join\<close> and \<open>Match\<close> on a Unix system, and
  \<open>os.ExpandEnv\<close>. \<open>Clean\<close> works on the list of components between slashes; \<open>Match\<close> follows the
  chunks of the source of the Go library, a malformed pattern being \<open>None\<close>.
\<close>

abbreviation slash :: char where "slash \<equiv> CHR ''/''"

subsection \<open>Clean, Dir, Base, Join\<close>

text \<open>The components kept so far, the last one first.\<close>

definition clean_step :: "bool \<Rightarrow> string \<Rightarrow> string list \<Rightarrow> string list" where
  "clean_step rooted c acc =
     (if c = [] \<or> c = ''.'' then acc
      else if c = ''..'' then
        (case acc of
           a # acc' \<Rightarrow> if a = ''..'' then c # acc else acc'
         | [] \<Rightarrow> if rooted then [] else [c])
      else c # acc)"

definition path_rooted :: "string \<Rightarrow> bool" where
  "path_rooted p \<longleftrightarrow> p \<noteq> [] \<and> hd p = slash"

definition path_clean :: "string \<Rightarrow> string" where
  "path_clean p =
     (let cs = rev (fold (clean_step (path_rooted p)) (split_on slash p) [])
      in if path_rooted p then slash # join [slash] cs
         else if cs = [] then ''.'' else join [slash] cs)"

text \<open>What stands up to the last slash, that slash included.\<close>

definition dir_prefix :: "string \<Rightarrow> string" where
  "dir_prefix p = rev (dropWhile (\<lambda>c. c \<noteq> slash) (rev p))"

definition path_dir :: "string \<Rightarrow> string" where
  "path_dir p = path_clean (dir_prefix p)"

definition path_base :: "string \<Rightarrow> string" where
  "path_base p =
     (if p = [] then ''.''
      else
        let q = rev (dropWhile (\<lambda>c. c = slash) (rev p));
            b = rev (takeWhile (\<lambda>c. c \<noteq> slash) (rev q))
        in if b = [] then ''/'' else b)"

definition path_join2 :: "string \<Rightarrow> string \<Rightarrow> string" where
  "path_join2 a b =
     (if a \<noteq> [] then path_clean (if b = [] then a else a @ [slash] @ b)
      else if b \<noteq> [] then path_clean b else [])"

text \<open>\<open>Clean\<close> is idempotent and never lengthens a path, so climbing with \<open>Dir\<close> ends.\<close>

definition comp_ok :: "string \<Rightarrow> bool" where
  "comp_ok c \<longleftrightarrow> c \<noteq> [] \<and> c \<noteq> ''.'' \<and> slash \<notin> set c"

text \<open>A cleaned stack: proper components, and \<open>..\<close> only at the bottom, never under a root.\<close>

fun stack_ok :: "bool \<Rightarrow> string list \<Rightarrow> bool" where
  "stack_ok rooted [] = True"
| "stack_ok rooted (c # cs) \<longleftrightarrow>
     comp_ok c \<and> stack_ok rooted cs \<and> (c = ''..'' \<longrightarrow> \<not> rooted \<and> (cs = [] \<or> hd cs = ''..''))"

lemma split_on_no_slash: "c \<in> set (split_on d s) \<Longrightarrow> d \<notin> set c"
proof (induction s arbitrary: c)
  case (Cons x s)
  then show ?case by (auto split: list.splits if_splits)
qed simp

lemma clean_step_ok:
  assumes "stack_ok rooted acc" and "slash \<notin> set c"
  shows "stack_ok rooted (clean_step rooted c acc)"
  using assms by (cases acc) (auto simp: clean_step_def comp_ok_def)

lemma clean_fold_ok:
  "stack_ok rooted acc \<Longrightarrow> \<forall>c\<in>set cs. slash \<notin> set c \<Longrightarrow> stack_ok rooted (fold (clean_step rooted) cs acc)"
  by (induction cs arbitrary: acc) (auto simp: clean_step_ok)

lemma stack_ok_append: "stack_ok rooted (xs @ ys) \<Longrightarrow> stack_ok rooted ys"
  by (induction xs) auto

lemma clean_step_id: "stack_ok rooted (c # acc) \<Longrightarrow> clean_step rooted c acc = c # acc"
  by (cases acc) (auto simp: clean_step_def comp_ok_def)

text \<open>Cleaning the components of a cleaned stack gives the stack back.\<close>

lemma clean_fold_id:
  "stack_ok rooted (rev cs @ acc) \<Longrightarrow> fold (clean_step rooted) cs acc = rev cs @ acc"
proof (induction cs arbitrary: acc)
  case (Cons c cs)
  have "stack_ok rooted (c # acc)" using Cons(2) stack_ok_append [of rooted "rev cs" "c # acc"] by simp
  with Cons show ?case by (simp add: clean_step_id)
qed simp

lemma stack_ok_comps: "stack_ok rooted cs \<Longrightarrow> c \<in> set cs \<Longrightarrow> comp_ok c"
  by (induction cs) auto

definition path_stack :: "string \<Rightarrow> string list" where
  "path_stack p = fold (clean_step (path_rooted p)) (split_on slash p) []"

lemma path_stack_ok: "stack_ok (path_rooted p) (path_stack p)"
  unfolding path_stack_def by (rule clean_fold_ok) (auto dest: split_on_no_slash)

lemma path_clean_stack:
  "path_clean p =
     (if path_rooted p then slash # join [slash] (rev (path_stack p))
      else if path_stack p = [] then ''.'' else join [slash] (rev (path_stack p)))"
  by (simp add: path_clean_def path_stack_def Let_def)

lemma stack_of_join:
  assumes "stack_ok rooted st" and "st \<noteq> []"
  shows "fold (clean_step rooted) (split_on slash (join [slash] (rev st))) [] = st"
proof -
  have "\<forall>c\<in>set (rev st). slash \<notin> set c"
    using stack_ok_comps [OF assms(1)] by (auto simp: comp_ok_def)
  then have "split_on slash (join [slash] (rev st)) = rev st"
    using assms(2) by (intro split_on_join) auto
  with clean_fold_id [of rooted "rev st" "[]"] assms(1) show ?thesis by simp
qed

lemma path_stack_rooted: "path_stack (slash # q) = fold (clean_step True) (split_on slash q) []"
  by (simp add: path_stack_def path_rooted_def clean_step_def)

lemma hd_join: "xs \<noteq> [] \<Longrightarrow> hd xs \<noteq> [] \<Longrightarrow> join d xs \<noteq> [] \<and> hd (join d xs) = hd (hd xs)"
  by (induction d xs rule: join.induct) auto

lemma path_clean_roots: "path_clean [slash] = [slash]" "path_clean ''.'' = ''.''"
  by (simp_all add: path_clean_def path_rooted_def clean_step_def)

lemma path_clean_idem: "path_clean (path_clean p) = path_clean p"
proof (cases "path_stack p = []")
  case True
  then have "path_clean p = [slash] \<or> path_clean p = ''.''" by (simp add: path_clean_stack)
  then show ?thesis using path_clean_roots by auto
next
  case False
  let ?cs = "rev (path_stack p)"
  have hd: "hd ?cs \<noteq> []" "slash \<notin> set (hd ?cs)"
    using stack_ok_comps [OF path_stack_ok, of "hd ?cs" p] False hd_in_set [of ?cs]
    by (auto simp: comp_ok_def)
  have j: "join [slash] ?cs \<noteq> []" "hd (join [slash] ?cs) \<noteq> slash"
    using hd_join [of ?cs "[slash]"] hd False by (auto simp: hd_in_set) (metis hd_in_set)
  show ?thesis
  proof (cases "path_rooted p")
    case True
    then have c: "path_clean p = slash # join [slash] ?cs" by (simp add: path_clean_stack)
    have "path_stack (path_clean p) = path_stack p"
      using stack_of_join [OF path_stack_ok False] True by (simp add: c path_stack_rooted)
    then show ?thesis using c by (simp add: path_clean_stack path_rooted_def)
  next
    case nr: False
    then have c: "path_clean p = join [slash] ?cs" using False by (simp add: path_clean_stack)
    then have r: "\<not> path_rooted (path_clean p)" using j by (simp add: path_rooted_def)
    have "path_stack (path_clean p) = path_stack p"
      using stack_of_join [OF path_stack_ok False] nr r
      by (simp add: c) (simp add: path_stack_def [of "join _ _"])
    then show ?thesis using c r False by (simp add: path_clean_stack)
  qed
qed

definition comps_size :: "string list \<Rightarrow> nat" where
  "comps_size cs = sum_list (map (\<lambda>c. Suc (length c)) cs)"

lemma comps_size_simps [simp]:
  "comps_size [] = 0" "comps_size (c # cs) = Suc (length c) + comps_size cs"
  "comps_size (cs @ ds) = comps_size cs + comps_size ds" "comps_size (rev cs) = comps_size cs"
  by (simp_all add: comps_size_def flip: rev_map)

lemma comps_size_split: "comps_size (split_on d s) = Suc (length s)"
  by (induction s) (auto split: list.split)

lemma length_join: "cs \<noteq> [] \<Longrightarrow> Suc (length (join [d] cs)) = comps_size cs"
  by (induction "[d]" cs rule: join.induct) auto

lemma comps_size_clean_step: "comps_size (clean_step r c acc) \<le> Suc (length c) + comps_size acc"
  by (cases acc) (auto simp: clean_step_def)

lemma comps_size_clean_fold:
  "comps_size (fold (clean_step r) cs acc) \<le> comps_size cs + comps_size acc"
proof (induction cs arbitrary: acc)
  case (Cons c cs)
  from Cons [of "clean_step r c acc"] comps_size_clean_step [of r c acc] show ?case by simp
qed simp

lemma length_path_clean: "length (path_clean p) \<le> max 1 (length p)"
proof (cases "path_rooted p")
  case True
  then obtain q where p: "p = slash # q" by (cases p) (auto simp: path_rooted_def)
  have "comps_size (path_stack p) \<le> Suc (length q)"
    using comps_size_clean_fold [of "path_rooted p" "split_on slash q" "[]"]
    by (simp add: path_stack_def p clean_step_def comps_size_split)
  then show ?thesis
    using True length_join [of "rev (path_stack p)" slash] p
    by (cases "path_stack p = []") (simp_all add: path_clean_stack)
next
  case False
  have "comps_size (path_stack p) \<le> Suc (length p)"
    using comps_size_clean_fold [of "path_rooted p" "split_on slash p" "[]"]
    by (simp add: path_stack_def comps_size_split)
  then show ?thesis
    using False length_join [of "rev (path_stack p)" slash]
    by (cases "path_stack p = []") (auto simp add: path_clean_stack)
qed

lemma split_on_snoc: "split_on d (s @ [d]) = split_on d s @ [[]]"
  by (induction s) (auto split: list.split)

lemma path_clean_trailing: "x \<noteq> [] \<Longrightarrow> path_clean (x @ [slash]) = path_clean x"
  by (simp add: path_clean_def split_on_snoc clean_step_def path_rooted_def)

lemma dir_prefix_cases: "dir_prefix p = [] \<or> (\<exists>x y. dir_prefix p = x @ [slash] \<and> p = x @ slash # y)"
proof (cases "dropWhile (\<lambda>c. c \<noteq> slash) (rev p)")
  case (Cons c x)
  then have "c = slash" using hd_dropWhile [of "\<lambda>c. c \<noteq> slash" "rev p"] by auto
  then have "rev p = takeWhile (\<lambda>c. c \<noteq> slash) (rev p) @ slash # x"
    using takeWhile_dropWhile_id [of "\<lambda>c. c \<noteq> slash" "rev p"] Cons by simp
  from arg_cong [OF this, of rev] have "p = rev x @ slash # rev (takeWhile (\<lambda>c. c \<noteq> slash) (rev p))"
    by (simp only: rev_append rev.simps rev_rev_ident append_assoc append_Cons append_Nil)
  then show ?thesis using Cons \<open>c = slash\<close> by (auto simp: dir_prefix_def)
qed (simp add: dir_prefix_def)

lemma path_dir_shrinks: "path_dir p = ''.'' \<or> path_dir p = ''/'' \<or> length (path_dir p) < length p"
proof -
  consider "dir_prefix p = []" | y where "dir_prefix p = [slash]" "p = slash # y"
    | x y where "dir_prefix p = x @ [slash]" "p = x @ slash # y" "x \<noteq> []"
    using dir_prefix_cases [of p] by (metis append_Nil)
  then show ?thesis
  proof cases
    case 1
    then show ?thesis by (simp add: path_dir_def) (simp add: path_clean_def path_rooted_def clean_step_def)
  next
    case 2
    then show ?thesis by (simp add: path_dir_def) (simp add: path_clean_def path_rooted_def clean_step_def)
  next
    case (3 x y)
    have "path_dir p = path_clean x" unfolding path_dir_def 3(1) using 3(3) by (rule path_clean_trailing)
    moreover have "length (path_clean x) \<le> max 1 (length x)" by (rule length_path_clean)
    moreover have "1 \<le> length x" using 3(3) by (cases x) auto
    ultimately show ?thesis using 3(2) by simp
  qed
qed

text \<open>The directories above \<open>d\<close>, \<open>d\<close> first, up to the working or the root directory.\<close>

function dir_chain :: "string \<Rightarrow> string list" where
  "dir_chain d = (if d = ''.'' \<or> d = ''/'' then [] else d # dir_chain (path_dir d))"
  by pat_completeness auto
termination
proof (relation "measure (\<lambda>d. if d = ''.'' \<or> d = ''/'' then 0 else Suc (length d))", simp)
  fix d :: string assume "\<not> (d = ''.'' \<or> d = ''/'')"
  then show "(path_dir d, d) \<in> measure (\<lambda>d. if d = ''.'' \<or> d = ''/'' then 0 else Suc (length d))"
    using path_dir_shrinks [of d] by auto
qed

declare dir_chain.simps [simp del]

subsection \<open>Match\<close>

text \<open>The length of a chunk: up to the next star outside a character class.\<close>

fun chunk_len :: "bool \<Rightarrow> string \<Rightarrow> nat" where
  "chunk_len cls [] = 0"
| "chunk_len cls (c # cs) =
     (if c = CHR 0x5C then (case cs of [] \<Rightarrow> 1 | _ # cs' \<Rightarrow> 2 + chunk_len cls cs')
      else if c = CHR ''['' then Suc (chunk_len True cs)
      else if c = CHR '']'' then Suc (chunk_len False cs)
      else if c = CHR ''*'' \<and> \<not> cls then 0
      else Suc (chunk_len cls cs))"

definition scan_chunk :: "string \<Rightarrow> bool \<times> string \<times> string" where
  "scan_chunk pat =
     (let p = dropWhile (\<lambda>c. c = CHR ''*'') pat; n = chunk_len False p
      in (p \<noteq> pat, take n p, drop n p))"

text \<open>One character of a class; the chunk must go on after it.\<close>

definition get_esc :: "string \<Rightarrow> (rune \<times> string) option" where
  "get_esc chunk =
     (if chunk = [] \<or> hd chunk = CHR ''-'' \<or> hd chunk = CHR '']'' then None
      else
        let chunk = (if hd chunk = CHR 0x5C then tl chunk else chunk)
        in if chunk = [] then None
           else
             let (r, n) = decode_rune chunk
             in if r = rune_error \<and> n = 1 then None
                else if drop n chunk = [] then None
                else Some (r, drop n chunk))"

lemma get_esc_shrinks: "get_esc chunk = Some (r, rest) \<Longrightarrow> length rest < length chunk"
  using decode_rune_width [of chunk] decode_rune_width [of "tl chunk"]
  by (cases chunk) (auto simp: get_esc_def Let_def split: if_splits prod.splits)

text \<open>The ranges of a class: was the rune in one of them, and what follows the class.\<close>

function match_ranges :: "rune \<Rightarrow> bool \<Rightarrow> nat \<Rightarrow> string \<Rightarrow> (bool \<times> string) option" where
  "match_ranges r found n chunk =
     (if chunk \<noteq> [] \<and> hd chunk = CHR '']'' \<and> 0 < n then Some (found, tl chunk)
      else
        case get_esc chunk of
          None \<Rightarrow> None
        | Some (lo, chunk1) \<Rightarrow>
            (case (if hd chunk1 = CHR ''-'' then get_esc (tl chunk1) else Some (lo, chunk1)) of
               None \<Rightarrow> None
             | Some (hi, chunk2) \<Rightarrow>
                 match_ranges r (found \<or> (lo \<le> r \<and> r \<le> hi)) (n + 1) chunk2))"
  by pat_completeness auto
termination
proof (relation "measure (\<lambda>(r, f, n, c). length c)", simp)
  fix r :: rune and found :: bool and n :: nat and chunk p lo chunk1 q hi chunk2
  assume a: "get_esc chunk = Some p" "(lo, chunk1) = p"
    and b: "(if hd chunk1 = CHR ''-'' then get_esc (tl chunk1) else Some (lo, chunk1)) = Some q"
      "(hi, chunk2) = q"
  have "length chunk1 < length chunk" using a by (metis get_esc_shrinks)
  moreover have "length chunk2 \<le> length chunk1"
    using b get_esc_shrinks [of "tl chunk1" hi chunk2] by (auto split: if_splits)
  ultimately show "((r, found \<or> (lo \<le> r \<and> r \<le> hi), n + 1, chunk2), (r, found, n, chunk))
      \<in> measure (\<lambda>(r, f, n, c). length c)" by simp
qed

declare match_ranges.simps [simp del]

lemma match_ranges_shrinks: "match_ranges r found n chunk = Some (b, rest) \<Longrightarrow> length rest < length chunk"
proof (induction r found n chunk rule: match_ranges.induct)
  case (1 r found n chunk)
  show ?case
  proof (cases "chunk \<noteq> [] \<and> hd chunk = CHR '']'' \<and> 0 < n")
    case True
    then show ?thesis using 1(2) by (cases chunk) (auto simp: match_ranges.simps [of r found n])
  next
    case False
    then obtain lo chunk1 hi chunk2 where g: "get_esc chunk = Some (lo, chunk1)"
      "(if hd chunk1 = CHR ''-'' then get_esc (tl chunk1) else Some (lo, chunk1)) = Some (hi, chunk2)"
      "match_ranges r (found \<or> (lo \<le> r \<and> r \<le> hi)) (n + 1) chunk2 = Some (b, rest)"
      using 1(2) by (auto simp: match_ranges.simps [of r found n] split: option.splits prod.splits)
    have "length rest < length chunk2" using 1(1) [OF False g(1) refl g(2) refl g(3)] .
    moreover have "length chunk2 \<le> length chunk1"
      using g(2) get_esc_shrinks [of "tl chunk1" hi chunk2] by (auto split: if_splits)
    ultimately show ?thesis using get_esc_shrinks [OF g(1)] by simp
  qed
qed

text \<open>
  \<open>matchChunk\<close>: \<open>None\<close> is a malformed chunk, \<open>Some None\<close> no match, \<open>Some (Some rest)\<close> a match
  that leaves \<open>rest\<close>. The boolean is the source's \<open>failed\<close>, with which the rest of the chunk is still read.
\<close>

function match_chunk :: "bool \<Rightarrow> string \<Rightarrow> string \<Rightarrow> string option option" where
  "match_chunk failed [] s = (if failed then Some None else Some (Some s))"
| "match_chunk failed (c # cs) s =
     (let failed = failed \<or> s = [] in
      if c = CHR ''['' then
        let (r, n) = (if failed then (0, 0) else decode_rune s);
            negated = (cs \<noteq> [] \<and> hd cs = CHR ''^'');
            body = (if negated then tl cs else cs)
        in (case match_ranges r False 0 body of
              None \<Rightarrow> None
            | Some (found, rest) \<Rightarrow> match_chunk (failed \<or> found = negated) rest (drop n s))
      else if c = CHR ''?'' then
        match_chunk (failed \<or> hd s = slash) cs (if failed then s else drop (snd (decode_rune s)) s)
      else if c = CHR 0x5C then
        (case cs of
           [] \<Rightarrow> None
         | d # ds \<Rightarrow> match_chunk (failed \<or> d \<noteq> hd s) ds (if failed then s else tl s))
      else match_chunk (failed \<or> c \<noteq> hd s) cs (if failed then s else tl s))"
  by pat_completeness auto
termination
proof (relation "measure (\<lambda>(f, c, s). length c)", simp, goal_cases)
  case (1 failed c cs s f p r n negated body q found rest)
  have "match_ranges r False 0 body = Some (found, rest)" using 1 by metis
  from match_ranges_shrinks [OF this] show ?case using 1 by (auto split: if_splits)
qed auto

declare match_chunk.simps [simp del]

text \<open>
  \<open>path_match pat name\<close> is \<open>filepath.Match\<close>: no error and a match. With a star in front of a chunk
  the chunk may start later in the name, as long as no slash is skipped. A failed match also
  checks the rest of the pattern in the source, which only turns a plain \<open>false\<close> into an error.
\<close>

fun star_tries :: "string \<Rightarrow> bool \<Rightarrow> string \<Rightarrow> string option option" where
  "star_tries chunk last_chunk [] = Some None"
| "star_tries chunk last_chunk (c # name) =
     (if c = slash then Some None
      else case match_chunk False chunk name of
          None \<Rightarrow> None
        | Some (Some t) \<Rightarrow>
            if last_chunk \<and> t \<noteq> [] then star_tries chunk last_chunk name else Some (Some t)
        | Some None \<Rightarrow> star_tries chunk last_chunk name)"

lemma scan_chunk_shrinks:
  "pat \<noteq> [] \<Longrightarrow> scan_chunk pat = (star, chunk, rest) \<Longrightarrow> length rest < length pat"
proof -
  assume a: "pat \<noteq> []" "scan_chunk pat = (star, chunk, rest)"
  let ?p = "dropWhile (\<lambda>c. c = CHR ''*'') pat"
  have rest: "rest = drop (chunk_len False ?p) ?p" using a(2) by (auto simp: scan_chunk_def Let_def)
  obtain c cs where pat: "pat = c # cs" using a(1) by (cases pat) auto
  show ?thesis
  proof (cases "c = CHR ''*''")
    case True
    then show ?thesis using rest length_dropWhile_le [of "\<lambda>c. c = CHR ''*''" cs] by (simp add: pat)
  next
    case False
    then have "0 < chunk_len False pat" by (auto simp: pat split: list.split)
    moreover have "?p = pat" using False by (simp add: pat)
    ultimately show ?thesis unfolding rest using a(1) by (cases pat) auto
  qed
qed

definition chunk_next :: "bool \<Rightarrow> string \<Rightarrow> bool \<Rightarrow> string \<Rightarrow> string option" where
  "chunk_next star chunk last_chunk name =
     (case match_chunk False chunk name of
        None \<Rightarrow> None
      | Some m \<Rightarrow>
          (case m of
             Some t \<Rightarrow>
               if t = [] \<or> \<not> last_chunk then Some t
               else if star then Option.bind (star_tries chunk last_chunk name) id else None
           | None \<Rightarrow> if star then Option.bind (star_tries chunk last_chunk name) id else None))"

function path_match :: "string \<Rightarrow> string \<Rightarrow> bool" where
  "path_match pat name =
     (if pat = [] then name = []
      else
        let (star, chunk, rest) = scan_chunk pat in
        if star \<and> chunk = [] then slash \<notin> set name
        else case chunk_next star chunk (rest = []) name of
            None \<Rightarrow> False
          | Some t \<Rightarrow> path_match rest t)"
  by pat_completeness auto
termination
proof (relation "measure (\<lambda>(p, n). length p)", simp, goal_cases)
  case (1 pat name sc star cr chunk rest t)
  then have "scan_chunk pat = (star, chunk, rest)" by simp
  from scan_chunk_shrinks [OF 1(1) this] show ?case by simp
qed

declare path_match.simps [simp del]

end
