(* ===== verification/Config.thy ===== *)
theory Config
  imports Cache Go_Path
begin

text \<open>
  The configuration (\<open>config/config.go\<close>): its records, the defaults, the low-resource profile,
  validation and path expansion. The operating system is a record of what the code asks it; the
  YAML decoder is a parameter of \<open>load_config\<close>.
\<close>

subsection \<open>Records\<close>

record qmd_config =
  qc_bin :: string
  qc_index_db :: string
  qc_mcp_port :: int

record server_config =
  sv_grpc_listen :: string
  sv_security_model :: string

record collection_cfg =
  cl_name :: string
  cl_path :: string
  cl_mask :: string
  cl_exclude :: "string list"
  cl_context :: string
  cl_tier :: int
  cl_embed :: bool
  cl_require_explicit :: bool
  cl_safety_prompt :: bool

record search_config =
  sc_default_mode :: string
  sc_coarse_k :: int
  sc_top_k :: int
  sc_min_score :: f64
  sc_max_chars :: int
  sc_files_all_max_hits :: int
  sc_fallback_enabled :: bool

record scheduler_config =
  sd_index_refresh :: duration
  sd_embed_refresh :: duration
  sd_embed_full_refresh :: duration
  sd_cache_cleanup :: duration

record guardian_config =
  gd_check_interval :: duration
  gd_timeout :: duration
  gd_restart_max_retries :: int

record logging_config =
  lg_level :: string
  lg_file :: string
  lg_max_size :: string
  lg_max_backups :: int

record runtime_config =
  rt_low_resource_mode :: bool
  rt_allow_cpu_deep_query :: bool
  rt_allow_cpu_vsearch :: bool
  rt_smart_routing :: bool
  rt_cpu_deep_min_words :: int
  rt_cpu_deep_min_chars :: int
  rt_cpu_deep_max_words :: int
  rt_cpu_deep_max_chars :: int
  rt_cpu_deep_max_abstract_cues :: int
  rt_query_max_concurrency :: int
  rt_query_timeout :: duration
  rt_deep_fail_timeout :: duration
  rt_deep_negative_ttl :: duration
  rt_deep_negative_scope_cooldown :: duration
  rt_cpu_overload_protect :: bool
  rt_cpu_overload_threshold :: int
  rt_cpu_overload_sustain :: duration
  rt_cpu_recover_threshold :: int
  rt_cpu_recover_sustain :: duration
  rt_cpu_critical_threshold :: int
  rt_cpu_critical_sustain :: duration
  rt_overload_max_concurrent_search :: int
  rt_cpu_sample_interval :: duration

record config =
  cf_qmd :: qmd_config
  cf_server :: server_config
  cf_collections :: "collection_cfg list"
  cf_search :: search_config
  cf_cache :: cache_config
  cf_scheduler :: scheduler_config
  cf_guardian :: guardian_config
  cf_logging :: logging_config
  cf_runtime :: runtime_config

record os_env =
  os_getenv :: "string \<Rightarrow> string"
  os_user_home_dir :: "string result"
  os_stat :: "string \<Rightarrow> goerr option"
  os_read_file :: "string \<Rightarrow> string result"

subsection \<open>Path expansion\<close>

text \<open>\<open>os.ExpandEnv\<close>: the variable name after a dollar and the bytes it takes.\<close>

definition shell_special :: "char \<Rightarrow> bool" where
  "shell_special c \<longleftrightarrow> c \<in> set ''*#$@!?-'' \<or> is_digit c"

definition shell_alnum :: "char \<Rightarrow> bool" where
  "shell_alnum c \<longleftrightarrow> c = CHR ''_'' \<or> is_digit c \<or> (65 \<le> byte_of c \<and> byte_of c \<le> 90) \<or>
     (97 \<le> byte_of c \<and> byte_of c \<le> 122)"

definition shell_name :: "string \<Rightarrow> string \<times> nat" where
  "shell_name s =
     (if hd s = CHR ''{'' then
        if 2 < length s \<and> shell_special (s ! 1) \<and> s ! 2 = CHR ''}'' then ([s ! 1], 3)
        else
          let body = takeWhile (\<lambda>c. c \<noteq> CHR ''}'') (tl s)
          in if length body = length (tl s) then ([], 1)
             else if body = [] then ([], 2) else (body, length body + 2)
      else if shell_special (hd s) then ([hd s], 1)
      else let name = takeWhile shell_alnum s in (name, length name))"

function expand_env :: "(string \<Rightarrow> string) \<Rightarrow> string \<Rightarrow> string" where
  "expand_env getenv [] = []"
| "expand_env getenv (c # cs) =
     (if c = CHR 0x24 \<and> cs \<noteq> [] then
        let (name, w) = shell_name cs
        in (if name = [] then (if 0 < w then [] else [c]) else getenv name) @ expand_env getenv (drop w cs)
      else c # expand_env getenv cs)"
  by pat_completeness auto
termination
  by (relation "measure (\<lambda>(g, s). length s)") auto

definition expand_path :: "os_env \<Rightarrow> string \<Rightarrow> string" where
  "expand_path env p =
     (let p = expand_env (os_getenv env) p;
          p = (if has_prefix p ''~/'' then
                 (case os_user_home_dir env of Inr home \<Rightarrow> path_join2 home (drop 2 p) | Inl _ \<Rightarrow> p)
               else p)
      in path_clean p)"

definition expand_clean :: "os_env \<Rightarrow> string \<Rightarrow> string" where
  "expand_clean env p = (if p = [] then [] else expand_path env p)"

subsection \<open>Defaults\<close>

definition default_int :: "int \<Rightarrow> int \<Rightarrow> int" where
  "default_int d x = (if x = 0 then d else x)"

definition default_str :: "string \<Rightarrow> string \<Rightarrow> string" where
  "default_str d x = (if x = [] then d else x)"

text \<open>The float64 nearest to 0.3.\<close>

definition float_03 :: f64 where
  "float_03 = Fin (5404319552844595 / 18014398509481984)"

definition low_resource_profile :: "bool \<Rightarrow> bool \<Rightarrow> bool \<Rightarrow> bool \<Rightarrow> runtime_config \<Rightarrow> runtime_config" where
  "low_resource_profile query_timeout_unset query_concurrency_unset deep_fail_timeout_unset
       deep_negative_ttl_unset r =
     r\<lparr>rt_smart_routing := True,
       rt_cpu_deep_min_words := default_int 10 (rt_cpu_deep_min_words r),
       rt_cpu_deep_min_chars := default_int 24 (rt_cpu_deep_min_chars r),
       rt_cpu_deep_max_words := default_int 28 (rt_cpu_deep_max_words r),
       rt_cpu_deep_max_chars := default_int 160 (rt_cpu_deep_max_chars r),
       rt_cpu_deep_max_abstract_cues := default_int 2 (rt_cpu_deep_max_abstract_cues r),
       rt_query_max_concurrency := (if query_concurrency_unset then 1 else rt_query_max_concurrency r),
       rt_query_timeout := (if query_timeout_unset then 45 * second else rt_query_timeout r),
       rt_deep_fail_timeout := (if deep_fail_timeout_unset then 12 * second else rt_deep_fail_timeout r),
       rt_deep_negative_ttl := (if deep_negative_ttl_unset then 15 * minute else rt_deep_negative_ttl r)\<rparr>"

definition base_runtime_defaults :: "runtime_config \<Rightarrow> runtime_config" where
  "base_runtime_defaults r =
     r\<lparr>rt_query_timeout := default_int (120 * second) (rt_query_timeout r),
       rt_query_max_concurrency := default_int 2 (rt_query_max_concurrency r),
       rt_deep_fail_timeout := default_int (15 * second) (rt_deep_fail_timeout r),
       rt_deep_negative_ttl := default_int (10 * minute) (rt_deep_negative_ttl r),
       rt_deep_negative_scope_cooldown :=
         (if rt_deep_negative_scope_cooldown r \<le> 0 then 10 * minute else rt_deep_negative_scope_cooldown r),
       rt_cpu_overload_threshold := default_int 90 (rt_cpu_overload_threshold r),
       rt_cpu_overload_sustain := default_int (10 * second) (rt_cpu_overload_sustain r),
       rt_cpu_recover_threshold := default_int 75 (rt_cpu_recover_threshold r),
       rt_cpu_recover_sustain := default_int (12 * second) (rt_cpu_recover_sustain r),
       rt_cpu_critical_threshold := default_int 95 (rt_cpu_critical_threshold r),
       rt_cpu_critical_sustain := default_int (5 * second) (rt_cpu_critical_sustain r),
       rt_overload_max_concurrent_search := default_int 2 (rt_overload_max_concurrent_search r),
       rt_cpu_sample_interval := default_int second (rt_cpu_sample_interval r)\<rparr>"

definition runtime_defaults :: "runtime_config \<Rightarrow> runtime_config" where
  "runtime_defaults r =
     (let query_timeout_unset = (rt_query_timeout r = 0);
          query_concurrency_unset = (rt_query_max_concurrency r = 0);
          deep_fail_timeout_unset = (rt_deep_fail_timeout r = 0);
          deep_negative_ttl_unset = (rt_deep_negative_ttl r = 0);
          r = base_runtime_defaults r
      in if rt_low_resource_mode r \<and> rt_allow_cpu_deep_query r
         then low_resource_profile query_timeout_unset query_concurrency_unset deep_fail_timeout_unset
                deep_negative_ttl_unset r
         else r)"

definition normalize_search :: "search_config \<Rightarrow> search_config" where
  "normalize_search s =
     (let s = s\<lparr>sc_default_mode := default_str ''auto'' (sc_default_mode s)\<rparr>;
          s = s\<lparr>sc_coarse_k := default_int 20 (sc_coarse_k s)\<rparr>;
          s = s\<lparr>sc_top_k := default_int 8 (sc_top_k s)\<rparr>;
          s = s\<lparr>sc_min_score := (if sc_min_score s = Fin 0 then float_03 else sc_min_score s)\<rparr>;
          s = s\<lparr>sc_max_chars := default_int 4500 (sc_max_chars s)\<rparr>
      in s\<lparr>sc_files_all_max_hits := default_int 200 (sc_files_all_max_hits s)\<rparr>)"

definition normalize_cache :: "cache_config \<Rightarrow> cache_config" where
  "normalize_cache c =
     (let c = c\<lparr>cc_ttl := default_int (30 * minute) (cc_ttl c)\<rparr>;
          c = c\<lparr>cc_max_entries := default_int 500 (cc_max_entries c)\<rparr>
      in c\<lparr>cc_cleanup_interval := default_int hour (cc_cleanup_interval c)\<rparr>)"

definition normalize_scheduler :: "scheduler_config \<Rightarrow> scheduler_config" where
  "normalize_scheduler s =
     (let s = s\<lparr>sd_index_refresh := default_int (30 * minute) (sd_index_refresh s)\<rparr>;
          s = s\<lparr>sd_embed_refresh := default_int (24 * hour) (sd_embed_refresh s)\<rparr>;
          s = s\<lparr>sd_embed_full_refresh := default_int (7 * 24 * hour) (sd_embed_full_refresh s)\<rparr>
      in s\<lparr>sd_cache_cleanup := default_int hour (sd_cache_cleanup s)\<rparr>)"

definition normalize_guardian :: "guardian_config \<Rightarrow> guardian_config" where
  "normalize_guardian g =
     (let g = g\<lparr>gd_check_interval := default_int (60 * second) (gd_check_interval g)\<rparr>;
          g = g\<lparr>gd_timeout := default_int (5 * second) (gd_timeout g)\<rparr>
      in g\<lparr>gd_restart_max_retries := default_int 3 (gd_restart_max_retries g)\<rparr>)"

definition normalize :: "os_env \<Rightarrow> config \<Rightarrow> config" where
  "normalize env c =
     \<lparr>cf_qmd = (cf_qmd c)\<lparr>qc_bin := expand_clean env (qc_bin (cf_qmd c)),
                 qc_index_db := expand_clean env (qc_index_db (cf_qmd c)),
                 qc_mcp_port := default_int 8181 (qc_mcp_port (cf_qmd c))\<rparr>,
      cf_server = (cf_server c)\<lparr>
        sv_grpc_listen := default_str ''127.0.0.1:19091'' (sv_grpc_listen (cf_server c)),
        sv_security_model := default_str ''loopback_trust'' (sv_security_model (cf_server c))\<rparr>,
      cf_collections = map (\<lambda>col. col\<lparr>cl_path := expand_clean env (cl_path col)\<rparr>) (cf_collections c),
      cf_search = normalize_search (cf_search c),
      cf_cache = normalize_cache (cf_cache c),
      cf_scheduler = normalize_scheduler (cf_scheduler c),
      cf_guardian = normalize_guardian (cf_guardian c),
      cf_logging = (cf_logging c)\<lparr>lg_file := expand_clean env (lg_file (cf_logging c)),
                     lg_level := default_str ''info'' (lg_level (cf_logging c))\<rparr>,
      cf_runtime = runtime_defaults (cf_runtime c)\<rparr>"

subsection \<open>Validation and loading\<close>

fun validate_collections :: "collection_cfg list \<Rightarrow> goerr option" where
  "validate_collections [] = None"
| "validate_collections (col # cols) =
     (if cl_name col = [] then Some (plain_err ''collection name is required'')
      else if cl_path col = [] then
        Some (plain_err (''collection '' @ cl_name col @ '': path is required''))
      else if cl_tier col = 0 then
        Some (plain_err (''collection '' @ cl_name col @ '': tier is required''))
      else validate_collections cols)"

definition validate :: "os_env \<Rightarrow> config \<Rightarrow> goerr option" where
  "validate env c =
     (if qc_bin (cf_qmd c) = [] then Some (plain_err ''qmd.bin is required'')
      else case os_stat env (qc_bin (cf_qmd c)) of
          Some e \<Rightarrow> Some (wrap_err (''qmd binary not found at '' @ qc_bin (cf_qmd c) @ '': '') e)
        | None \<Rightarrow>
            if cf_collections c = [] then Some (plain_err ''at least one collection is required'')
            else validate_collections (cf_collections c))"

definition load_config :: "os_env \<Rightarrow> (string \<Rightarrow> config result) \<Rightarrow> string \<Rightarrow> config result" where
  "load_config env yaml path =
     (let path = expand_path env path in
      case os_read_file env path of
        Inl e \<Rightarrow> Inl (wrap_err (''read config '' @ path @ '': '') e)
      | Inr data \<Rightarrow>
          (case yaml data of
             Inl e \<Rightarrow> Inl (wrap_err ''parse config: '' e)
           | Inr cfg \<Rightarrow>
               let cfg = normalize env cfg in
               (case validate env cfg of
                  Some e \<Rightarrow> Inl (wrap_err ''validate config: '' e)
                | None \<Rightarrow> Inr cfg)))"

subsection \<open>Lemmas\<close>

lemma default_int_simps [simp]:
  "d \<noteq> 0 \<Longrightarrow> default_int d x \<noteq> 0"
  "0 < d \<Longrightarrow> (0 < default_int d x) = (0 \<le> x)"
  "default_int d (default_int d x) = default_int d x"
  by (auto simp: default_int_def)

lemma default_str_not_Nil [simp]: "d \<noteq> [] \<Longrightarrow> default_str d x \<noteq> []"
  by (simp add: default_str_def)

lemma expand_clean_cleaned: "p \<noteq> [] \<Longrightarrow> path_clean (expand_clean env p) = expand_clean env p"
  by (simp add: expand_clean_def expand_path_def Let_def path_clean_idem)

lemma path_clean_not_Nil [simp]: "path_clean p \<noteq> []"
proof
  assume "path_clean p = []"
  then have s: "\<not> path_rooted p" "path_stack p \<noteq> []" "join [slash] (rev (path_stack p)) = []"
    by (auto simp: path_clean_stack split: if_splits)
  have "hd (rev (path_stack p)) \<in> set (path_stack p)" using s(2) hd_in_set [of "rev (path_stack p)"] by simp
  then have "hd (rev (path_stack p)) \<noteq> []"
    using stack_ok_comps [OF path_stack_ok] by (auto simp: comp_ok_def)
  then show False using hd_join [of "rev (path_stack p)" "[slash]"] s by simp
qed

lemma expand_clean_Nil_iff [simp]: "expand_clean env p = [] \<longleftrightarrow> p = []"
  by (simp add: expand_clean_def expand_path_def Let_def)

lemma validate_collections_None:
  "validate_collections cols = None \<longleftrightarrow>
     (\<forall>col\<in>set cols. cl_name col \<noteq> [] \<and> cl_path col \<noteq> [] \<and> cl_tier col \<noteq> 0)"
  by (induction cols) auto

text \<open>Nothing that has a default is left unset.\<close>

definition runtime_set :: "runtime_config \<Rightarrow> bool" where
  "runtime_set r \<longleftrightarrow>
     rt_query_timeout r \<noteq> 0 \<and> rt_query_max_concurrency r \<noteq> 0 \<and> rt_deep_fail_timeout r \<noteq> 0 \<and>
     rt_deep_negative_ttl r \<noteq> 0 \<and> 0 < rt_deep_negative_scope_cooldown r \<and>
     rt_cpu_overload_threshold r \<noteq> 0 \<and> rt_cpu_overload_sustain r \<noteq> 0 \<and>
     rt_cpu_recover_threshold r \<noteq> 0 \<and> rt_cpu_recover_sustain r \<noteq> 0 \<and>
     rt_cpu_critical_threshold r \<noteq> 0 \<and> rt_cpu_critical_sustain r \<noteq> 0 \<and>
     rt_overload_max_concurrent_search r \<noteq> 0 \<and> rt_cpu_sample_interval r \<noteq> 0"

definition low_resource_set :: "runtime_config \<Rightarrow> bool" where
  "low_resource_set r \<longleftrightarrow>
     rt_smart_routing r \<and> rt_cpu_deep_min_words r \<noteq> 0 \<and> rt_cpu_deep_min_chars r \<noteq> 0 \<and>
     rt_cpu_deep_max_words r \<noteq> 0 \<and> rt_cpu_deep_max_chars r \<noteq> 0 \<and> rt_cpu_deep_max_abstract_cues r \<noteq> 0"

lemma base_runtime_set: "runtime_set (base_runtime_defaults r)"
  by (simp add: runtime_set_def base_runtime_defaults_def)

lemma base_runtime_flags [simp]:
  "rt_low_resource_mode (base_runtime_defaults r) = rt_low_resource_mode r"
  "rt_allow_cpu_deep_query (base_runtime_defaults r) = rt_allow_cpu_deep_query r"
  by (simp_all add: base_runtime_defaults_def)

lemma profile_runtime_set: "runtime_set r \<Longrightarrow> runtime_set (low_resource_profile a b c d r)"
  by (simp add: runtime_set_def low_resource_profile_def)

lemma profile_low_resource_set: "low_resource_set (low_resource_profile a b c d r)"
  by (simp add: low_resource_set_def low_resource_profile_def)

lemma profile_flags [simp]:
  "rt_low_resource_mode (low_resource_profile a b c d r) = rt_low_resource_mode r"
  "rt_allow_cpu_deep_query (low_resource_profile a b c d r) = rt_allow_cpu_deep_query r"
  by (simp_all add: low_resource_profile_def)

lemma base_runtime_id: "runtime_set r \<Longrightarrow> base_runtime_defaults r = r"
  by (simp add: runtime_set_def base_runtime_defaults_def default_int_def)

lemma profile_id: "low_resource_set r \<Longrightarrow> low_resource_profile False False False False r = r"
  by (simp add: low_resource_set_def low_resource_profile_def default_int_def)

lemma runtime_defaults_flags [simp]:
  "rt_low_resource_mode (runtime_defaults r) = rt_low_resource_mode r"
  "rt_allow_cpu_deep_query (runtime_defaults r) = rt_allow_cpu_deep_query r"
  by (simp_all add: runtime_defaults_def Let_def)

lemma runtime_defaults_set: "runtime_set (runtime_defaults r)"
  by (simp add: runtime_defaults_def Let_def base_runtime_set profile_runtime_set)

lemma runtime_defaults_low_resource:
  "rt_low_resource_mode r \<Longrightarrow> rt_allow_cpu_deep_query r \<Longrightarrow> low_resource_set (runtime_defaults r)"
  by (simp add: runtime_defaults_def Let_def profile_low_resource_set)

lemma runtime_defaults_id:
  assumes "runtime_set r" and "rt_low_resource_mode r \<and> rt_allow_cpu_deep_query r \<longrightarrow> low_resource_set r"
  shows "runtime_defaults r = r"
proof -
  have "rt_query_timeout r \<noteq> 0" "rt_query_max_concurrency r \<noteq> 0" "rt_deep_fail_timeout r \<noteq> 0"
    "rt_deep_negative_ttl r \<noteq> 0" using assms(1) by (simp_all add: runtime_set_def)
  then show ?thesis using assms by (simp add: runtime_defaults_def base_runtime_id profile_id)
qed

subsection \<open>Properties\<close>

text \<open>Every interval that becomes a ticker is positive after normalization exactly when the
  configured value is not negative: zero means the default, but a negative interval
  passes normalization and validation and reaches \<open>time.NewTicker\<close>, which panics on it.\<close>

theorem normalized_intervals_positive:
  "(0 < gd_check_interval (cf_guardian (normalize env c)) \<longleftrightarrow> 0 \<le> gd_check_interval (cf_guardian c)) \<and>
   (0 < sd_index_refresh (cf_scheduler (normalize env c)) \<longleftrightarrow> 0 \<le> sd_index_refresh (cf_scheduler c)) \<and>
   (0 < sd_embed_refresh (cf_scheduler (normalize env c)) \<longleftrightarrow> 0 \<le> sd_embed_refresh (cf_scheduler c)) \<and>
   (0 < sd_embed_full_refresh (cf_scheduler (normalize env c)) \<longleftrightarrow>
      0 \<le> sd_embed_full_refresh (cf_scheduler c)) \<and>
   (0 < sd_cache_cleanup (cf_scheduler (normalize env c)) \<longleftrightarrow> 0 \<le> sd_cache_cleanup (cf_scheduler c))"
  by (simp add: normalize_def normalize_guardian_def normalize_scheduler_def Let_def)

text \<open>Filling in the runtime defaults is idempotent, the low-resource profile included: the
  values the profile chose are not mistaken for unset ones the second time.\<close>

theorem runtime_defaults_idempotent: "runtime_defaults (runtime_defaults r) = runtime_defaults r"
  by (rule runtime_defaults_id) (simp_all add: runtime_defaults_set runtime_defaults_low_resource)

text \<open>A configuration that loads has a binary that exists and at least one collection; every
  collection has a name, a tier and a cleaned path; no runtime setting with a default is zero, and on a
  low-resource host with deep queries smart routing is on with all its limits set.\<close>

theorem loaded_config_valid:
  assumes "load_config env yaml path = Inr cfg"
  shows "os_stat env (qc_bin (cf_qmd cfg)) = None \<and> cf_collections cfg \<noteq> [] \<and>
    (\<forall>col\<in>set (cf_collections cfg). cl_name col \<noteq> [] \<and> cl_tier col \<noteq> 0 \<and> cl_path col \<noteq> [] \<and>
       path_clean (cl_path col) = cl_path col) \<and>
    runtime_set (cf_runtime cfg) \<and>
    (rt_low_resource_mode (cf_runtime cfg) \<and> rt_allow_cpu_deep_query (cf_runtime cfg) \<longrightarrow>
       low_resource_set (cf_runtime cfg))"
proof -
  obtain c where c: "cfg = normalize env c" "validate env cfg = None"
    using assms by (auto simp: load_config_def Let_def split: sum.splits option.splits)
  then have v: "os_stat env (qc_bin (cf_qmd cfg)) = None" "cf_collections cfg \<noteq> []"
    "validate_collections (cf_collections cfg) = None"
    by (auto simp: validate_def split: if_splits option.splits)
  have p: "path_clean (cl_path col) = cl_path col"
    if "col \<in> set (cf_collections cfg)" "cl_path col \<noteq> []" for col
    using that expand_clean_cleaned by (auto simp: c(1) normalize_def)
  have r: "cf_runtime cfg = runtime_defaults (cf_runtime c)" by (simp add: c(1) normalize_def)
  show ?thesis
    using v p runtime_defaults_set runtime_defaults_low_resource
    by (auto simp: r validate_collections_None)
qed

text \<open>A small configuration and a host to load it on.\<close>

definition sample_runtime :: runtime_config where
  "sample_runtime =
     \<lparr>rt_low_resource_mode = True, rt_allow_cpu_deep_query = True, rt_allow_cpu_vsearch = False,
      rt_smart_routing = False, rt_cpu_deep_min_words = 0, rt_cpu_deep_min_chars = 0,
      rt_cpu_deep_max_words = 0, rt_cpu_deep_max_chars = 0, rt_cpu_deep_max_abstract_cues = 0,
      rt_query_max_concurrency = 0, rt_query_timeout = 0, rt_deep_fail_timeout = 0,
      rt_deep_negative_ttl = 0, rt_deep_negative_scope_cooldown = 0, rt_cpu_overload_protect = True,
      rt_cpu_overload_threshold = 0, rt_cpu_overload_sustain = 0, rt_cpu_recover_threshold = 0,
      rt_cpu_recover_sustain = 0, rt_cpu_critical_threshold = 0, rt_cpu_critical_sustain = 0,
      rt_overload_max_concurrent_search = 0, rt_cpu_sample_interval = 0\<rparr>"

definition sample_collection :: "string \<Rightarrow> string \<Rightarrow> int \<Rightarrow> collection_cfg" where
  "sample_collection name path tier =
     \<lparr>cl_name = name, cl_path = path, cl_mask = [], cl_exclude = [], cl_context = [], cl_tier = tier,
      cl_embed = False, cl_require_explicit = False, cl_safety_prompt = False\<rparr>"

definition sample_cfg :: config where
  "sample_cfg =
     \<lparr>cf_qmd = \<lparr>qc_bin = ''~/bin/qmd'', qc_index_db = [], qc_mcp_port = 0\<rparr>,
      cf_server = \<lparr>sv_grpc_listen = [], sv_security_model = []\<rparr>,
      cf_collections = [sample_collection ''notes'' ''/srv/notes/'' 1, sample_collection ''archive'' ''$DATA/old'' 2],
      cf_search = \<lparr>sc_default_mode = [], sc_coarse_k = 0, sc_top_k = 0, sc_min_score = Fin 0,
        sc_max_chars = 0, sc_files_all_max_hits = 0, sc_fallback_enabled = True\<rparr>,
      cf_cache = \<lparr>cc_enabled = True, cc_ttl = 0, cc_max_entries = 0, cc_cleanup_interval = 0,
        cc_version_aware = True\<rparr>,
      cf_scheduler = \<lparr>sd_index_refresh = 0, sd_embed_refresh = 0, sd_embed_full_refresh = 0,
        sd_cache_cleanup = 0\<rparr>,
      cf_guardian = \<lparr>gd_check_interval = 0, gd_timeout = 0, gd_restart_max_retries = 0\<rparr>,
      cf_logging = \<lparr>lg_level = [], lg_file = [], lg_max_size = [], lg_max_backups = 0\<rparr>,
      cf_runtime = sample_runtime\<rparr>"

definition sample_os :: os_env where
  "sample_os =
     \<lparr>os_getenv = (\<lambda>v. if v = ''DATA'' then ''/data'' else []), os_user_home_dir = Inr ''/home/q'',
      os_stat = (\<lambda>p. if p = ''/home/q/bin/qmd'' then None else Some (plain_err ''no such file'')),
      os_read_file = (\<lambda>p. Inr ''the text'')\<rparr>"

lemma loaded_config_valid_witness:
  "path_clean ''/data/old'' = ''/data/old'' \<and>
   low_resource_set (cf_runtime (normalize sample_os sample_cfg))"
proof -
  have "load_config sample_os (\<lambda>t. Inr sample_cfg) ''/etc/qmdsr.yaml'' = Inr (normalize sample_os sample_cfg)"
    by code_simp
  note valid = loaded_config_valid [OF this]
  have "map cl_path (cf_collections (normalize sample_os sample_cfg)) = [''/srv/notes'', ''/data/old'']"
    by code_simp
  then have "\<exists>col\<in>set (cf_collections (normalize sample_os sample_cfg)). cl_path col = ''/data/old''"
    by (cases "cf_collections (normalize sample_os sample_cfg)") auto
  moreover have "rt_low_resource_mode (cf_runtime (normalize sample_os sample_cfg)) \<and>
      rt_allow_cpu_deep_query (cf_runtime (normalize sample_os sample_cfg))" by code_simp
  ultimately show ?thesis using valid by metis
qed

end
