(* ===== verification/Orch_Policy.thy ===== *)
theory Orch_Policy
  imports Router Config
begin

text \<open>
  Which mode a query is searched in (\<open>orchestrator/orchestrator.go\<close>: \<open>resolveMode\<close>,
  \<open>allowAutoDeepQuery\<close> and its cues). The capabilities of the executor are a predicate on their
  names, and the overload flag is the guard's at the time of the call.
\<close>

definition rune_len :: "string \<Rightarrow> nat" where
  "rune_len s = length (runes s)"

definition question_cues :: "string list" where
  "question_cues =
     [encode_runes [0x5982, 0x4F55], encode_runes [0x600E, 0x4E48], encode_runes [0x600E, 0x6837],
      encode_runes [0x4EC0, 0x4E48], encode_runes [0x4E3A, 0x4EC0, 0x4E48], encode_runes [0x4E3A, 0x4F55],
      encode_runes [0x662F, 0x5426], encode_runes [0x80FD, 0x4E0D, 0x80FD], encode_runes [0x53EF, 0x4EE5],
      encode_runes [0x5E94, 0x8BE5], ''?'', encode_runes [0xFF1F],
      ''how '', ''what '', ''why '',
      ''when '', ''where '', ''which '',
      ''should '']"

definition abstract_cues :: "string list" where
  "abstract_cues =
     [encode_runes [0x65B9, 0x6848], encode_runes [0x67B6, 0x6784], encode_runes [0x89C4, 0x5212],
      encode_runes [0x4F53, 0x7CFB], encode_runes [0x6846, 0x67B6], encode_runes [0x8BBE, 0x8BA1],
      ''tradeoff'', ''strategy'', ''architecture'',
      ''design'', ''plan'', ''migration'',
      ''roadmap'']"

definition has_question_cue :: "string \<Rightarrow> bool" where
  "has_question_cue s = (let l = to_lower s in list_ex (str_contains l) question_cues)"

definition count_abstract_cues :: "string \<Rightarrow> nat" where
  "count_abstract_cues s = (let l = to_lower s in length (filter (str_contains l) abstract_cues))"

definition allow_auto_deep_query :: "runtime_config \<Rightarrow> string \<Rightarrow> bool" where
  "allow_auto_deep_query rt query =
     (if \<not> (rt_low_resource_mode rt \<and> rt_allow_cpu_deep_query rt \<and> rt_smart_routing rt) then True
      else
        let q = trim_space query in
        if q = [] then False
        else
          let chars = int (rune_len q);
              n_words = int (count_words_max_fields_or_cjk q);
              n_cues = int (count_abstract_cues q)
          in if chars < rt_cpu_deep_min_chars rt then False
             else if 0 < rt_cpu_deep_max_chars rt \<and> rt_cpu_deep_max_chars rt < chars then False
             else if 0 < rt_cpu_deep_max_words rt \<and> rt_cpu_deep_max_words rt < n_words then False
             else if 0 < rt_cpu_deep_max_abstract_cues rt \<and> rt_cpu_deep_max_abstract_cues rt < n_cues then False
             else if 20 \<le> n_words \<and> 0 < n_cues then False
             else if rt_cpu_deep_min_words rt \<le> n_words then True
             else if has_question_cue q then 4 \<le> n_words \<or> 6 \<le> count_cjk q
             else False)"

definition allow_deep_query :: "runtime_config \<Rightarrow> string \<Rightarrow> bool" where
  "allow_deep_query rt query = allow_auto_deep_query rt query"

type_synonym capabilities_of = "string \<Rightarrow> bool"

definition resolve_mode :: "runtime_config \<Rightarrow> capabilities_of \<Rightarrow> bool \<Rightarrow> string \<Rightarrow> string \<Rightarrow> string" where
  "resolve_mode rt has_capability overloaded requested query =
     (let is_auto = (requested = [] \<or> requested = ''auto'');
          mode = (if \<not> is_auto then requested
                  else detect_mode query (has_capability ''vector'') (has_capability ''deep_query''))
      in if overloaded \<and> mode \<noteq> mode_search then mode_search
         else if mode = mode_query then
           (if \<not> has_capability ''deep_query'' then mode_search
            else if is_auto \<and> \<not> allow_auto_deep_query rt query then mode_search
            else mode)
         else if mode = mode_vsearch then
           (if \<not> has_capability ''vector'' then mode_search else mode)
         else mode)"

subsection \<open>Lemmas\<close>

lemma detect_mode_cases:
  "detect_mode q v d = mode_search \<or> detect_mode q v d = mode_vsearch \<or> detect_mode q v d = mode_query"
  by (simp add: detect_mode_def Let_def)

lemma resolve_mode_overloaded: "resolve_mode rt cap True requested query = mode_search"
  by (simp add: resolve_mode_def Let_def)

lemma resolve_mode_query:
  "resolve_mode rt cap ov requested query = mode_query \<Longrightarrow> \<not> ov \<and> cap ''deep_query''"
  by (auto simp: resolve_mode_def Let_def split: if_splits)

subsection \<open>Properties\<close>

text \<open>Under overload every search is keyword search. Otherwise a mode that needs a capability is only
  chosen when the capability is there, and deep search chosen by the router itself has
  also passed the low-resource gate.\<close>

theorem resolved_mode_is_allowed:
  "let mode = resolve_mode rt cap ov requested query in
     (ov \<longrightarrow> mode = mode_search) \<and>
     (mode = mode_query \<longrightarrow> cap ''deep_query'' \<and>
        (requested \<in> {[], ''auto''} \<longrightarrow> allow_deep_query rt query)) \<and>
     (mode = mode_vsearch \<longrightarrow> cap ''vector'') \<and>
     (requested \<in> {[], ''auto''} \<longrightarrow> mode \<in> {mode_search, mode_vsearch, mode_query})"
proof (cases "requested = [] \<or> requested = ''auto''")
  case True
  then have r: "requested \<in> {[], ''auto''} \<longleftrightarrow> True" by blast
  consider "detect_mode query (cap ''vector'') (cap ''deep_query'') = mode_search"
    | "detect_mode query (cap ''vector'') (cap ''deep_query'') = mode_vsearch"
    | "detect_mode query (cap ''vector'') (cap ''deep_query'') = mode_query"
    using detect_mode_cases by blast
  then show ?thesis unfolding r by cases (simp_all add: resolve_mode_def allow_deep_query_def True)
next
  case False
  then have r: "requested \<in> {[], ''auto''} \<longleftrightarrow> False" by blast
  show ?thesis unfolding r by (simp add: resolve_mode_def False)
qed

lemma resolved_mode_is_allowed_witness:
  "resolve_mode (runtime_defaults sample_runtime) (\<lambda>c. True) False ''auto''
     ''how does the router choose between keyword search and deep search'' = mode_query \<and>
   allow_deep_query (runtime_defaults sample_runtime)
     ''how does the router choose between keyword search and deep search''"
proof -
  have "resolve_mode (runtime_defaults sample_runtime) (\<lambda>c. True) False ''auto''
     ''how does the router choose between keyword search and deep search'' = mode_query" by code_simp
  then show ?thesis
    using resolved_mode_is_allowed [of "runtime_defaults sample_runtime" "\<lambda>c. True" False "''auto''"
        "''how does the router choose between keyword search and deep search''"]
    by (simp add: Let_def)
qed

text \<open>The low-resource gate is closed for queries that would strain the host: on a host with the profile
  of a loaded configuration, a query that passes has at least the configured number of characters, at most the configured characters, words and
  abstract cues, and fewer than 20 words if it has any abstract cue.\<close>

theorem low_resource_gate_bounds:
  assumes "rt_low_resource_mode rt" and "rt_allow_cpu_deep_query rt" and "rt_smart_routing rt"
    and "allow_deep_query rt query"
  shows "let q = trim_space query; n = int (count_words_max_fields_or_cjk q) in
    q \<noteq> [] \<and> rt_cpu_deep_min_chars rt \<le> int (rune_len q) \<and>
    (0 < rt_cpu_deep_max_chars rt \<longrightarrow> int (rune_len q) \<le> rt_cpu_deep_max_chars rt) \<and>
    (0 < rt_cpu_deep_max_words rt \<longrightarrow> n \<le> rt_cpu_deep_max_words rt) \<and>
    (0 < rt_cpu_deep_max_abstract_cues rt \<longrightarrow> int (count_abstract_cues q) \<le> rt_cpu_deep_max_abstract_cues rt) \<and>
    (0 < count_abstract_cues q \<longrightarrow> n < 20) \<and>
    (rt_cpu_deep_min_words rt \<le> n \<or> has_question_cue q)"
  using assms by (auto simp: allow_deep_query_def allow_auto_deep_query_def Let_def split: if_splits)

lemma low_resource_gate_bounds_witness:
  "int (rune_len (trim_space ''how does the router choose between keyword search and deep search'')) \<le> 160"
proof -
  let ?rt = "runtime_defaults sample_runtime"
  have "rt_low_resource_mode ?rt" "rt_allow_cpu_deep_query ?rt" "rt_smart_routing ?rt"
    "allow_deep_query ?rt ''how does the router choose between keyword search and deep search''"
    by code_simp+
  note bounds = low_resource_gate_bounds [OF this]
  have "rt_cpu_deep_max_chars ?rt = 160" by code_simp
  with bounds show ?thesis by (simp add: Let_def)
qed

end
