(* ===== verification/Orch_Results.thy ===== *)
theory Orch_Results
  imports Search_Util Text_Util Config
begin

text \<open>
  The result pipeline of the orchestrator (\<open>orchestrator/orchestrator.go\<close>): exclusion by path,
  the score threshold, snippet cleaning, deduplication and the character budget. The sort is a
  parameter, as in \<open>Search_Util\<close>.
\<close>

subsection \<open>Filters\<close>

definition rel_path :: "collection_cfg \<Rightarrow> search_result \<Rightarrow> string" where
  "rel_path col r =
     (let p = sr_file r;
          p = (if has_prefix p (cl_path col) then trim_prefix (trim_prefix p (cl_path col)) ''/'' else p)
      in path_clean p)"

definition dir_matches :: "string \<Rightarrow> string \<Rightarrow> bool" where
  "dir_matches pat d = path_match pat (d @ ''/'')"

definition pattern_excludes :: "string \<Rightarrow> string \<Rightarrow> bool" where
  "pattern_excludes pat rel =
     (path_match pat rel \<or>
      list_ex (dir_matches pat) (dir_chain (path_dir rel)) \<or>
      (has_suffix pat ''/**'' \<and>
       (let p = trim_suffix pat ''/**'' in has_prefix rel (p @ ''/'') \<or> rel = p)))"

fun excluded_by :: "string list \<Rightarrow> string \<Rightarrow> bool" where
  "excluded_by [] rel = False"
| "excluded_by (pat # pats) rel = (pattern_excludes pat rel \<or> excluded_by pats rel)"

definition not_excluded :: "collection_cfg \<Rightarrow> search_result \<Rightarrow> bool" where
  "not_excluded col r \<longleftrightarrow> \<not> excluded_by (cl_exclude col) (rel_path col r)"

definition filter_exclude :: "collection_cfg \<Rightarrow> search_result list \<Rightarrow> search_result list" where
  "filter_exclude col results =
     (if cl_exclude col = [] then results
      else filter (not_excluded col) results)"

definition filter_min_score :: "f64 \<Rightarrow> search_result list \<Rightarrow> search_result list" where
  "filter_min_score min_score results =
     (if f64_le min_score (Fin 0) then results
      else filter (\<lambda>r. f64_le min_score (sr_score r)) results)"

subsection \<open>Budgets\<close>

definition truncate_with_ellipsis :: "string \<Rightarrow> int \<Rightarrow> string" where
  "truncate_with_ellipsis s max_chars =
     (if max_chars \<le> 0 then []
      else if int (rune_count s) \<le> max_chars then s
      else if max_chars \<le> 3 then encode_runes (take (nat max_chars) (runes s))
      else encode_runes (take (nat (max_chars - 3)) (runes s)) @ ellipsis)"

definition max_snippet_chars_per_result :: int where
  "max_snippet_chars_per_result = 1500"

definition clean_result :: "search_result \<Rightarrow> search_result" where
  "clean_result r = r\<lparr>sr_snippet := clean_snippet (sr_snippet r) max_snippet_chars_per_result\<rparr>"

definition clean_result_snippets :: "search_result list \<Rightarrow> search_result list" where
  "clean_result_snippets rs = map clean_result rs"

fun enforce_chars_from :: "int \<Rightarrow> int \<Rightarrow> search_result list \<Rightarrow> search_result list" where
  "enforce_chars_from max_chars used [] = []"
| "enforce_chars_from max_chars used (r # rs) =
     (let next_used = used + int (rune_count (sr_snippet r)) in
      if next_used \<le> max_chars then r # enforce_chars_from max_chars next_used rs
      else
        let remain = max_chars - used
        in if remain \<le> 0 then []
           else [r\<lparr>sr_snippet := truncate_with_ellipsis (sr_snippet r) remain\<rparr>])"

definition enforce_max_chars :: "search_config \<Rightarrow> search_result list \<Rightarrow> search_result list" where
  "enforce_max_chars sc results =
     (if sc_max_chars sc \<le> 0 then results else enforce_chars_from (sc_max_chars sc) 0 results)"

definition enforce_files_all_max_hits :: "search_config \<Rightarrow> search_result list \<Rightarrow> search_result list" where
  "enforce_files_all_max_hits sc results =
     (let limit = sc_files_all_max_hits sc in
      if limit \<le> 0 \<or> int (length results) \<le> limit then results else take (nat limit) results)"

type_synonym score_sorter = "search_result list \<Rightarrow> search_result list"

definition finalize_results :: "score_sorter \<Rightarrow> search_config \<Rightarrow> search_result list \<Rightarrow> int \<Rightarrow> bool \<Rightarrow> bool \<Rightarrow>
    search_result list" where
  "finalize_results srt sc results n files_only files_all =
     (if files_only then
        let results = dedup_sort_limit_with srt results n
        in if files_all then enforce_files_all_max_hits sc results else results
      else enforce_max_chars sc (dedup_sort_limit_with srt (clean_result_snippets results) n))"

subsection \<open>Lemmas\<close>

definition snippet_runes :: "search_result list \<Rightarrow> int" where
  "snippet_runes rs = sum_list (map (\<lambda>r. int (rune_count (sr_snippet r))) rs)"

lemma snippet_runes_simps [simp]:
  "snippet_runes [] = 0" "snippet_runes (r # rs) = int (rune_count (sr_snippet r)) + snippet_runes rs"
  by (simp_all add: snippet_runes_def)

lemma snippet_runes_nonneg [simp]: "0 \<le> snippet_runes rs"
  by (induction rs) auto

lemma rune_count_encode_take_ellipsis:
  "rune_count (encode_runes (take n (runes s)) @ ellipsis) = min n (rune_count s) + 3"
  by (simp add: rune_count_encode_ellipsis valid_take_runes) (simp add: rune_count_def min.commute)

lemma truncate_bound: "0 < n \<Longrightarrow> int (rune_count (truncate_with_ellipsis s n)) \<le> n"
  by (auto simp: truncate_with_ellipsis_def rune_count_encode_runes valid_take_runes
      rune_count_encode_take_ellipsis)

lemma truncate_mono: "int (rune_count (truncate_with_ellipsis s n)) \<le> int (rune_count s)"
  by (auto simp: truncate_with_ellipsis_def rune_count_encode_runes valid_take_runes
      rune_count_encode_take_ellipsis) (simp_all add: rune_count_def)

lemma enforce_chars_bound:
  "used \<le> m \<Longrightarrow> used + snippet_runes (enforce_chars_from m used rs) \<le> m"
proof (induction rs arbitrary: used)
  case (Cons r rs)
  from Cons(1) [of "used + int (rune_count (sr_snippet r))"] Cons(2)
    truncate_bound [of "m - used" "sr_snippet r"]
  show ?case by (auto simp: Let_def)
qed simp

lemma enforce_chars_id: "used + snippet_runes rs \<le> m \<Longrightarrow> enforce_chars_from m used rs = rs"
proof (induction rs arbitrary: used)
  case (Cons r rs)
  have "used + int (rune_count (sr_snippet r)) \<le> m"
    using Cons(2) snippet_runes_nonneg [of rs] unfolding snippet_runes_simps by linarith
  then show ?case using Cons by (simp add: Let_def add.assoc)
qed simp

text \<open>What is kept is a prefix, but for the snippet of its last hit.\<close>

lemma enforce_chars_prefix:
  "\<exists>k. enforce_chars_from m used rs = take k rs \<or>
     (\<exists>n. k < length rs \<and> enforce_chars_from m used rs =
        take k rs @ [(rs ! k)\<lparr>sr_snippet := truncate_with_ellipsis (sr_snippet (rs ! k)) n\<rparr>])"
proof (induction rs arbitrary: used)
  case (Cons r rs)
  let ?u = "used + int (rune_count (sr_snippet r))"
  show ?case
  proof (cases "?u \<le> m")
    case True
    from Cons [of ?u] obtain k where k: "enforce_chars_from m ?u rs = take k rs \<or>
      (\<exists>n. k < length rs \<and> enforce_chars_from m ?u rs =
        take k rs @ [(rs ! k)\<lparr>sr_snippet := truncate_with_ellipsis (sr_snippet (rs ! k)) n\<rparr>])" by blast
    then show ?thesis using True by (intro exI [of _ "Suc k"]) (auto simp: Let_def)
  next
    case False
    then show ?thesis by (intro exI [of _ 0]) (auto simp: Let_def)
  qed
qed simp

lemma length_enforce_chars: "length (enforce_chars_from m used rs) \<le> length rs"
  by (induction rs arbitrary: used) (auto simp: Let_def)

lemma enforce_chars_snippets:
  "(\<And>r. r \<in> set rs \<Longrightarrow> int (rune_count (sr_snippet r)) \<le> b) \<Longrightarrow>
   r \<in> set (enforce_chars_from m used rs) \<Longrightarrow> int (rune_count (sr_snippet r)) \<le> b"
proof (induction rs arbitrary: used)
  case (Cons q rs)
  have "int (rune_count (truncate_with_ellipsis (sr_snippet q) n)) \<le> b" for n
    using truncate_mono [of "sr_snippet q" n] Cons(2) [of q] by simp
  with Cons show ?case by (auto simp: Let_def split: if_splits)
qed simp

lemma enforce_max_chars_sub:
  "length (enforce_max_chars sc rs) \<le> length rs"
  "sc_max_chars sc > 0 \<Longrightarrow> snippet_runes (enforce_max_chars sc rs) \<le> sc_max_chars sc"
  "snippet_runes rs \<le> sc_max_chars sc \<Longrightarrow> enforce_max_chars sc rs = rs"
  using enforce_chars_bound [of 0 "sc_max_chars sc" rs] enforce_chars_id [of 0 rs "sc_max_chars sc"]
  by (auto simp: enforce_max_chars_def length_enforce_chars)

lemma clean_snippets_bound:
  "r \<in> set (clean_result_snippets rs) \<Longrightarrow> int (rune_count (sr_snippet r)) \<le> max_snippet_chars_per_result"
  using clean_snippet_le [of max_snippet_chars_per_result]
  by (auto simp: clean_result_snippets_def clean_result_def max_snippet_chars_per_result_def)

lemma excluded_by_iff: "excluded_by pats rel \<longleftrightarrow> (\<exists>pat\<in>set pats. pattern_excludes pat rel)"
  by (induction pats) auto

lemma filter_exclude_kept:
  "r \<in> set (filter_exclude col rs) \<longleftrightarrow>
     r \<in> set rs \<and> (\<forall>pat\<in>set (cl_exclude col). \<not> pattern_excludes pat (rel_path col r))"
  by (auto simp: filter_exclude_def not_excluded_def excluded_by_iff)

lemma pattern_excludes_tree:
  "pattern_excludes (p @ ''/**'') p" "pattern_excludes (p @ ''/**'') (p @ ''/'' @ rest)"
  by (simp_all add: pattern_excludes_def has_suffix_iff suffix_def has_prefix_iff)

text \<open>A hit without its snippet: the pipeline only ever changes the snippet.\<close>

definition bare :: "search_result \<Rightarrow> search_result" where
  "bare r = r\<lparr>sr_snippet := []\<rparr>"

lemma bare_snippet [simp]: "bare (r\<lparr>sr_snippet := s\<rparr>) = bare r"
  by (simp add: bare_def)

lemma bare_fields [simp]:
  "sr_score (bare r) = sr_score r" "sr_file (bare r) = sr_file r" "sr_docid (bare r) = sr_docid r"
  by (simp_all add: bare_def)

lemma bare_enforce_chars: "\<exists>k. map bare (enforce_chars_from m used rs) = take k (map bare rs)"
proof -
  obtain k where "enforce_chars_from m used rs = take k rs \<or>
     (\<exists>n. k < length rs \<and> enforce_chars_from m used rs =
        take k rs @ [(rs ! k)\<lparr>sr_snippet := truncate_with_ellipsis (sr_snippet (rs ! k)) n\<rparr>])"
    using enforce_chars_prefix by blast
  then show ?thesis
  proof
    assume "enforce_chars_from m used rs = take k rs"
    then show ?thesis by (intro exI [of _ k]) (simp add: take_map)
  next
    assume "\<exists>n. k < length rs \<and> enforce_chars_from m used rs =
        take k rs @ [(rs ! k)\<lparr>sr_snippet := truncate_with_ellipsis (sr_snippet (rs ! k)) n\<rparr>]"
    then show ?thesis by (intro exI [of _ "Suc k"]) (auto simp: take_map take_Suc_conv_app_nth)
  qed
qed

lemma bare_enforce_max_chars: "\<exists>k. map bare (enforce_max_chars sc rs) = take k (map bare rs)"
  using bare_enforce_chars [of "sc_max_chars sc" 0 rs]
  by (cases "sc_max_chars sc \<le> 0") (auto simp: enforce_max_chars_def intro: exI [of _ "length rs"])

lemma enforce_max_chars_hits: "r \<in> set (enforce_max_chars sc rs) \<Longrightarrow> \<exists>q\<in>set rs. bare r = bare q"
proof -
  assume r: "r \<in> set (enforce_max_chars sc rs)"
  obtain k where "map bare (enforce_max_chars sc rs) = take k (map bare rs)"
    using bare_enforce_max_chars by blast
  then have "bare r \<in> set (take k (map bare rs))" using r by (metis in_set_conv_nth length_map nth_map nth_mem)
  from in_set_takeD [OF this] show ?thesis by auto
qed

lemma sorted_bare:
  "sorted_wrt (\<lambda>a b. f64_le (sr_score b) (sr_score a)) (map bare rs) =
   sorted_wrt (\<lambda>a b. f64_le (sr_score b) (sr_score a)) rs"
  by (simp add: sorted_wrt_map)

lemma sorted_enforce:
  assumes "sorted_wrt (\<lambda>a b. f64_le (sr_score b) (sr_score a)) rs"
  shows "sorted_wrt (\<lambda>a b. f64_le (sr_score b) (sr_score a)) (enforce_max_chars sc rs)"
proof -
  obtain k where "map bare (enforce_max_chars sc rs) = take k (map bare rs)"
    using bare_enforce_max_chars by blast
  then show ?thesis using assms sorted_bare sorted_wrt_take by metis
qed

lemma clean_snippets_hits: "q \<in> set (clean_result_snippets rs) \<Longrightarrow> \<exists>p\<in>set rs. bare q = bare p"
  by (auto simp: clean_result_snippets_def clean_result_def)

lemma enforce_snippets_bound:
  "(\<And>r. r \<in> set rs \<Longrightarrow> int (rune_count (sr_snippet r)) \<le> b) \<Longrightarrow>
   r \<in> set (enforce_max_chars sc rs) \<Longrightarrow> int (rune_count (sr_snippet r)) \<le> b"
  using enforce_chars_snippets [of rs b r "sc_max_chars sc" 0]
  by (cases "sc_max_chars sc \<le> 0") (simp_all add: enforce_max_chars_def)

subsection \<open>Properties\<close>

text \<open>What the pipeline returns for a snippet search is in order of falling score and made of input hits (but for
  their snippets), at most \<open>n\<close> of them, each snippet within 1500 runes and all of them together within the
  configured character budget, for every sort that keeps the promise of \<open>sort.Slice\<close>.\<close>

theorem finalize_within_budgets:
  assumes "score_sort srt" and "0 < n" and "0 < sc_max_chars sc"
    and "\<forall>r\<in>set rs. sr_score r \<noteq> NaN"
  shows "let out = finalize_results srt sc rs n False fa in
    int (length out) \<le> n \<and> snippet_runes out \<le> sc_max_chars sc \<and>
    (\<forall>r\<in>set out. int (rune_count (sr_snippet r)) \<le> max_snippet_chars_per_result) \<and>
    (\<forall>r\<in>set out. \<exists>q\<in>set rs. bare r = bare q) \<and>
    sorted_wrt (\<lambda>a b. f64_le (sr_score b) (sr_score a)) out"
proof -
  let ?d = "dedup_sort_limit_with srt (clean_result_snippets rs) n"
  have out: "finalize_results srt sc rs n False fa = enforce_max_chars sc ?d"
    by (simp add: finalize_results_def)
  have len: "int (length (enforce_max_chars sc ?d)) \<le> n"
    using score_sort.dsl_length [OF assms(1,2), of "clean_result_snippets rs"]
      enforce_max_chars_sub(1) [of sc ?d] by linarith
  have sub: "set ?d \<subseteq> set (clean_result_snippets rs)" by (rule score_sort.dsl_subset [OF assms(1)])
  have sn: "int (rune_count (sr_snippet r)) \<le> max_snippet_chars_per_result"
    if "r \<in> set (enforce_max_chars sc ?d)" for r
    using that sub by (intro enforce_snippets_bound [OF clean_snippets_bound]) auto
  have hits: "\<exists>q\<in>set rs. bare r = bare q" if "r \<in> set (enforce_max_chars sc ?d)" for r
    using enforce_max_chars_hits [OF that] sub clean_snippets_hits by (metis subsetD)
  have "\<forall>r\<in>set (clean_result_snippets rs). sr_score r \<noteq> NaN"
    using assms(4) by (auto simp: clean_result_snippets_def clean_result_def)
  then have "sorted_wrt (\<lambda>a b. f64_le (sr_score b) (sr_score a)) (enforce_max_chars sc ?d)"
    by (intro sorted_enforce score_sort.dsl_sorted [OF assms(1)])
  then show ?thesis
    unfolding out Let_def using len sn hits enforce_max_chars_sub(2) [OF assms(3)] by blast
qed

lemma finalize_within_budgets_witness:
  "int (length (finalize_results (sort_slice score_less) (normalize_search (cf_search sample_cfg)) demo_hits 3
     False False)) \<le> 3"
  using finalize_within_budgets [OF gosort.score_sort_axioms, of 3 "normalize_search (cf_search sample_cfg)"
      demo_hits False]
  by (simp add: normalize_search_def sample_cfg_def demo_hits_def hit_def Let_def)

text \<open>Searches for files only keep the hits as they are; they respect both the limit \<open>n\<close>, when it is
  positive, and, for all files, the cap of the configuration.\<close>

theorem finalize_files_capped:
  assumes "score_sort srt"
  shows "let out = finalize_results srt sc rs n True fa in
    set out \<subseteq> set rs \<and> distinct (map dedup_key out) \<and>
    (0 < n \<longrightarrow> int (length out) \<le> n) \<and>
    (fa \<and> 0 < sc_files_all_max_hits sc \<longrightarrow> int (length out) \<le> sc_files_all_max_hits sc) \<and>
    (n \<le> 0 \<and> (\<not> fa \<or> int (card (dedup_key ` set rs)) \<le> sc_files_all_max_hits sc) \<longrightarrow>
       dedup_key ` set out = dedup_key ` set rs)"
proof -
  let ?d = "dedup_sort_limit_with srt rs n"
  have out: "finalize_results srt sc rs n True fa = (if fa then enforce_files_all_max_hits sc ?d else ?d)"
    by (simp add: finalize_results_def Let_def)
  have sub: "set ?d \<subseteq> set rs" "distinct (map dedup_key ?d)"
    by (rule score_sort.dsl_subset [OF assms], rule score_sort.dsl_distinct [OF assms])
  have len: "int (length ?d) \<le> n" if "0 < n" using score_sort.dsl_length [OF assms that] .
  have all: "dedup_key ` set ?d = dedup_key ` set rs" if "n \<le> 0"
    using score_sort.dsl_unlimited [OF assms that] .
  have card: "length ?d = card (dedup_key ` set rs)" if "n \<le> 0"
    using distinct_card [OF sub(2)] all [OF that] by simp
  show ?thesis
    unfolding out Let_def using sub len all card
    by (auto simp: enforce_files_all_max_hits_def Let_def distinct_take take_map [symmetric]
        dest: in_set_takeD)
qed

lemma finalize_files_capped_witness:
  "int (length (finalize_results (sort_slice score_less) (normalize_search (cf_search sample_cfg)) demo_hits 2
     True True)) \<le> 2"
  using finalize_files_capped [OF gosort.score_sort_axioms, of "normalize_search (cf_search sample_cfg)"
      demo_hits 2 True]
  by (simp add: Let_def)

text \<open>A hit survives the exclusion exactly when no pattern of its collection excludes its path;
  a pattern that ends in two stars excludes a whole directory tree, and nothing of it is returned.\<close>

theorem excluded_trees_are_hidden:
  assumes "p @ ''/**'' \<in> set (cl_exclude col)"
  shows "r \<in> set (filter_exclude col rs) \<Longrightarrow>
    r \<in> set rs \<and> rel_path col r \<noteq> p \<and> \<not> prefix (p @ ''/'') (rel_path col r)"
  using assms pattern_excludes_tree [of p] by (auto simp: filter_exclude_kept prefix_def)

lemma excluded_trees_are_hidden_witness:
  "let col = (sample_collection ''notes'' ''/srv/notes'' 2)\<lparr>cl_exclude := [''openclaw/workspace/**'']\<rparr>;
       r = hit ''#1'' ''/srv/notes/openclaw/readme.md'' 1
   in r \<in> set (filter_exclude col [r]) \<and> \<not> prefix ''openclaw/workspace/'' (rel_path col r)"
proof -
  define col where "col = (sample_collection ''notes'' ''/srv/notes'' 2)\<lparr>cl_exclude := [''openclaw/workspace/**'']\<rparr>"
  define r where "r = hit ''#1'' ''/srv/notes/openclaw/readme.md'' 1"
  have m: "''openclaw/workspace'' @ ''/**'' \<in> set (cl_exclude col)" by (simp add: col_def)
  have "filter_exclude col [r] = [r]" unfolding col_def r_def by code_simp
  then have k: "r \<in> set (filter_exclude col [r])" by simp
  from excluded_trees_are_hidden [OF m k] k show ?thesis by (simp add: col_def r_def Let_def)
qed

text \<open>Two stars elsewhere in a pattern match like one star, which stops at a slash: the pattern for a
  directory at any depth hides it one level down, and not two.\<close>

theorem inner_double_star_is_one_level:
  "pattern_excludes ''**/node_modules/**'' ''web/node_modules/x.md'' \<and>
   \<not> pattern_excludes ''**/node_modules/**'' ''web/app/node_modules/x.md''"
  by code_simp

end
