(* ===== verification/Sha1.thy ===== *)
theory Sha1
  imports Go_Numbers "HOL-Library.Word"
begin

unbundle bit_operations_syntax

text \<open>
  \<open>crypto/sha1\<close> and \<open>encoding/hex\<close>: the keys of the negative cache are SHA-1 digests in hexadecimal.
  The hash works on 32-bit words with wrap-around; a message is padded to blocks of 64 bytes.
\<close>

type_synonym u32 = "32 word"

definition sha1_pad :: "nat list \<Rightarrow> nat list" where
  "sha1_pad bs =
     (let n = length bs; zeros = (119 - n mod 64) mod 64
      in bs @ [128] @ replicate zeros 0 @ map (\<lambda>i. (8 * n) div 256 ^ i mod 256) (rev [0 ..< 8]))"

fun be_words :: "nat list \<Rightarrow> u32 list" where
  "be_words (a # b # c # d # bs) = of_nat (((a * 256 + b) * 256 + c) * 256 + d) # be_words bs"
| "be_words _ = []"

text \<open>The message schedule, the last word first.\<close>

definition sha1_extend :: "u32 list \<Rightarrow> u32 list" where
  "sha1_extend ws = word_rotl 1 (ws ! 2 XOR ws ! 7 XOR ws ! 13 XOR ws ! 15) # ws"

definition sha1_schedule :: "u32 list \<Rightarrow> u32 list" where
  "sha1_schedule ws = rev ((sha1_extend ^^ 64) (rev ws))"

definition sha1_f :: "nat \<Rightarrow> u32 \<Rightarrow> u32 \<Rightarrow> u32 \<Rightarrow> u32" where
  "sha1_f t b c d =
     (if t < 20 then (b AND c) OR ((NOT b) AND d)
      else if t < 40 then b XOR c XOR d
      else if t < 60 then (b AND c) OR (b AND d) OR (c AND d)
      else b XOR c XOR d)"

definition sha1_k :: "nat \<Rightarrow> u32" where
  "sha1_k t = (if t < 20 then 0x5A827999 else if t < 40 then 0x6ED9EBA1
     else if t < 60 then 0x8F1BBCDC else 0xCA62C1D6)"

type_synonym sha1_state = "u32 \<times> u32 \<times> u32 \<times> u32 \<times> u32"

definition sha1_round :: "nat \<times> u32 \<Rightarrow> sha1_state \<Rightarrow> sha1_state" where
  "sha1_round p st =
     (let (t, w) = p; (a, b, c, d, e) = st
      in (word_rotl 5 a + sha1_f t b c d + e + w + sha1_k t, a, word_rotl 30 b, c, d))"

definition sha1_block :: "nat list \<Rightarrow> sha1_state \<Rightarrow> sha1_state" where
  "sha1_block bs st =
     (let ws = sha1_schedule (be_words bs);
          (a, b, c, d, e) = fold sha1_round (zip [0 ..< 80] ws) st;
          (a0, b0, c0, d0, e0) = st
      in (a0 + a, b0 + b, c0 + c, d0 + d, e0 + e))"

function sha1_blocks :: "nat list \<Rightarrow> sha1_state \<Rightarrow> sha1_state" where
  "sha1_blocks bs st = (if bs = [] then st else sha1_blocks (drop 64 bs) (sha1_block (take 64 bs) st))"
  by pat_completeness auto
termination
  by (relation "measure (\<lambda>(bs, st). length bs)") auto

declare sha1_blocks.simps [simp del]

definition sha1_init :: sha1_state where
  "sha1_init = (0x67452301, 0xEFCDAB89, 0x98BADCFE, 0x10325476, 0xC3D2E1F0)"

definition sha1_hex :: "string \<Rightarrow> string" where
  "sha1_hex s =
     (let (a, b, c, d, e) = sha1_blocks (sha1_pad (map byte_of s)) sha1_init
      in concat (map (\<lambda>w. hex_digits 8 (unat w)) [a, b, c, d, e]))"


end
