(* ===== verification/Deep_Negative.thy ===== *)
theory Deep_Negative
  imports Config Sha1
begin

text \<open>
  The negative cache of deep queries (\<open>orchestrator/orchestrator.go\<close>: the \<open>deepNeg\<close> fields
  and \<open>shouldSkipDeepByNegativeCache\<close>, \<open>markDeepNegative\<close>, \<open>markScopeCooldownLocked\<close>,
  \<open>CleanupDeepNegativeCache\<close>). A failed deep query is remembered under its normalized text and
  scope; three failures of one scope within five minutes put the whole scope into a cooldown. Every
  operation runs under \<open>deepNegMu\<close>, so it is one step here; the clock is the first argument.
\<close>

record deep_neg =
  dn_entries :: "(string, time) gomap"
  dn_scope_fails :: "(string, time list) gomap"
  dn_mark_count :: int
  dn_exact_hit_cnt :: int
  dn_scope_hit_cnt :: int

definition deep_neg_new :: deep_neg where
  "deep_neg_new = \<lparr>dn_entries = [], dn_scope_fails = [], dn_mark_count = 0, dn_exact_hit_cnt = 0,
     dn_scope_hit_cnt = 0\<rparr>"

definition fail_threshold :: nat where
  "fail_threshold = 3"

definition fail_window :: duration where
  "fail_window = 5 * minute"

definition normal_query :: "string \<Rightarrow> string" where
  "normal_query query =
     (let q = to_lower (trim_space query);
          q = join '' '' (str_fields q);
          rs = runes q
      in if 64 < length rs then encode_runes (take 64 rs) else q)"

definition exact_key :: "string \<Rightarrow> string \<Rightarrow> string" where
  "exact_key query scope = sha1_hex (scope @ ''|'' @ normal_query query)"

definition normal_scope :: "string \<Rightarrow> string" where
  "normal_scope scope = (let s = trim_space scope in if s = [] then ''all'' else s)"

definition scope_cooldown_key :: "string \<Rightarrow> string" where
  "scope_cooldown_key scope = sha1_hex (''scope_cooldown|'' @ normal_scope scope)"

text \<open>Is an entry for the key alive? An expired one is deleted on the way.\<close>

definition probe :: "time \<Rightarrow> string \<Rightarrow> deep_neg \<Rightarrow> bool \<times> deep_neg" where
  "probe now k d =
     (case mget (dn_entries d) k of
        None \<Rightarrow> (False, d)
      | Some expiry \<Rightarrow>
          if expiry < now then (False, d\<lparr>dn_entries := mdel k (dn_entries d)\<rparr>) else (True, d))"

definition reason_exact :: string where
  "reason_exact = ''deep_negative_cached_fallback_broad''"

definition reason_scope :: string where
  "reason_scope = ''deep_negative_scope_cooldown''"

definition should_skip :: "runtime_config \<Rightarrow> time \<Rightarrow> string \<Rightarrow> string \<Rightarrow> deep_neg \<Rightarrow>
    (bool \<times> string) \<times> deep_neg" where
  "should_skip rt now query scope d =
     (if rt_deep_negative_ttl rt \<le> 0 then ((False, []), d)
      else
        let (hit, d) = probe now (exact_key query scope) d in
        if hit then ((True, reason_exact), d\<lparr>dn_exact_hit_cnt := dn_exact_hit_cnt d + 1\<rparr>)
        else if \<not> rt_allow_cpu_deep_query rt then ((False, []), d)
        else
          let (hit, d) = probe now (scope_cooldown_key scope) d in
          if hit then ((True, reason_scope), d\<lparr>dn_scope_hit_cnt := dn_scope_hit_cnt d + 1\<rparr>)
          else ((False, []), d))"

definition recent_fails :: "time \<Rightarrow> time list \<Rightarrow> time list" where
  "recent_fails now ts = filter (\<lambda>t. now - t \<le> fail_window) ts"

definition scope_fails :: "deep_neg \<Rightarrow> string \<Rightarrow> time list" where
  "scope_fails d scope = (case mget (dn_scope_fails d) scope of None \<Rightarrow> [] | Some ts \<Rightarrow> ts)"

definition mark_scope_cooldown :: "runtime_config \<Rightarrow> time \<Rightarrow> string \<Rightarrow> deep_neg \<Rightarrow> deep_neg" where
  "mark_scope_cooldown rt now scope d =
     (let scope = normal_scope scope; cooldown = rt_deep_negative_scope_cooldown rt in
      if cooldown \<le> 0 then d
      else
        let dst = recent_fails now (scope_fails d scope) @ [now];
            d = d\<lparr>dn_scope_fails := mput scope dst (dn_scope_fails d)\<rparr>
        in if length dst < fail_threshold then d
           else d\<lparr>dn_entries := mput (scope_cooldown_key scope) (now + cooldown) (dn_entries d),
                  dn_scope_fails := mdel scope (dn_scope_fails d)\<rparr>)"

definition mark_deep_negative :: "runtime_config \<Rightarrow> time \<Rightarrow> string \<Rightarrow> string \<Rightarrow> deep_neg \<Rightarrow> deep_neg" where
  "mark_deep_negative rt now query scope d =
     (if rt_deep_negative_ttl rt \<le> 0 then d
      else
        let d = d\<lparr>dn_entries :=
                  mput (exact_key query scope) (now + rt_deep_negative_ttl rt) (dn_entries d)\<rparr>;
            d = (if rt_allow_cpu_deep_query rt then mark_scope_cooldown rt now scope d else d)
        in d\<lparr>dn_mark_count := dn_mark_count d + 1\<rparr>)"

definition cleanup_scope_fails :: "time \<Rightarrow> (string, time list) gomap \<Rightarrow> (string, time list) gomap" where
  "cleanup_scope_fails now m =
     filter (\<lambda>(s, ts). ts \<noteq> []) (map (\<lambda>(s, ts). (s, recent_fails now ts)) m)"

definition cleanup_deep_negative :: "time \<Rightarrow> deep_neg \<Rightarrow> int \<times> deep_neg" where
  "cleanup_deep_negative now d =
     (let live = mfilter (\<lambda>k expiry. \<not> expiry < now) (dn_entries d)
      in (int (length (mkeys (dn_entries d)) - length (mkeys live)),
          d\<lparr>dn_entries := live, dn_scope_fails := cleanup_scope_fails now (dn_scope_fails d)\<rparr>))"

subsection \<open>Invariant\<close>

definition dn_inv :: "deep_neg \<Rightarrow> bool" where
  "dn_inv d \<longleftrightarrow> mwf (dn_entries d) \<and> mwf (dn_scope_fails d) \<and>
     (\<forall>s. length (scope_fails d s) < fail_threshold)"

lemma dn_inv_new [simp]: "dn_inv deep_neg_new"
  by (simp add: dn_inv_def deep_neg_new_def scope_fails_def fail_threshold_def)

lemma scope_fails_upd [simp]:
  "scope_fails (d\<lparr>dn_entries := es\<rparr>) s = scope_fails d s"
  "scope_fails (d\<lparr>dn_mark_count := c\<rparr>) s = scope_fails d s"
  "scope_fails (d\<lparr>dn_exact_hit_cnt := c\<rparr>) s = scope_fails d s"
  "scope_fails (d\<lparr>dn_scope_hit_cnt := c\<rparr>) s = scope_fails d s"
  by (simp_all add: scope_fails_def)

lemma probe_eq:
  "probe now k d = ((\<exists>e. mget (dn_entries d) k = Some e \<and> now \<le> e),
     d\<lparr>dn_entries := (if \<exists>e. mget (dn_entries d) k = Some e \<and> e < now
                      then mdel k (dn_entries d) else dn_entries d)\<rparr>)"
  by (auto simp: probe_def split: option.splits)

lemma probe_inv [inv_intros]: "dn_inv d \<Longrightarrow> dn_inv (snd (probe now k d))"
  by (auto simp: probe_eq dn_inv_def)

lemma should_skip_inv [inv_intros]: "dn_inv d \<Longrightarrow> dn_inv (snd (should_skip rt now q s d))"
  by (auto simp: should_skip_def probe_eq Let_def dn_inv_def)

lemma mark_scope_cooldown_inv [inv_intros]:
  assumes "dn_inv d" shows "dn_inv (mark_scope_cooldown rt now s d)"
proof -
  have l: "length (scope_fails d t) < fail_threshold" for t using assms by (simp add: dn_inv_def)
  show ?thesis
    using assms l
    by (auto simp: dn_inv_def mark_scope_cooldown_def Let_def scope_fails_def fail_threshold_def
        split: option.splits)
qed

lemma mark_deep_negative_inv [inv_intros]:
  "dn_inv d \<Longrightarrow> dn_inv (mark_deep_negative rt now q s d)"
  using mark_scope_cooldown_inv [of "d\<lparr>dn_entries := mput k e (dn_entries d)\<rparr>" for k e]
  by (auto simp: mark_deep_negative_def Let_def dn_inv_def)

lemma mget_cleanup_scope_fails:
  "mwf m \<Longrightarrow> mget (cleanup_scope_fails now m) s =
     (case mget m s of None \<Rightarrow> None
      | Some ts \<Rightarrow> if recent_fails now ts = [] then None else Some (recent_fails now ts))"
  by (induction m)
     (auto simp: cleanup_scope_fails_def mget_def mwf_def map_of_eq_None_iff rev_image_eqI
       split: option.splits)

lemma mwf_cleanup_scope_fails: "mwf m \<Longrightarrow> mwf (cleanup_scope_fails now m)"
  by (induction m) (auto simp: cleanup_scope_fails_def mwf_def rev_image_eqI)

lemma scope_fails_cleanup:
  "mwf (dn_scope_fails d) \<Longrightarrow>
   scope_fails (snd (cleanup_deep_negative now d)) s = recent_fails now (scope_fails d s)"
  by (auto simp: scope_fails_def cleanup_deep_negative_def Let_def mget_cleanup_scope_fails
      recent_fails_def split: option.splits)

lemma cleanup_inv [inv_intros]:
  assumes "dn_inv d" shows "dn_inv (snd (cleanup_deep_negative now d))"
proof -
  have wf: "mwf (dn_entries d)" "mwf (dn_scope_fails d)" using assms by (simp_all add: dn_inv_def)
  have "length (recent_fails now (scope_fails d s)) < fail_threshold" for s
    using assms unfolding dn_inv_def recent_fails_def by (meson le_less_trans length_filter_le)
  then show ?thesis
    using wf scope_fails_cleanup [OF wf(2)]
    by (simp add: dn_inv_def) (simp add: cleanup_deep_negative_def Let_def mwf_cleanup_scope_fails)
qed

subsection \<open>Runs\<close>

datatype dn_op = DnMark time string string | DnSkip time string string | DnCleanup time

fun dn_time :: "dn_op \<Rightarrow> time" where
  "dn_time (DnMark t q s) = t"
| "dn_time (DnSkip t q s) = t"
| "dn_time (DnCleanup t) = t"

fun dn_step :: "runtime_config \<Rightarrow> dn_op \<Rightarrow> deep_neg \<Rightarrow> deep_neg" where
  "dn_step rt (DnMark t q s) d = mark_deep_negative rt t q s d"
| "dn_step rt (DnSkip t q s) d = snd (should_skip rt t q s d)"
| "dn_step rt (DnCleanup t) d = snd (cleanup_deep_negative t d)"

definition dn_run :: "runtime_config \<Rightarrow> dn_op list \<Rightarrow> deep_neg \<Rightarrow> deep_neg" where
  "dn_run rt ops d = fold (dn_step rt) ops d"

lemma dn_run_simps [simp]:
  "dn_run rt [] d = d"
  "dn_run rt (op # ops) d = dn_run rt ops (dn_step rt op d)"
  "dn_run rt (ops @ ops') d = dn_run rt ops' (dn_run rt ops d)"
  by (simp_all add: dn_run_def)

lemma dn_step_inv [inv_intros]: "dn_inv d \<Longrightarrow> dn_inv (dn_step rt op d)"
  by (cases op) (auto intro: inv_intros)

lemma dn_run_inv [inv_intros]: "dn_inv d \<Longrightarrow> dn_inv (dn_run rt ops d)"
  by (induction ops arbitrary: d) (auto intro: inv_intros)

text \<open>
  What its client needs of a negative cache: an operation at time \<open>t\<close> never
  shortens a deadline that lies between \<open>t\<close> and \<open>t\<close> plus the holding time. So
  whatever is interleaved, a deadline stands until it has passed.
\<close>

locale deadline_store =
  fixes alive :: "'k \<Rightarrow> time \<Rightarrow> 's \<Rightarrow> bool"
    and step :: "'op \<Rightarrow> 's \<Rightarrow> 's"
    and time_of :: "'op \<Rightarrow> time"
    and hold :: duration
    and inv :: "'s \<Rightarrow> bool"
  assumes step_inv: "inv st \<Longrightarrow> inv (step op st)"
    and step_keeps: "inv st \<Longrightarrow> alive k dl st \<Longrightarrow> time_of op \<le> dl \<Longrightarrow> dl \<le> time_of op + hold \<Longrightarrow>
        alive k dl (step op st)"
begin

lemma fold_keeps:
  assumes "inv st" and "alive k dl st"
    and "\<forall>op\<in>set ops. time_of op \<le> dl \<and> dl \<le> time_of op + hold"
  shows "alive k dl (fold step ops st)"
  using assms by (induction ops arbitrary: st) (auto simp: step_inv step_keeps)

end

definition dn_alive :: "string \<Rightarrow> time \<Rightarrow> deep_neg \<Rightarrow> bool" where
  "dn_alive k dl d \<longleftrightarrow> (\<exists>e. mget (dn_entries d) k = Some e \<and> dl \<le> e)"

definition hold_time :: "runtime_config \<Rightarrow> duration" where
  "hold_time rt = min (rt_deep_negative_ttl rt) (rt_deep_negative_scope_cooldown rt)"

lemma dn_alive_upd [simp]:
  "dn_alive k dl (d\<lparr>dn_scope_fails := f\<rparr>) = dn_alive k dl d"
  "dn_alive k dl (d\<lparr>dn_mark_count := c\<rparr>) = dn_alive k dl d"
  "dn_alive k dl (d\<lparr>dn_exact_hit_cnt := c\<rparr>) = dn_alive k dl d"
  "dn_alive k dl (d\<lparr>dn_scope_hit_cnt := c\<rparr>) = dn_alive k dl d"
  by (simp_all add: dn_alive_def)

lemma dn_alive_put: "dl \<le> e \<Longrightarrow> dn_alive k dl d \<Longrightarrow> dn_alive k dl (d\<lparr>dn_entries := mput k' e (dn_entries d)\<rparr>)"
  by (auto simp: dn_alive_def)

lemma probe_alive: "dn_alive k dl d \<Longrightarrow> now \<le> dl \<Longrightarrow> dn_alive k dl (snd (probe now k' d))"
  by (auto simp: probe_eq dn_alive_def)

lemma should_skip_alive: "dn_alive k dl d \<Longrightarrow> now \<le> dl \<Longrightarrow> dn_alive k dl (snd (should_skip rt now q s d))"
  using probe_alive [of k dl d now] probe_alive [of k dl _ now]
  by (auto simp: should_skip_def Let_def case_prod_beta)

lemma mark_scope_alive:
  "dn_alive k dl d \<Longrightarrow> dl \<le> now + rt_deep_negative_scope_cooldown rt \<Longrightarrow>
   dn_alive k dl (mark_scope_cooldown rt now s d)"
  by (auto simp: mark_scope_cooldown_def Let_def dn_alive_def)

lemma mark_alive:
  "dn_alive k dl d \<Longrightarrow> dl \<le> now + hold_time rt \<Longrightarrow> dn_alive k dl (mark_deep_negative rt now q s d)"
  by (auto simp: mark_deep_negative_def Let_def hold_time_def intro!: mark_scope_alive dn_alive_put)

lemma cleanup_alive:
  "mwf (dn_entries d) \<Longrightarrow> dn_alive k dl d \<Longrightarrow> now \<le> dl \<Longrightarrow>
   dn_alive k dl (snd (cleanup_deep_negative now d))"
  by (auto simp: cleanup_deep_negative_def Let_def dn_alive_def gm.get_keep)

interpretation dn: deadline_store dn_alive "dn_step rt" dn_time "hold_time rt" dn_inv for rt
proof (unfold_locales, goal_cases)
  case (2 st k dl op)
  then show ?case
    by (cases op) (auto simp: dn_inv_def intro: mark_alive should_skip_alive cleanup_alive)
qed (rule dn_step_inv)

lemma mark_makes_alive:
  assumes "0 < rt_deep_negative_ttl rt" and "dl \<le> t + hold_time rt"
  shows "dn_alive (exact_key q s) dl (mark_deep_negative rt t q s d)"
proof -
  have "dn_alive (exact_key q s) dl
      (d\<lparr>dn_entries := mput (exact_key q s) (t + rt_deep_negative_ttl rt) (dn_entries d)\<rparr>)"
    using assms by (auto simp: dn_alive_def hold_time_def)
  then show ?thesis
    using assms by (auto simp: mark_deep_negative_def Let_def hold_time_def intro!: mark_scope_alive)
qed

lemma alive_skips_exact:
  "0 < rt_deep_negative_ttl rt \<Longrightarrow> dn_alive (exact_key q s) now d \<Longrightarrow>
   fst (should_skip rt now q s d) = (True, reason_exact)"
  by (auto simp: should_skip_def Let_def probe_eq dn_alive_def)

lemma alive_skips_scope:
  assumes "0 < rt_deep_negative_ttl rt" and "rt_allow_cpu_deep_query rt"
    and "dn_alive (scope_cooldown_key s) now d"
  shows "fst (fst (should_skip rt now q s d))"
  using assms
  by (auto simp: should_skip_def Let_def probe_eq dn_alive_def)

text \<open>The failures of a scope at or after \<open>t0\<close>, until the cooldown starts.\<close>

definition fails_since :: "time \<Rightarrow> string \<Rightarrow> deep_neg \<Rightarrow> nat" where
  "fails_since t0 s d = length (filter (\<lambda>t. t0 \<le> t) (scope_fails d (normal_scope s)))"

definition cooling_or :: "time \<Rightarrow> time \<Rightarrow> string \<Rightarrow> nat \<Rightarrow> deep_neg \<Rightarrow> bool" where
  "cooling_or t0 dl s n d \<longleftrightarrow> dn_alive (scope_cooldown_key s) dl d \<or> n \<le> fails_since t0 s d"

fun is_mark_of :: "string \<Rightarrow> dn_op \<Rightarrow> bool" where
  "is_mark_of s (DnMark t q s') \<longleftrightarrow> normal_scope s' = normal_scope s"
| "is_mark_of s _ \<longleftrightarrow> False"

lemma normal_scope_idem [simp]: "normal_scope (normal_scope s) = normal_scope s"
  by (simp add: normal_scope_def Let_def) (simp add: trim_space_def trim_chunks_def rune_chunks_ascii
      ascii_string_def byte_of_def space_chunk_def rune_is_space_def)

lemma scope_cooldown_key_normal [simp]: "scope_cooldown_key (normal_scope s) = scope_cooldown_key s"
  by (simp add: scope_cooldown_key_def)

lemma scope_fails_put [simp]:
  "scope_fails (d\<lparr>dn_scope_fails := mput s ts (dn_scope_fails d')\<rparr>) s' =
     (if s' = s then ts else scope_fails (d'\<lparr>dn_entries := dn_entries d\<rparr>) s')"
  by (simp add: scope_fails_def)

lemma fails_recent:
  "now \<le> t0 + fail_window \<Longrightarrow>
   length (filter (\<lambda>t. t0 \<le> t) ts) \<le> length (filter (\<lambda>t. t0 \<le> t) (recent_fails now ts))"
  by (induction ts) (auto simp: recent_fails_def)

lemma mark_scope_cooling:
  assumes "dn_inv d" and "t0 \<le> t" and "t \<le> t0 + fail_window" and "0 < rt_deep_negative_scope_cooldown rt"
    and "dl \<le> t0 + rt_deep_negative_scope_cooldown rt" and "n \<le> fails_since t0 s d"
    and "normal_scope s' = normal_scope s"
  shows "cooling_or t0 dl s (Suc n) (mark_scope_cooldown rt t s' d)"
proof -
  let ?ts = "scope_fails d (normal_scope s)"
  let ?dst = "recent_fails t ?ts @ [t]"
  have "n \<le> length (filter (\<lambda>x. t0 \<le> x) (recent_fails t ?ts))"
    using fails_recent [OF assms(3), of ?ts] assms(6) by (simp add: fails_since_def)
  then have dst: "Suc n \<le> length (filter (\<lambda>x. t0 \<le> x) ?dst)" using assms(2) by simp
  have key: "scope_cooldown_key s' = scope_cooldown_key s"
    using assms(7) by (simp add: scope_cooldown_key_def)
  show ?thesis
  proof (cases "length ?dst < fail_threshold")
    case True
    then have "scope_fails (mark_scope_cooldown rt t s' d) (normal_scope s) = ?dst"
      using assms(4,7) by (simp add: mark_scope_cooldown_def Let_def)
    then show ?thesis using dst by (simp add: cooling_or_def fails_since_def)
  next
    case False
    then have "mget (dn_entries (mark_scope_cooldown rt t s' d)) (scope_cooldown_key s) =
        Some (t + rt_deep_negative_scope_cooldown rt)"
      using assms(4,7) by (simp add: mark_scope_cooldown_def Let_def key)
    then show ?thesis using assms(2,5) by (auto simp: cooling_or_def dn_alive_def)
  qed
qed

lemma scope_fails_probe [simp]: "scope_fails (snd (probe now k d)) s = scope_fails d s"
  by (simp add: probe_eq)

lemma scope_fails_skip [simp]: "scope_fails (snd (should_skip rt now q s' d)) s = scope_fails d s"
  by (simp add: should_skip_def Let_def case_prod_beta)

lemma scope_fails_mark_other:
  "normal_scope s' \<noteq> s \<Longrightarrow> scope_fails (mark_deep_negative rt t q s' d) s = scope_fails d s"
  by (simp add: mark_deep_negative_def mark_scope_cooldown_def Let_def)
     (simp add: scope_fails_def)

lemma dn_step_cooling:
  assumes "dn_inv d" and "t0 \<le> dn_time op" and "dn_time op \<le> t0 + fail_window" and "dn_time op \<le> dl"
    and "0 < rt_deep_negative_ttl rt" and "0 < rt_deep_negative_scope_cooldown rt"
    and "rt_allow_cpu_deep_query rt" and "dl \<le> t0 + hold_time rt" and "cooling_or t0 dl s n d"
  shows "cooling_or t0 dl s (if is_mark_of s op then Suc n else n) (dn_step rt op d)"
proof (cases "dn_alive (scope_cooldown_key s) dl d")
  case True
  then show ?thesis
    using dn.step_keeps [OF assms(1) True assms(4), of rt] assms(2,8) by (simp add: cooling_or_def)
next
  case False
  with assms(9) have n: "n \<le> fails_since t0 s d" by (simp add: cooling_or_def)
  have hold: "dl \<le> t0 + rt_deep_negative_scope_cooldown rt" using assms(8) by (simp add: hold_time_def)
  show ?thesis
  proof (cases op)
    case (DnMark t q s')
    let ?d = "d\<lparr>dn_entries := mput (exact_key q s') (t + rt_deep_negative_ttl rt) (dn_entries d)\<rparr>"
    have inv: "dn_inv ?d" using assms(1) by (simp add: dn_inv_def)
    show ?thesis
    proof (cases "normal_scope s' = normal_scope s")
      case True
      have "n \<le> fails_since t0 s ?d" using n by (simp add: fails_since_def)
      from mark_scope_cooling [OF inv _ _ assms(6) hold this True, of t] assms DnMark
      show ?thesis by (simp add: mark_deep_negative_def Let_def True cooling_or_def fails_since_def)
    next
      case False
      then show ?thesis
        using n scope_fails_mark_other [of s' "normal_scope s" rt t q d]
        by (auto simp: DnMark cooling_or_def fails_since_def)
    qed
  next
    case (DnSkip t q s')
    then show ?thesis using n by (simp add: cooling_or_def fails_since_def)
  next
    case (DnCleanup t)
    then show ?thesis
      using n fails_recent [of t t0 "scope_fails d (normal_scope s)"] assms(1,3)
        scope_fails_cleanup [of d t "normal_scope s"]
      by (simp add: cooling_or_def fails_since_def dn_inv_def)
  qed
qed

lemma dn_run_cooling:
  assumes "dn_inv d" and "\<forall>op\<in>set ops. t0 \<le> dn_time op \<and> dn_time op \<le> t0 + fail_window \<and> dn_time op \<le> dl"
    and "0 < rt_deep_negative_ttl rt" and "0 < rt_deep_negative_scope_cooldown rt"
    and "rt_allow_cpu_deep_query rt" and "dl \<le> t0 + hold_time rt" and "cooling_or t0 dl s n d"
  shows "cooling_or t0 dl s (n + length (filter (is_mark_of s) ops)) (dn_run rt ops d)"
  using assms(1,2,7)
proof (induction ops arbitrary: d n)
  case (Cons op ops)
  have "cooling_or t0 dl s (if is_mark_of s op then Suc n else n) (dn_step rt op d)"
    using dn_step_cooling [OF Cons(2) _ _ _ assms(3-6) Cons(4)] Cons(3) by simp
  from Cons(1) [OF dn_step_inv [OF Cons(2)] _ this] Cons(3) show ?case by (cases "is_mark_of s op") auto
qed simp

subsection \<open>Where an entry comes from\<close>

fun mark_times :: "string \<Rightarrow> dn_op list \<Rightarrow> time list" where
  "mark_times s [] = []"
| "mark_times s (op # ops) = (if is_mark_of s op then [dn_time op] else []) @ mark_times s ops"

lemma mark_times_append: "mark_times s (ops @ ops') = mark_times s ops @ mark_times s ops'"
  by (induction ops) auto

definition exact_cause :: "runtime_config \<Rightarrow> dn_op list \<Rightarrow> string \<Rightarrow> time \<Rightarrow> bool" where
  "exact_cause rt ops k e \<longleftrightarrow>
     (\<exists>t q s. DnMark t q s \<in> set ops \<and> k = exact_key q s \<and> e = t + rt_deep_negative_ttl rt)"

definition scope_cause :: "runtime_config \<Rightarrow> dn_op list \<Rightarrow> string \<Rightarrow> time \<Rightarrow> bool" where
  "scope_cause rt ops k e \<longleftrightarrow>
     (\<exists>s t1 t2 t. k = scope_cooldown_key s \<and> subseq [t1, t2, t] (mark_times s ops) \<and>
        t - t1 \<le> fail_window \<and> t - t2 \<le> fail_window \<and> e = t + rt_deep_negative_scope_cooldown rt)"

definition dn_caused :: "runtime_config \<Rightarrow> dn_op list \<Rightarrow> deep_neg \<Rightarrow> bool" where
  "dn_caused rt ops d \<longleftrightarrow>
     (\<forall>k e. mget (dn_entries d) k = Some e \<longrightarrow> exact_cause rt ops k e \<or> scope_cause rt ops k e) \<and>
     (\<forall>s. subseq (scope_fails d (normal_scope s)) (mark_times s ops))"

lemma exact_cause_mono: "exact_cause rt ops k e \<Longrightarrow> exact_cause rt (ops @ ops') k e"
  by (auto simp: exact_cause_def)

lemma scope_cause_mono: "scope_cause rt ops k e \<Longrightarrow> scope_cause rt (ops @ ops') k e"
  unfolding scope_cause_def mark_times_append
  by (elim exE conjE, intro exI conjI, assumption, rule subseq_rev_drop_many)

lemma dn_caused_mono: "dn_caused rt ops d \<Longrightarrow> dn_caused rt (ops @ ops') d"
  unfolding dn_caused_def mark_times_append
  by (meson exact_cause_mono scope_cause_mono subseq_rev_drop_many)

lemma dn_caused_less:
  assumes "dn_caused rt ops d"
    and "\<And>k e. mget (dn_entries d') k = Some e \<Longrightarrow> mget (dn_entries d) k = Some e"
    and "\<And>s. subseq (scope_fails d' s) (scope_fails d s)"
  shows "dn_caused rt ops d'"
  using assms unfolding dn_caused_def by (meson subseq_order.order_trans)

lemma dn_caused_probe: "dn_caused rt ops d \<Longrightarrow> dn_caused rt ops (snd (probe now k d))"
  by (erule dn_caused_less) (auto simp: probe_eq split: if_splits)

lemma dn_caused_skip: "dn_caused rt ops d \<Longrightarrow> dn_caused rt ops (snd (should_skip rt now q s d))"
  by (erule dn_caused_less) (auto simp: should_skip_def Let_def probe_eq split: if_splits)

lemma dn_caused_cleanup:
  assumes "dn_inv d" and "dn_caused rt ops d"
  shows "dn_caused rt ops (snd (cleanup_deep_negative now d))"
proof (rule dn_caused_less [OF assms(2)])
  fix k e assume "mget (dn_entries (snd (cleanup_deep_negative now d))) k = Some e"
  then show "mget (dn_entries d) k = Some e"
    using assms(1) by (auto simp: cleanup_deep_negative_def Let_def dn_inv_def dest: gm.keep_SomeD)
next
  fix s show "subseq (scope_fails (snd (cleanup_deep_negative now d)) s) (scope_fails d s)"
    using assms(1) scope_fails_cleanup [of d now s] by (simp add: dn_inv_def recent_fails_def)
qed

lemma fails_subseq_mark:
  assumes "dn_caused rt ops d" and "op = DnMark t q s'"
  shows "subseq (recent_fails t (scope_fails d (normal_scope s')) @ [t]) (mark_times s' (ops @ [op]))"
proof -
  have "subseq (scope_fails d (normal_scope s')) (mark_times s' ops)"
    using assms(1) unfolding dn_caused_def by blast
  moreover have "subseq (recent_fails t (scope_fails d (normal_scope s'))) (scope_fails d (normal_scope s'))"
    by (simp add: recent_fails_def)
  ultimately show ?thesis
    using assms(2) subseq_order.order_trans by (fastforce simp: mark_times_append)
qed

lemma length2E:
  assumes "\<not> length (xs @ [t]) < fail_threshold" and "length xs < fail_threshold"
  obtains a b where "xs = [a, b]"
proof -
  have "length xs = 2" using assms by (simp add: fail_threshold_def)
  then show ?thesis using that by (auto simp: length_Suc_conv numeral_2_eq_2)
qed

lemma dn_caused_activate:
  assumes "dn_caused rt ops d" and "scope_cause rt ops k e"
    and "d' = d\<lparr>dn_entries := mput k e (dn_entries d),
                dn_scope_fails := mdel s (mput s ts (dn_scope_fails d0))\<rparr>"
    and "dn_scope_fails d0 = dn_scope_fails d"
  shows "dn_caused rt ops d'"
proof -
  have "scope_fails d' s' = (if s' = s then [] else scope_fails d s')" for s'
    using assms(3,4) by (simp add: scope_fails_def)
  moreover have "mget (dn_entries d') k' = (if k' = k then Some e else mget (dn_entries d) k')" for k'
    using assms(3) by simp
  ultimately show ?thesis using assms(1,2) unfolding dn_caused_def by simp
qed

lemma dn_caused_fail:
  assumes "dn_caused rt ops d" and "\<And>s'. normal_scope s' = s \<Longrightarrow> subseq ts (mark_times s' ops)"
    and "d' = d\<lparr>dn_scope_fails := mput s ts (dn_scope_fails d0)\<rparr>"
    and "dn_scope_fails d0 = dn_scope_fails d"
  shows "dn_caused rt ops d'"
proof -
  have "scope_fails d' s' = (if s' = s then ts else scope_fails d s')" for s'
    using assms(3,4) by (simp add: scope_fails_def)
  then show ?thesis using assms(1-3) unfolding dn_caused_def by simp
qed

lemma dn_caused_mark:
  assumes "dn_inv d" and "dn_caused rt ops d" and "op = DnMark t q s'"
  shows "dn_caused rt (ops @ [op]) (mark_deep_negative rt t q s' d)"
proof (cases "rt_deep_negative_ttl rt \<le> 0")
  case True
  then show ?thesis using dn_caused_mono [OF assms(2)] by (simp add: mark_deep_negative_def)
next
  case ttl: False
  let ?d = "d\<lparr>dn_entries := mput (exact_key q s') (t + rt_deep_negative_ttl rt) (dn_entries d)\<rparr>"
  have base: "dn_caused rt (ops @ [op]) ?d"
    using dn_caused_mono [OF assms(2), of "[op]"] assms(3)
    by (auto simp: dn_caused_def exact_cause_def)
  have count: "dn_caused rt ops' (e\<lparr>dn_mark_count := c\<rparr>) = dn_caused rt ops' e" for ops' e c
    by (simp add: dn_caused_def)
  have "dn_caused rt (ops @ [op]) (mark_scope_cooldown rt t s' ?d)"
  proof (cases "rt_deep_negative_scope_cooldown rt \<le> 0")
    case True
    then show ?thesis using base by (simp add: mark_scope_cooldown_def Let_def)
  next
    case False
    let ?r = "recent_fails t (scope_fails d (normal_scope s'))"
    have sub: "subseq (?r @ [t]) (mark_times s' (ops @ [op]))" by (rule fails_subseq_mark [OF assms(2,3)])
    have cong: "mark_times s (ops @ [op]) = mark_times s' (ops @ [op])"
      if "normal_scope s = normal_scope s'" for s
    proof -
      have "is_mark_of s o' = is_mark_of s' o'" for o' using that by (cases o') auto
      then show ?thesis by (induction ops) auto
    qed
    show ?thesis
    proof (cases "length (?r @ [t]) < fail_threshold")
      case True
      then have eq: "mark_scope_cooldown rt t s' ?d =
          ?d\<lparr>dn_scope_fails := mput (normal_scope s') (?r @ [t]) (dn_scope_fails ?d)\<rparr>"
        using False by (simp add: mark_scope_cooldown_def Let_def)
      show ?thesis
      proof (rule dn_caused_fail [OF base _ eq refl])
        fix s assume "normal_scope s = normal_scope s'"
        from cong [OF this] show "subseq (?r @ [t]) (mark_times s (ops @ [op]))" by (simp only: sub)
      qed
    next
      case act: False
      have "length ?r < fail_threshold"
        using assms(1) unfolding dn_inv_def recent_fails_def by (meson le_less_trans length_filter_le)
      from act this obtain t1 t2 where r: "?r = [t1, t2]" by (rule length2E)
      have "set ?r \<subseteq> {x. t - x \<le> fail_window}" by (auto simp: recent_fails_def)
      then have cause: "scope_cause rt (ops @ [op]) (scope_cooldown_key s') (t + rt_deep_negative_scope_cooldown rt)"
        using sub unfolding scope_cause_def r by auto
      have eq: "mark_scope_cooldown rt t s' ?d =
          ?d\<lparr>dn_entries := mput (scope_cooldown_key s') (t + rt_deep_negative_scope_cooldown rt) (dn_entries ?d),
             dn_scope_fails := mdel (normal_scope s') (mput (normal_scope s') (?r @ [t]) (dn_scope_fails ?d))\<rparr>"
        using act False by (simp add: mark_scope_cooldown_def Let_def)
      show ?thesis by (rule dn_caused_activate [OF base cause eq refl])
    qed
  qed
  then show ?thesis using base ttl by (simp add: mark_deep_negative_def Let_def count)
qed

lemma dn_caused_step:
  assumes "dn_inv d" and "dn_caused rt ops d"
  shows "dn_caused rt (ops @ [op]) (dn_step rt op d)"
proof (cases op)
  case (DnMark t q s)
  then show ?thesis using dn_caused_mark [OF assms DnMark] by simp
next
  case (DnSkip t q s)
  then show ?thesis using dn_caused_mono [OF dn_caused_skip [OF assms(2)]] by simp
next
  case (DnCleanup t)
  then show ?thesis using dn_caused_mono [OF dn_caused_cleanup [OF assms]] by simp
qed

lemma dn_caused_run: "dn_caused rt ops (dn_run rt ops deep_neg_new)"
proof (induction ops rule: rev_induct)
  case Nil
  then show ?case by (simp add: dn_caused_def deep_neg_new_def scope_fails_def)
next
  case (snoc op ops)
  then show ?case by (simp add: dn_caused_step dn_run_inv)
qed

subsection \<open>Properties\<close>

text \<open>C31: A failed deep query is remembered: whatever marks, checks and clean-ups are
  interleaved after it, the same query in the same scope (up to case and white space) is skipped until the
  holding time (the shorter of the entry's life and the scope cooldown) is over.\<close>

theorem failed_query_is_skipped:
  assumes "dn_inv d" and "0 < rt_deep_negative_ttl rt"
    and "\<forall>op\<in>set ops. t \<le> dn_time op \<and> dn_time op \<le> now"
    and "now \<le> t + hold_time rt" and "normal_query q' = normal_query q"
  shows "fst (should_skip rt now q' s (dn_run rt ops (mark_deep_negative rt t q s d))) =
    (True, reason_exact)"
proof -
  have "dn_alive (exact_key q s) now (mark_deep_negative rt t q s d)"
    using mark_makes_alive assms(2,4) by blast
  moreover have "\<forall>op\<in>set ops. dn_time op \<le> now \<and> now \<le> dn_time op + hold_time rt"
    using assms(3,4) by auto
  ultimately have "dn_alive (exact_key q s) now (dn_run rt ops (mark_deep_negative rt t q s d))"
    unfolding dn_run_def using dn.fold_keeps mark_deep_negative_inv [OF assms(1)] by blast
  moreover have "exact_key q' s = exact_key q s" using assms(5) by (simp add: exact_key_def)
  ultimately show ?thesis using alive_skips_exact [OF assms(2)] by simp
qed

lemma failed_query_is_skipped_witness:
  "fst (should_skip (runtime_defaults sample_runtime) (5 * minute) ''why  NOW'' ''notes''
     (dn_run (runtime_defaults sample_runtime) [DnCleanup minute, DnSkip (2 * minute) ''why now'' ''all'']
       (mark_deep_negative (runtime_defaults sample_runtime) 0 ''Why now'' ''notes'' deep_neg_new))) =
   (True, reason_exact)"
proof (rule failed_query_is_skipped)
  show "0 < rt_deep_negative_ttl (runtime_defaults sample_runtime)" by code_simp
  show "5 * minute \<le> 0 + hold_time (runtime_defaults sample_runtime)" by code_simp
  show "normal_query ''why  NOW'' = normal_query ''Why now''" by code_simp
qed simp_all



text \<open>A skip is always justified: after any run from the empty cache, a query is only skipped
  because of a failure recorded under its key less than the entry's life ago, or of three failures of one scope,
  each within five minutes of the last, less than the cooldown ago.\<close>

theorem skip_is_justified:
  assumes "fst (fst (should_skip rt now q s (dn_run rt ops deep_neg_new)))"
  shows "\<exists>k\<in>{exact_key q s, scope_cooldown_key s}. \<exists>e\<ge>now. exact_cause rt ops k e \<or> scope_cause rt ops k e"
proof -
  let ?d = "dn_run rt ops deep_neg_new"
  obtain k e where "k \<in> {exact_key q s, scope_cooldown_key s}" "mget (dn_entries ?d) k = Some e" "now \<le> e"
    using assms by (auto simp: should_skip_def Let_def probe_eq split: if_splits)
  then show ?thesis using dn_caused_run [of rt ops] unfolding dn_caused_def by blast
qed

lemma skip_is_justified_witness:
  "\<exists>k\<in>{exact_key ''why now'' ''notes'', scope_cooldown_key ''notes''}. \<exists>e\<ge>minute.
     exact_cause (runtime_defaults sample_runtime) [DnMark 0 ''why now'' ''notes''] k e \<or>
     scope_cause (runtime_defaults sample_runtime) [DnMark 0 ''why now'' ''notes''] k e"
proof (rule skip_is_justified)
  have "0 < rt_deep_negative_ttl (runtime_defaults sample_runtime)"
    "minute \<le> 0 + hold_time (runtime_defaults sample_runtime)" by code_simp+
  then have "dn_alive (exact_key ''why now'' ''notes'') minute
      (mark_deep_negative (runtime_defaults sample_runtime) 0 ''why now'' ''notes'' deep_neg_new)"
    by (rule mark_makes_alive)
  from alive_skips_exact [OF \<open>0 < _\<close> this]
  show "fst (fst (should_skip (runtime_defaults sample_runtime) minute ''why now'' ''notes''
      (dn_run (runtime_defaults sample_runtime) [DnMark 0 ''why now'' ''notes''] deep_neg_new)))" by simp
qed

end
