(* ===== verification/Orchestrator.thy ===== *)
theory Orchestrator
  imports Orch_Policy Orch_Results Deep_Negative Cpu_Monitor Cache_Refine
begin

text \<open>
  The search orchestrator (\<open>orchestrator/orchestrator.go\<close>). The shared state of the Go struct
  is the record \<open>orch\<close>: the result cache, the negative cache and the observation counters. What a
  request meets outside is the record \<open>env\<close>: the executor of the qmd command line tool (a function
  per call, any of its results possible), the clock readings, the overload flag at the two
  points where it is read, the outcome of waiting for a search token, the order in which
  the goroutines of a tier finish, and the sort. Other requests may change the shared state between the
  steps of this one: \<open>ev_others i\<close> is what they do in the gap number \<open>i\<close>. A search never holds two locks, and each
  of its accesses to the shared state is one atomic operation of the component concerned.
\<close>

subsection \<open>Data\<close>

record ctx =
  ctx_deadline :: "time option"

definition with_timeout :: "time \<Rightarrow> duration \<Rightarrow> ctx \<Rightarrow> ctx" where
  "with_timeout now d c =
     c\<lparr>ctx_deadline := (case ctx_deadline c of None \<Rightarrow> Some (now + d) | Some t \<Rightarrow> Some (min t (now + d)))\<rparr>"

record search_opts =
  op_collection :: string
  op_n :: int
  op_min_score :: f64
  op_full :: bool
  op_files_only :: bool
  op_all :: bool

record executor =
  ex_search :: "ctx \<Rightarrow> string \<Rightarrow> search_opts \<Rightarrow> search_result list result"
  ex_vsearch :: "ctx \<Rightarrow> string \<Rightarrow> search_opts \<Rightarrow> search_result list result"
  ex_query :: "ctx \<Rightarrow> string \<Rightarrow> search_opts \<Rightarrow> search_result list result"
  ex_has_capability :: capabilities_of

record search_params =
  sp_query :: string
  sp_mode :: string
  sp_collection :: string
  sp_n :: int
  sp_min_score :: f64
  sp_fallback :: bool
  sp_files_only :: bool
  sp_files_all :: bool
  sp_disable_deep_escalation :: bool
  sp_confirm :: bool

record search_outcome =
  out_results :: "search_result list"
  out_meta :: search_meta

record observations =
  ob_count :: int
  ob_latency_sum :: int
  ob_hits_sum :: int
  ob_hit_zero :: int
  ob_hit_low :: int
  ob_hit_mid :: int
  ob_hit_high :: int
  ob_degraded :: int
  ob_last_log_at :: time

record orch =
  or_cache :: cache
  or_neg :: deep_neg
  or_obs :: observations

record clock =
  ck_start :: time
  ck_get :: time
  ck_skip :: time
  ck_deep :: time
  ck_mark :: time
  ck_put :: time
  ck_done :: time
  ck_observe :: time

record env =
  ev_exec :: executor
  ev_clock :: clock
  ev_overloaded :: bool
  ev_overloaded_later :: bool
  ev_token :: "ctx \<Rightarrow> string \<Rightarrow> string \<Rightarrow> goerr option"
  ev_sched :: "string \<Rightarrow> collection_cfg list \<Rightarrow> collection_cfg list"
  ev_sort :: score_sorter
  ev_others :: "nat \<Rightarrow> orch \<Rightarrow> orch"

definition orch_new :: "time \<Rightarrow> config \<Rightarrow> orch" where
  "orch_new now cfg =
     \<lparr>or_cache = cache_new (cf_cache cfg), or_neg = deep_neg_new,
      or_obs = \<lparr>ob_count = 0, ob_latency_sum = 0, ob_hits_sum = 0, ob_hit_zero = 0, ob_hit_low = 0,
        ob_hit_mid = 0, ob_hit_high = 0, ob_degraded = 0, ob_last_log_at = now\<rparr>\<rparr>"

definition orch_cpu_config :: "runtime_config \<Rightarrow> cpu_config" where
  "orch_cpu_config rt =
     \<lparr>cm_enabled = rt_cpu_overload_protect rt, cm_sample_interval = rt_cpu_sample_interval rt,
      cm_overload_percent = rt_cpu_overload_threshold rt, cm_overload_sustain = rt_cpu_overload_sustain rt,
      cm_recover_percent = rt_cpu_recover_threshold rt, cm_recover_sustain = rt_cpu_recover_sustain rt,
      cm_critical_percent = rt_cpu_critical_threshold rt, cm_critical_sustain = rt_cpu_critical_sustain rt\<rparr>"

definition max_concurrent_search :: "runtime_config \<Rightarrow> int" where
  "max_concurrent_search rt =
     (if rt_overload_max_concurrent_search rt \<le> 0 then 2 else rt_overload_max_concurrent_search rt)"

definition clear_cache :: "orch \<Rightarrow> orch" where
  "clear_cache st = st\<lparr>or_cache := cache_clear (or_cache st)\<rparr>"

subsection \<open>Small helpers\<close>

definition effective_coarse_k :: "config \<Rightarrow> int" where
  "effective_coarse_k cfg = (let k = sc_coarse_k (cf_search cfg) in if k \<le> 0 then 20 else k)"

definition deep_fail_timeout :: "config \<Rightarrow> duration" where
  "deep_fail_timeout cfg =
     (if 0 < rt_deep_fail_timeout (cf_runtime cfg) then rt_deep_fail_timeout (cf_runtime cfg)
      else if 0 < rt_query_timeout (cf_runtime cfg) then rt_query_timeout (cf_runtime cfg)
      else 12 * second)"

fun find_collection_in :: "string \<Rightarrow> collection_cfg list \<Rightarrow> collection_cfg option" where
  "find_collection_in name [] = None"
| "find_collection_in name (c # cs) = (if cl_name c = name then Some c else find_collection_in name cs)"

definition find_collection :: "config \<Rightarrow> string \<Rightarrow> collection_cfg option" where
  "find_collection cfg name = find_collection_in name (cf_collections cfg)"

definition in_tier :: "int \<Rightarrow> collection_cfg \<Rightarrow> bool" where
  "in_tier tier col \<longleftrightarrow> cl_tier col = tier \<and> \<not> cl_require_explicit col"

definition collections_by_tier :: "config \<Rightarrow> int \<Rightarrow> collection_cfg list" where
  "collections_by_tier cfg tier = filter (in_tier tier) (cf_collections cfg)"

definition observe_search_sample :: "time \<Rightarrow> int \<Rightarrow> int \<Rightarrow> bool \<Rightarrow> observations \<Rightarrow> bool \<times> observations" where
  "observe_search_sample now latency_ms hits degraded ob =
     (let ob = ob\<lparr>ob_count := ob_count ob + 1, ob_latency_sum := ob_latency_sum ob + latency_ms,
                 ob_hits_sum := ob_hits_sum ob + hits\<rparr>;
          ob = (if hits = 0 then ob\<lparr>ob_hit_zero := ob_hit_zero ob + 1\<rparr>
                else if hits \<le> 3 then ob\<lparr>ob_hit_low := ob_hit_low ob + 1\<rparr>
                else if hits \<le> 8 then ob\<lparr>ob_hit_mid := ob_hit_mid ob + 1\<rparr>
                else ob\<lparr>ob_hit_high := ob_hit_high ob + 1\<rparr>);
          ob = (if degraded then ob\<lparr>ob_degraded := ob_degraded ob + 1\<rparr> else ob);
          should_log = (ob_count ob mod 50 = 0 \<or> 30 * minute \<le> now - ob_last_log_at ob)
      in (should_log, if should_log then ob\<lparr>ob_last_log_at := now\<rparr> else ob))"

subsection \<open>One call of the executor\<close>

definition search_opts_of :: "config \<Rightarrow> string \<Rightarrow> search_params \<Rightarrow> search_opts" where
  "search_opts_of cfg collection params =
     (let all = (sp_files_only params \<and> sp_files_all params)
      in \<lparr>op_collection = collection,
          op_n = (if sp_files_only params \<and> all then 0 else effective_coarse_k cfg),
          op_min_score = sp_min_score params, op_full = False, op_files_only = sp_files_only params,
          op_all = all\<rparr>)"

definition exec_search :: "env \<Rightarrow> config \<Rightarrow> ctx \<Rightarrow> string \<Rightarrow> string \<Rightarrow> search_params \<Rightarrow> search_result list result" where
  "exec_search env cfg ctx mode collection params =
     (case ev_token env ctx mode collection of
        Some e \<Rightarrow> Inl (wrap_err ''overload search queue busy: '' e)
      | None \<Rightarrow>
          (let opts = search_opts_of cfg collection params; q = sp_query params; ex = ev_exec env in
           if mode = mode_vsearch then ex_vsearch ex ctx q opts
           else if mode = mode_query then ex_query ex ctx q opts
           else ex_search ex ctx q opts))"

subsection \<open>A tier in parallel\<close>

definition tier_step :: "env \<Rightarrow> config \<Rightarrow> ctx \<Rightarrow> string \<Rightarrow> search_params \<Rightarrow> collection_cfg \<Rightarrow>
    search_result list \<times> string list \<times> goerr option \<Rightarrow> search_result list \<times> string list \<times> goerr option" where
  "tier_step env cfg ctx mode params col acc =
     (let (results, searched, first_err) = acc in
      case exec_search env cfg ctx mode (cl_name col) params of
        Inl e \<Rightarrow> (results, searched, case first_err of None \<Rightarrow> Some e | Some _ \<Rightarrow> first_err)
      | Inr rs \<Rightarrow> (results @ filter_exclude col rs, searched @ [cl_name col], first_err))"

definition search_tier_parallel :: "env \<Rightarrow> config \<Rightarrow> ctx \<Rightarrow> collection_cfg list \<Rightarrow> string \<Rightarrow> search_params \<Rightarrow>
    search_result list \<times> string list \<times> goerr option" where
  "search_tier_parallel env cfg ctx cols mode params =
     fold (tier_step env cfg ctx mode params) (ev_sched env mode cols) ([], [], None)"

definition search_primary_with_tier_fallback :: "env \<Rightarrow> config \<Rightarrow> ctx \<Rightarrow> search_params \<Rightarrow> string \<Rightarrow>
    search_result list \<times> string list \<times> bool" where
  "search_primary_with_tier_fallback env cfg ctx params mode =
     (let (all_results, searched, e1) = search_tier_parallel env cfg ctx (collections_by_tier cfg 1) mode params;
          filtered = filter_min_score (sp_min_score params) all_results
      in if filtered = [] \<and> sp_fallback params \<and> sc_fallback_enabled (cf_search cfg) then
           let tier2 = collections_by_tier cfg 2 in
           if tier2 \<noteq> [] then
             let (t2_results, t2_searched, e2) = search_tier_parallel env cfg ctx tier2 mode params
             in (filter_min_score (sp_min_score params) t2_results, searched @ t2_searched, True)
           else (filtered, searched, False)
         else (filtered, searched, False))"

definition search_broad_all :: "env \<Rightarrow> config \<Rightarrow> ctx \<Rightarrow> search_params \<Rightarrow> search_result list \<times> string list \<times> bool" where
  "search_broad_all env cfg ctx params =
     (let (filtered, searched, fb) = search_primary_with_tier_fallback env cfg ctx params mode_search
      in (finalize_results (ev_sort env) (cf_search cfg) filtered (sp_n params) (sp_files_only params)
            (sp_files_all params), searched, fb))"

definition search_deep_tier1 :: "env \<Rightarrow> config \<Rightarrow> ctx \<Rightarrow> search_params \<Rightarrow>
    (search_result list \<times> string list) result" where
  "search_deep_tier1 env cfg ctx params =
     (let tier1 = collections_by_tier cfg 1 in
      if tier1 = [] then Inl (plain_err ''no tier-1 collection configured'')
      else
        let (all_results, searched, first_err) = search_tier_parallel env cfg ctx tier1 mode_query params
        in case first_err of
             Some e \<Rightarrow> if all_results = [] then Inl e else Inr (all_results, searched)
           | None \<Rightarrow> Inr (all_results, searched))"

subsection \<open>The end of a search: cache, meta data, observation\<close>

definition cache_results :: "time \<Rightarrow> string \<Rightarrow> search_result list \<Rightarrow> string \<Rightarrow> string \<Rightarrow> bool \<Rightarrow> bool \<Rightarrow> string \<Rightarrow>
    orch \<Rightarrow> orch" where
  "cache_results now key results mode collection fallback_triggered degraded degrade_reason st =
     st\<lparr>or_cache := cache_put now key
          \<lparr>en_results = results, en_index_version = [], en_created_at = 0, en_query = key, en_mode = mode,
           en_collection = collection, en_fallback_triggered = fallback_triggered, en_degraded = degraded,
           en_degrade_reason = degrade_reason\<rparr> (or_cache st)\<rparr>"

definition latency_ms :: "clock \<Rightarrow> int" where
  "latency_ms ck = (ck_done ck - ck_start ck) div millisecond"

definition build_meta :: "string \<Rightarrow> string list \<Rightarrow> bool \<Rightarrow> bool \<Rightarrow> bool \<Rightarrow> string \<Rightarrow> int \<Rightarrow> search_meta" where
  "build_meta mode searched fallback_triggered cache_hit degraded degrade_reason latency =
     \<lparr>sm_mode_used = mode, sm_served_mode = [], sm_collections_searched = searched,
      sm_fallback_triggered = fallback_triggered, sm_cache_hit = cache_hit, sm_degraded = degraded,
      sm_degrade_reason = degrade_reason, sm_trace_id = [], sm_latency_ms = latency\<rparr>"

definition cache_and_build :: "env \<Rightarrow> string \<Rightarrow> search_result list \<Rightarrow> string \<Rightarrow> string list \<Rightarrow> bool \<Rightarrow> bool \<Rightarrow> string \<Rightarrow>
    orch \<Rightarrow> search_outcome \<times> orch" where
  "cache_and_build env key results mode searched fallback_triggered degraded degrade_reason st =
     (let ck = ev_clock env;
          st = ev_others env 2 st;
          st = cache_results (ck_put ck) key results mode (join '','' searched) fallback_triggered degraded
                 degrade_reason st;
          res = \<lparr>out_results = results,
                 out_meta = build_meta mode searched fallback_triggered False degraded degrade_reason
                   (latency_ms ck)\<rparr>;
          st = ev_others env 3 st
      in (res, st\<lparr>or_obs := snd (observe_search_sample (ck_observe ck) (latency_ms ck)
                    (int (length results)) degraded (or_obs st))\<rparr>))"

subsection \<open>Searching one collection\<close>

definition allowed_collection :: "config \<Rightarrow> search_params \<Rightarrow> collection_cfg result" where
  "allowed_collection cfg params =
     (case find_collection cfg (sp_collection params) of
        None \<Rightarrow> Inl (plain_err (''collection '' @ quote (sp_collection params) @ '' not found''))
      | Some col \<Rightarrow>
          if cl_require_explicit col \<and> cl_safety_prompt col \<and> \<not> sp_confirm params
          then Inl (plain_err (''collection '' @ quote (sp_collection params) @ '' requires confirm=true''))
          else Inr col)"

text \<open>What follows an executor call on one collection.\<close>

definition shape_results :: "env \<Rightarrow> config \<Rightarrow> search_params \<Rightarrow> collection_cfg \<Rightarrow> search_result list \<Rightarrow>
    search_result list" where
  "shape_results env cfg params col rs =
     finalize_results (ev_sort env) (cf_search cfg) (filter_min_score (sp_min_score params) (filter_exclude col rs))
       (sp_n params) (sp_files_only params) (sp_files_all params)"

definition search_single :: "env \<Rightarrow> config \<Rightarrow> ctx \<Rightarrow> search_params \<Rightarrow> string \<Rightarrow> string \<Rightarrow> orch \<Rightarrow>
    search_outcome result \<times> orch" where
  "search_single env cfg ctx params mode key st =
     (case allowed_collection cfg params of
        Inl e \<Rightarrow> (Inl e, st)
      | Inr col \<Rightarrow>
          (case exec_search env cfg ctx mode (sp_collection params) params of
             Inl e \<Rightarrow> (Inl e, st)
           | Inr rs \<Rightarrow>
               let (res, st) = cache_and_build env key (shape_results env cfg params col rs) mode
                     [sp_collection params] False False [] st
               in (Inr res, st)))"

definition broad_single :: "env \<Rightarrow> config \<Rightarrow> ctx \<Rightarrow> search_params \<Rightarrow> collection_cfg \<Rightarrow> search_result list" where
  "broad_single env cfg ctx params col =
     shape_results env cfg params col
       (case exec_search env cfg ctx mode_search (sp_collection params) params of Inl e \<Rightarrow> [] | Inr rs \<Rightarrow> rs)"

definition reason_failed :: string where
  "reason_failed = ''deep_failed_fallback_broad''"

definition reason_empty :: string where
  "reason_empty = ''deep_empty_fallback_broad''"

definition ask_negative :: "env \<Rightarrow> config \<Rightarrow> string \<Rightarrow> string \<Rightarrow> orch \<Rightarrow> (bool \<times> string) \<times> orch" where
  "ask_negative env cfg query scope st =
     (let st = ev_others env 0 st;
          (verdict, d) = should_skip (cf_runtime cfg) (ck_skip (ev_clock env)) query scope (or_neg st)
      in (verdict, st\<lparr>or_neg := d\<rparr>))"

definition mark_negative :: "env \<Rightarrow> config \<Rightarrow> string \<Rightarrow> string \<Rightarrow> orch \<Rightarrow> orch" where
  "mark_negative env cfg query scope st =
     (let st = ev_others env 1 st
      in st\<lparr>or_neg := mark_deep_negative (cf_runtime cfg) (ck_mark (ev_clock env)) query scope (or_neg st)\<rparr>)"

definition search_single_deep :: "env \<Rightarrow> config \<Rightarrow> ctx \<Rightarrow> search_params \<Rightarrow> string \<Rightarrow> orch \<Rightarrow>
    search_outcome result \<times> orch" where
  "search_single_deep env cfg ctx params key st =
     (case allowed_collection cfg params of
        Inl e \<Rightarrow> (Inl e, st)
      | Inr col \<Rightarrow>
          let name = sp_collection params;
              broad = broad_single env cfg ctx params col;
              ((skip, reason), st) = ask_negative env cfg (sp_query params) name st
          in if skip then
               let (res, st) = cache_and_build env key broad mode_search [name] False True reason st
               in (Inr res, st)
             else
               let deep_ctx = with_timeout (ck_deep (ev_clock env)) (deep_fail_timeout cfg) ctx in
               (case exec_search env cfg deep_ctx mode_query name params of
                  Inl e \<Rightarrow>
                    let st = mark_negative env cfg (sp_query params) name st;
                        (res, st) = cache_and_build env key broad mode_search [name] False True reason_failed st
                    in (Inr res, st)
                | Inr rs \<Rightarrow>
                    let deep = shape_results env cfg params col rs in
                    if deep = [] then
                      let (res, st) = cache_and_build env key broad mode_search [name] False True reason_empty st
                      in (Inr res, st)
                    else
                      let (res, st) = cache_and_build env key deep mode_query [name] False False [] st
                      in (Inr res, st)))"

subsection \<open>Searching the tiers\<close>

definition search_all_deep :: "env \<Rightarrow> config \<Rightarrow> ctx \<Rightarrow> search_params \<Rightarrow> string \<Rightarrow> orch \<Rightarrow>
    search_outcome result \<times> orch" where
  "search_all_deep env cfg ctx params key st =
     (let (broad, broad_searched, broad_fb) = search_broad_all env cfg ctx params;
          ((skip, reason), st) = ask_negative env cfg (sp_query params) ''all'' st
      in if skip then
           let (res, st) = cache_and_build env key broad mode_search broad_searched broad_fb True reason st
           in (Inr res, st)
         else
           let deep_ctx = with_timeout (ck_deep (ev_clock env)) (deep_fail_timeout cfg) ctx in
           (case search_deep_tier1 env cfg deep_ctx params of
              Inl e \<Rightarrow>
                let st = mark_negative env cfg (sp_query params) ''all'' st;
                    (res, st) = cache_and_build env key broad mode_search broad_searched broad_fb True
                      reason_failed st
                in (Inr res, st)
            | Inr (rs, searched) \<Rightarrow>
                let deep = finalize_results (ev_sort env) (cf_search cfg) (filter_min_score (sp_min_score params) rs)
                      (sp_n params) (sp_files_only params) (sp_files_all params)
                in if deep = [] then
                     let (res, st) = cache_and_build env key broad mode_search broad_searched broad_fb True
                           reason_empty st
                     in (Inr res, st)
                   else
                     let (res, st) = cache_and_build env key deep mode_query searched False False [] st
                     in (Inr res, st)))"

text \<open>An empty keyword search may escalate: the mode, the hits, what was searched, and the degradation.\<close>

definition escalate :: "env \<Rightarrow> config \<Rightarrow> ctx \<Rightarrow> search_params \<Rightarrow> string \<Rightarrow> search_result list \<Rightarrow> string list \<Rightarrow>
    orch \<Rightarrow> (string \<times> search_result list \<times> string list \<times> bool \<times> string) \<times> orch" where
  "escalate env cfg ctx params mode filtered searched st =
     (if \<not> sp_disable_deep_escalation params \<and> mode = mode_search \<and> filtered = [] \<and>
         ex_has_capability (ev_exec env) ''deep_query'' \<and> \<not> ev_overloaded_later env \<and>
         allow_auto_deep_query (cf_runtime cfg) (sp_query params)
      then
        let ((skip, reason), st) = ask_negative env cfg (sp_query params) ''all'' st in
        if skip then ((mode, filtered, searched, True, reason), st)
        else
          let deep_ctx = with_timeout (ck_deep (ev_clock env)) (deep_fail_timeout cfg) ctx in
          (case search_deep_tier1 env cfg deep_ctx params of
             Inl e \<Rightarrow>
               ((mode, filtered, searched, True, reason_failed), mark_negative env cfg (sp_query params) ''all'' st)
           | Inr (rs, deep_searched) \<Rightarrow>
               let deep = filter_min_score (sp_min_score params) rs in
               if deep \<noteq> [] then ((mode_query, deep, deep_searched, False, []), st)
               else ((mode, filtered, searched, True, reason_empty), st))
      else ((mode, filtered, searched, False, []), st))"

definition search_with_fallback :: "env \<Rightarrow> config \<Rightarrow> ctx \<Rightarrow> search_params \<Rightarrow> string \<Rightarrow> string \<Rightarrow> orch \<Rightarrow>
    search_outcome result \<times> orch" where
  "search_with_fallback env cfg ctx params mode key st =
     (let (filtered, searched, fb) = search_primary_with_tier_fallback env cfg ctx params mode;
          ((mode, filtered, searched, degraded, reason), st) =
            escalate env cfg ctx params mode filtered searched st;
          final = finalize_results (ev_sort env) (cf_search cfg) filtered (sp_n params) (sp_files_only params)
            (sp_files_all params);
          (res, st) = cache_and_build env key final mode searched fb degraded reason st
      in (Inr res, st))"

subsection \<open>Search\<close>

definition effective_params :: "config \<Rightarrow> search_params \<Rightarrow> search_params" where
  "effective_params cfg params =
     params\<lparr>sp_n := (if sp_n params \<le> 0 then sc_top_k (cf_search cfg) else sp_n params),
            sp_min_score := (if f64_le (sp_min_score params) (Fin 0) then sc_min_score (cf_search cfg)
                             else sp_min_score params)\<rparr>"

definition params_key :: "search_params \<Rightarrow> string" where
  "params_key p =
     make_cache_key (sp_query p) (sp_mode p) (sp_collection p) (sp_min_score p) (sp_n p) (sp_fallback p)
       (sp_files_only p) (sp_files_all p)"

definition entry_collections :: "string \<Rightarrow> string list" where
  "entry_collections c =
     (if str_contains c '','' then filter (\<lambda>p. p \<noteq> []) (map trim_space (split_on (CHR '','') c)) else [c])"

definition cached_outcome :: "clock \<Rightarrow> entry \<Rightarrow> search_outcome" where
  "cached_outcome ck e =
     \<lparr>out_results = en_results e,
      out_meta = build_meta (en_mode e) (entry_collections (en_collection e)) (en_fallback_triggered e) True
        (en_degraded e) (en_degrade_reason e) (latency_ms ck)\<rparr>"

definition search_uncached :: "env \<Rightarrow> config \<Rightarrow> ctx \<Rightarrow> search_params \<Rightarrow> string \<Rightarrow> orch \<Rightarrow>
    search_outcome result \<times> orch" where
  "search_uncached env cfg ctx params key st =
     (let mode = resolve_mode (cf_runtime cfg) (ex_has_capability (ev_exec env)) (ev_overloaded env)
            (sp_mode params) (sp_query params)
      in if sp_collection params \<noteq> [] then
           (if mode = mode_query then search_single_deep env cfg ctx params key st
            else search_single env cfg ctx params mode key st)
         else if mode = mode_query then search_all_deep env cfg ctx params key st
         else search_with_fallback env cfg ctx params mode key st)"

definition search :: "env \<Rightarrow> config \<Rightarrow> ctx \<Rightarrow> search_params \<Rightarrow> orch \<Rightarrow> search_outcome result \<times> orch" where
  "search env cfg ctx params st =
     (let params = effective_params cfg params;
          key = params_key params;
          (found, c) = cache_get (ck_get (ev_clock env)) key (or_cache st);
          st = st\<lparr>or_cache := c\<rparr>
      in case found of
           Some e \<Rightarrow> (Inr (cached_outcome (ev_clock env) e), st)
         | None \<Rightarrow> search_uncached env cfg ctx params key st)"

text \<open>\<open>HasCachedResult\<close> computes its key on its own; it also touches the cache.\<close>

definition has_cached_params :: "config \<Rightarrow> search_params \<Rightarrow> search_params" where
  "has_cached_params cfg params =
     params\<lparr>sp_n := (if sp_n params \<le> 0 then
                       (if sp_files_only params \<and> sp_files_all params then 0 else sc_top_k (cf_search cfg))
                     else sp_n params),
            sp_min_score := (if f64_le (sp_min_score params) (Fin 0) then sc_min_score (cf_search cfg)
                             else sp_min_score params)\<rparr>"

definition has_cached_result :: "time \<Rightarrow> config \<Rightarrow> search_params \<Rightarrow> orch \<Rightarrow> bool \<times> orch" where
  "has_cached_result now cfg params st =
     (let (found, c) = cache_get now (params_key (has_cached_params cfg params)) (or_cache st)
      in (found \<noteq> None, st\<lparr>or_cache := c\<rparr>))"

end
