(* ===== verification/Orch_Properties.thy ===== *)
theory Orch_Properties
  imports Orchestrator
begin

text \<open>
  What a search promises: where its hits come from, how degradation is reported, what it
  leaves in the cache, and which calls of the executor it may depend on.
\<close>

subsection \<open>Where hits come from\<close>

definition searchable :: "config \<Rightarrow> search_params \<Rightarrow> collection_cfg \<Rightarrow> bool" where
  "searchable cfg params col \<longleftrightarrow> col \<in> set (cf_collections cfg) \<and>
     (if sp_collection params = [] then \<not> cl_require_explicit col \<and> (cl_tier col = 1 \<or> cl_tier col = 2)
      else cl_name col = sp_collection params \<and>
           (cl_require_explicit col \<and> cl_safety_prompt col \<longrightarrow> sp_confirm params))"

lemma searchable_effective [simp]: "searchable cfg (effective_params cfg params) col = searchable cfg params col"
  by (simp add: searchable_def effective_params_def)

definition scores_enough :: "search_params \<Rightarrow> search_result \<Rightarrow> bool" where
  "scores_enough params q \<longleftrightarrow>
     f64_le (sp_min_score params) (Fin 0) \<or> f64_le (sp_min_score params) (sr_score q)"

text \<open>A raw hit: found by a call on the collection, not excluded there, with a sufficient score.\<close>

definition raw_hit :: "env \<Rightarrow> config \<Rightarrow> search_params \<Rightarrow> search_result \<Rightarrow> bool" where
  "raw_hit env cfg params q \<longleftrightarrow>
     (\<exists>col c mode rs. searchable cfg params col \<and>
        exec_search env cfg c mode (cl_name col) params = Inr rs \<and> q \<in> set (filter_exclude col rs))"

definition came_from :: "env \<Rightarrow> config \<Rightarrow> search_params \<Rightarrow> search_result \<Rightarrow> bool" where
  "came_from env cfg params r \<longleftrightarrow>
     (\<exists>q. raw_hit env cfg params q \<and> scores_enough params q \<and> bare r = bare q)"

text \<open>The schedule runs each goroutine once, and the sort permutes.\<close>

definition fair_env :: "env \<Rightarrow> bool" where
  "fair_env env \<longleftrightarrow> (\<forall>mode cols. mset (ev_sched env mode cols) = mset cols) \<and> score_sort (ev_sort env)"

lemma fair_sched: "fair_env env \<Longrightarrow> set (ev_sched env mode cols) = set cols"
  unfolding fair_env_def by (metis set_mset_mset)

lemma finalize_hits:
  assumes "score_sort srt" and "r \<in> set (finalize_results srt sc rs n fo fa)"
  shows "\<exists>q\<in>set rs. bare r = bare q"
proof (cases fo)
  case True
  have "set (dedup_sort_limit_with srt rs n) \<subseteq> set rs" by (rule score_sort.dsl_subset [OF assms(1)])
  moreover have "r \<in> set (dedup_sort_limit_with srt rs n)"
    using assms(2) True
    by (auto simp: finalize_results_def Let_def enforce_files_all_max_hits_def dest: in_set_takeD split: if_splits)
  ultimately show ?thesis by auto
next
  case False
  let ?d = "dedup_sort_limit_with srt (clean_result_snippets rs) n"
  have "r \<in> set (enforce_max_chars sc ?d)" using assms(2) False by (simp add: finalize_results_def)
  then obtain q where q: "q \<in> set ?d" "bare r = bare q" using enforce_max_chars_hits by blast
  then have "q \<in> set (clean_result_snippets rs)" using score_sort.dsl_subset [OF assms(1)] by blast
  then show ?thesis using clean_snippets_hits [of q rs] q(2) by auto
qed

lemma filters_Nil [simp]: "filter_exclude col [] = []" "filter_min_score m [] = []"
  by (simp_all add: filter_exclude_def filter_min_score_def)

lemma filter_min_score_scores:
  "q \<in> set (filter_min_score (sp_min_score params) rs) \<longleftrightarrow> q \<in> set rs \<and> scores_enough params q"
  by (auto simp: filter_min_score_def scores_enough_def)

lemma find_collection_in_Some:
  "find_collection_in name cs = Some c \<Longrightarrow> c \<in> set cs \<and> cl_name c = name"
  by (induction cs) (auto split: if_splits)

lemma allowed_collection_searchable:
  assumes "allowed_collection cfg params = Inr col" and "sp_collection params \<noteq> []"
  shows "searchable cfg params col \<and> cl_name col = sp_collection params"
  using assms find_collection_in_Some [of "sp_collection params" "cf_collections cfg" col]
  by (auto simp: allowed_collection_def find_collection_def searchable_def split: option.splits if_splits)

lemma shape_results_from:
  assumes "fair_env env" and "searchable cfg params col"
    and "exec_search env cfg c mode (cl_name col) params = Inr rs"
    and "r \<in> set (shape_results env cfg params col rs)"
  shows "came_from env cfg params r"
proof -
  have "score_sort (ev_sort env)" using assms(1) by (simp add: fair_env_def)
  from finalize_hits [OF this, of r] assms(4) obtain q where
    "q \<in> set (filter_min_score (sp_min_score params) (filter_exclude col rs))" "bare r = bare q"
    unfolding shape_results_def by blast
  then show ?thesis
    using assms(2,3) unfolding came_from_def raw_hit_def filter_min_score_scores by blast
qed

lemma broad_single_from:
  assumes "fair_env env" and "searchable cfg params col" and "cl_name col = sp_collection params"
    and "r \<in> set (broad_single env cfg ctx params col)"
  shows "came_from env cfg params r"
proof (cases "exec_search env cfg ctx mode_search (sp_collection params) params")
  case (Inl e)
  then have "r \<in> set (finalize_results (ev_sort env) (cf_search cfg) [] (sp_n params) (sp_files_only params)
      (sp_files_all params))"
    using assms(4) by (simp add: broad_single_def shape_results_def)
  then show ?thesis using finalize_hits [of "ev_sort env" r] assms(1) by (fastforce simp: fair_env_def)
next
  case (Inr rs)
  then show ?thesis
    using shape_results_from [OF assms(1,2), of ctx mode_search rs r] assms(3,4) by (simp add: broad_single_def)
qed

lemma tier_fold_hits:
  assumes "q \<in> set (fst (fold (tier_step env cfg ctx mode params) cols acc))"
  shows "q \<in> set (fst acc) \<or>
    (\<exists>col\<in>set cols. \<exists>rs. exec_search env cfg ctx mode (cl_name col) params = Inr rs \<and>
       q \<in> set (filter_exclude col rs))"
  using assms
proof (induction cols arbitrary: acc)
  case (Cons col cols)
  from Cons(1) [of "tier_step env cfg ctx mode params col acc"] Cons(2)
  consider "q \<in> set (fst (tier_step env cfg ctx mode params col acc))"
    | "\<exists>col\<in>set cols. \<exists>rs. exec_search env cfg ctx mode (cl_name col) params = Inr rs \<and>
         q \<in> set (filter_exclude col rs)" by auto
  then show ?case by cases (auto simp: tier_step_def case_prod_beta split: sum.splits)
qed simp

lemma tier_hits:
  assumes "fair_env env" and "sp_collection params = []" and "tier = 1 \<or> tier = 2"
    and "search_tier_parallel env cfg ctx (collections_by_tier cfg tier) mode params = (rs, searched, err)"
    and "q \<in> set rs"
  shows "raw_hit env cfg params q"
proof -
  have "q \<in> set (fst (fold (tier_step env cfg ctx mode params)
      (ev_sched env mode (collections_by_tier cfg tier)) ([], [], None)))"
    using assms(4,5) by (simp add: search_tier_parallel_def)
  from tier_fold_hits [OF this] obtain col rs' where
    col: "col \<in> set (collections_by_tier cfg tier)"
      "exec_search env cfg ctx mode (cl_name col) params = Inr rs'" "q \<in> set (filter_exclude col rs')"
    unfolding fair_sched [OF assms(1)] by auto
  have "searchable cfg params col"
    using col(1) assms(2,3) by (auto simp: searchable_def collections_by_tier_def in_tier_def)
  then show ?thesis using col(2,3) unfolding raw_hit_def by blast
qed

lemma primary_hits:
  assumes "fair_env env" and "sp_collection params = []"
    and "search_primary_with_tier_fallback env cfg ctx params mode = (rs, searched, fb)" and "q \<in> set rs"
  shows "raw_hit env cfg params q \<and> scores_enough params q"
proof -
  obtain r1 s1 e1 where t1: "search_tier_parallel env cfg ctx (collections_by_tier cfg 1) mode params = (r1, s1, e1)"
    by (metis prod_cases3)
  obtain r2 s2 e2 where t2: "search_tier_parallel env cfg ctx (collections_by_tier cfg 2) mode params = (r2, s2, e2)"
    by (metis prod_cases3)
  have "q \<in> set (filter_min_score (sp_min_score params) r1) \<or> q \<in> set (filter_min_score (sp_min_score params) r2)"
    using assms(3,4) by (auto simp: search_primary_with_tier_fallback_def t1 t2 Let_def split: if_splits)
  then show ?thesis
    using tier_hits [OF assms(1,2) _ t1] tier_hits [OF assms(1,2) _ t2] by (auto simp: filter_min_score_scores)
qed

lemma deep_hits:
  assumes "fair_env env" and "sp_collection params = []"
    and "search_deep_tier1 env cfg ctx params = Inr (rs, searched)" and "q \<in> set rs"
  shows "raw_hit env cfg params q"
proof -
  obtain r1 s1 e1 where t1: "search_tier_parallel env cfg ctx (collections_by_tier cfg 1) mode_query params = (r1, s1, e1)"
    by (metis prod_cases3)
  then have "rs = r1" using assms(3) by (auto simp: search_deep_tier1_def Let_def split: if_splits option.splits)
  then show ?thesis using tier_hits [OF assms(1,2) _ t1] assms(4) by simp
qed

lemma finalize_from:
  assumes "fair_env env" and "\<And>q. q \<in> set rs \<Longrightarrow> raw_hit env cfg params q \<and> scores_enough params q"
    and "r \<in> set (finalize_results (ev_sort env) sc rs n fo fa)"
  shows "came_from env cfg params r"
  using finalize_hits [of "ev_sort env" r sc rs n fo fa] assms unfolding fair_env_def came_from_def by blast

subsection \<open>The shape of an answer\<close>

text \<open>A cached entry that tells the truth about its degradation, and a cache of such entries.\<close>

definition honest_entry :: "entry \<Rightarrow> bool" where
  "honest_entry e \<longleftrightarrow> (en_degraded e \<longleftrightarrow> en_degrade_reason e \<noteq> []) \<and> (en_degraded e \<longrightarrow> en_mode e = mode_search)"

definition honest_cache :: "cache \<Rightarrow> bool" where
  "honest_cache c \<longleftrightarrow> (\<forall>k e. cache_peek c k = Some e \<longrightarrow> honest_entry e)"

lemma honest_cache_new [inv_intros]: "honest_cache (cache_new cfg)"
  by (simp add: honest_cache_def cache_peek_def cache_new_def)

lemma honest_cache_get [inv_intros]: "cache_inv c \<Longrightarrow> honest_cache c \<Longrightarrow> honest_cache (snd (cache_get t k c))"
  by (auto simp: honest_cache_def cache_peek_get split: if_splits)

lemma honest_cache_put [inv_intros]:
  assumes "cache_inv c" and "honest_cache c" and "honest_entry e"
  shows "honest_cache (cache_put t k e c)"
proof (cases "c_enabled c")
  case True
  have "honest_entry (stamp t c e)" using assms(3) by (simp add: honest_entry_def stamp_def)
  then show ?thesis
    using assms(2) cache_peek_put_same [OF assms(1) True, of t k e] cache_peek_put_other [OF assms(1), of _ k t e]
    unfolding honest_cache_def by (metis option.inject)
qed (use assms(2) in \<open>simp add: cache_put_def\<close>)

lemma honest_cache_live: "honest_cache c \<Longrightarrow> cache_inv c \<Longrightarrow> fst (cache_get t k c) = Some e \<Longrightarrow> honest_entry e"
  by (auto simp: cache_get_live cache_live_def honest_cache_def split: option.splits if_splits)

text \<open>The observation counters: every sample is in one of the four classes, and the sum of hits is large enough for them.\<close>

definition obs_inv :: "observations \<Rightarrow> bool" where
  "obs_inv ob \<longleftrightarrow> 0 \<le> ob_hit_zero ob \<and> 0 \<le> ob_hit_low ob \<and> 0 \<le> ob_hit_mid ob \<and> 0 \<le> ob_hit_high ob \<and>
     ob_count ob = ob_hit_zero ob + ob_hit_low ob + ob_hit_mid ob + ob_hit_high ob \<and>
     0 \<le> ob_degraded ob \<and> ob_degraded ob \<le> ob_count ob \<and>
     ob_hit_low ob + 4 * ob_hit_mid ob + 9 * ob_hit_high ob \<le> ob_hits_sum ob"

lemma obs_inv_observe [inv_intros]:
  "obs_inv ob \<Longrightarrow> 0 \<le> hits \<Longrightarrow> obs_inv (snd (observe_search_sample now latency hits degraded ob))"
  by (simp add: obs_inv_def observe_search_sample_def Let_def)

definition orch_inv :: "orch \<Rightarrow> bool" where
  "orch_inv st \<longleftrightarrow> cache_inv (or_cache st) \<and> honest_cache (or_cache st) \<and> dn_inv (or_neg st) \<and> obs_inv (or_obs st)"

text \<open>Other requests keep the invariants and the cache's settings; otherwise they do what they like.\<close>

definition others_ok :: "env \<Rightarrow> bool" where
  "others_ok env \<longleftrightarrow> (\<forall>i st. orch_inv st \<longrightarrow> orch_inv (ev_others env i st) \<and>
     c_enabled (or_cache (ev_others env i st)) = c_enabled (or_cache st) \<and>
     c_ttl (or_cache (ev_others env i st)) = c_ttl (or_cache st))"

definition orch_step :: "orch \<Rightarrow> orch \<Rightarrow> bool" where
  "orch_step st st' \<longleftrightarrow> (orch_inv st \<longrightarrow> orch_inv st' \<and>
     c_enabled (or_cache st') = c_enabled (or_cache st) \<and> c_ttl (or_cache st') = c_ttl (or_cache st))"

lemma orch_step_refl [simp]: "orch_step st st"
  by (simp add: orch_step_def)

lemma orch_step_trans: "orch_step a b \<Longrightarrow> orch_step b c \<Longrightarrow> orch_step a c"
  by (simp add: orch_step_def)

lemma others_step: "others_ok env \<Longrightarrow> orch_step st (ev_others env i st)"
  unfolding others_ok_def orch_step_def by blast

lemma ask_negative_step:
  assumes "others_ok env"
  shows "orch_step st (snd (ask_negative env cfg q s st))"
proof (rule orch_step_trans [OF others_step [OF assms, of st 0]])
  show "orch_step (ev_others env 0 st) (snd (ask_negative env cfg q s st))"
    by (auto simp: ask_negative_def Let_def case_prod_beta orch_step_def orch_inv_def intro: inv_intros)
qed

lemma mark_negative_step:
  assumes "others_ok env"
  shows "orch_step st (mark_negative env cfg q s st)"
proof (rule orch_step_trans [OF others_step [OF assms, of st 1]])
  show "orch_step (ev_others env 1 st) (mark_negative env cfg q s st)"
    by (auto simp: mark_negative_def Let_def orch_step_def orch_inv_def intro: inv_intros)
qed

lemma cache_results_step:
  assumes "d \<longleftrightarrow> r \<noteq> []" and "d \<longrightarrow> m = mode_search"
  shows "orch_step st (cache_results t k rs m c fb d r st)"
  using assms by (auto simp: cache_results_def orch_step_def orch_inv_def honest_entry_def intro!: inv_intros)

lemma cache_and_build_step:
  assumes "others_ok env" and "d \<longleftrightarrow> r \<noteq> []" and "d \<longrightarrow> m = mode_search"
  shows "orch_step st (snd (cache_and_build env k rs m s fb d r st))"
proof -
  let ?a = "ev_others env 2 st"
  let ?b = "cache_results (ck_put (ev_clock env)) k rs m (join '','' s) fb d r ?a"
  have "orch_step st (ev_others env 3 ?b)"
    using others_step [OF assms(1), of st 2] cache_results_step [OF assms(2,3), of ?a] others_step [OF assms(1), of ?b 3]
    by (blast intro: orch_step_trans)
  then show ?thesis
    by (simp add: cache_and_build_def Let_def case_prod_beta orch_step_def orch_inv_def obs_inv_observe)
qed

lemma should_skip_reason: "fst (should_skip rt now q s d) = (True, reason) \<Longrightarrow> reason \<noteq> []"
  by (auto simp: should_skip_def Let_def case_prod_beta reason_exact_def reason_scope_def split: if_splits)

lemma ask_negative_reason:
  assumes "ask_negative env cfg q s st = ((True, reason), st')" shows "reason \<noteq> []"
proof -
  have "fst (ask_negative env cfg q s st) = (True, reason)" by (simp add: assms)
  then show ?thesis by (auto simp: ask_negative_def Let_def case_prod_beta dest: should_skip_reason)
qed

definition shaped :: "env \<Rightarrow> config \<Rightarrow> search_params \<Rightarrow> search_result list \<Rightarrow> bool" where
  "shaped env cfg params rs \<longleftrightarrow>
     (\<exists>raw. rs = finalize_results (ev_sort env) (cf_search cfg) raw (sp_n params) (sp_files_only params)
        (sp_files_all params))"

lemma shaped_simps [simp]:
  "shaped env cfg params (shape_results env cfg params col rs)"
  "shaped env cfg params (broad_single env cfg ctx params col)"
  "shaped env cfg params (finalize_results (ev_sort env) (cf_search cfg) raw (sp_n params) (sp_files_only params)
     (sp_files_all params))"
  by (auto simp: shaped_def shape_results_def broad_single_def)

definition answer :: "env \<Rightarrow> config \<Rightarrow> search_params \<Rightarrow> search_result list \<Rightarrow> string \<Rightarrow> bool \<Rightarrow> string \<Rightarrow> bool" where
  "answer env cfg params rs mode degraded reason \<longleftrightarrow>
     (fair_env env \<longrightarrow> (\<forall>r\<in>set rs. came_from env cfg params r)) \<and> shaped env cfg params rs \<and>
     (degraded \<longleftrightarrow> reason \<noteq> []) \<and> (degraded \<longrightarrow> mode = mode_search)"

definition answered :: "env \<Rightarrow> config \<Rightarrow> search_params \<Rightarrow> string \<Rightarrow> orch \<Rightarrow> search_outcome result \<times> orch \<Rightarrow> bool" where
  "answered env cfg params key st result \<longleftrightarrow>
     (\<exists>e. result = (Inl e, st) \<and> sp_collection params \<noteq> []) \<or>
     (\<exists>rs mode searched fb degraded reason st0.
        result = apfst Inr (cache_and_build env key rs mode searched fb degraded reason st0) \<and>
        answer env cfg params rs mode degraded reason \<and> (others_ok env \<longrightarrow> orch_step st st0))"

lemma answeredI:
  assumes "result = apfst Inr (cache_and_build env key rs mode searched fb degraded reason st0)"
    and "answer env cfg params rs mode degraded reason" and "others_ok env \<Longrightarrow> orch_step st st0"
  shows "answered env cfg params key st result"
  using assms unfolding answered_def by blast

lemma reasons_not_Nil [simp]: "reason_failed \<noteq> []" "reason_empty \<noteq> []"
  by (simp_all add: reason_failed_def reason_empty_def)

lemma search_single_answered:
  assumes "sp_collection params \<noteq> []" and "mode \<noteq> mode_query"
  shows "answered env cfg params key st (search_single env cfg ctx params mode key st)"
proof (cases "allowed_collection cfg params")
  case (Inl e)
  then show ?thesis using assms(1) by (simp add: answered_def search_single_def)
next
  case col: (Inr col)
  note sc = allowed_collection_searchable [OF col assms(1)]
  show ?thesis
  proof (cases "exec_search env cfg ctx mode (sp_collection params) params")
    case (Inl e)
    then show ?thesis using assms(1) by (simp add: answered_def search_single_def col)
  next
    case (Inr rs)
    show ?thesis
    proof (rule answeredI)
      show "search_single env cfg ctx params mode key st =
          apfst Inr (cache_and_build env key (shape_results env cfg params col rs) mode
            [sp_collection params] False False [] st)"
        by (simp add: search_single_def col Inr Let_def case_prod_beta apfst_def map_prod_def)
      show "answer env cfg params (shape_results env cfg params col rs) mode False []"
        using shape_results_from [of env cfg params col ctx mode rs] sc Inr by (auto simp: answer_def)
    qed simp
  qed
qed

lemma broad_answer:
  assumes "allowed_collection cfg params = Inr col" and "sp_collection params \<noteq> []" and "reason \<noteq> []"
  shows "answer env cfg params (broad_single env cfg ctx params col) mode_search True reason"
  using broad_single_from [of env cfg params col _ ctx] allowed_collection_searchable [OF assms(1,2)] assms(3)
  by (auto simp: answer_def)

lemma search_single_deep_answered:
  assumes "sp_collection params \<noteq> []"
  shows "answered env cfg params key st (search_single_deep env cfg ctx params key st)"
proof (cases "allowed_collection cfg params")
  case (Inl e)
  then show ?thesis using assms by (simp add: answered_def search_single_deep_def)
next
  case col: (Inr col)
  note sc = allowed_collection_searchable [OF col assms]
  let ?name = "sp_collection params" and ?broad = "broad_single env cfg ctx params col"
  let ?deep_ctx = "with_timeout (ck_deep (ev_clock env)) (deep_fail_timeout cfg) ctx"
  obtain skip reason st1 where ask: "ask_negative env cfg (sp_query params) ?name st = ((skip, reason), st1)"
    by (metis prod.collapse)
  have st1: "others_ok env \<Longrightarrow> orch_step st st1"
    using ask_negative_step [of env st cfg "sp_query params" ?name] by (simp add: ask)
  show ?thesis
  proof (cases skip)
    case True
    then have "reason \<noteq> []" using ask_negative_reason ask by simp
    then show ?thesis
      by (intro answeredI [OF _ broad_answer [OF col assms] st1])
         (simp_all add: search_single_deep_def col ask True Let_def case_prod_beta apfst_def map_prod_def)
  next
    case False
    show ?thesis
    proof (cases "exec_search env cfg ?deep_ctx mode_query ?name params")
      case (Inl e)
      show ?thesis
        by (rule answeredI [OF _ broad_answer [OF col assms reasons_not_Nil(1)]
              orch_step_trans [OF st1 mark_negative_step]])
           (simp_all add: search_single_deep_def col ask False Inl Let_def case_prod_beta apfst_def map_prod_def)
    next
      case (Inr rs)
      let ?deep = "shape_results env cfg params col rs"
      have deep: "answer env cfg params ?deep mode_query False []"
        using shape_results_from [of env cfg params col ?deep_ctx mode_query rs] sc Inr by (auto simp: answer_def)
      show ?thesis
      proof (cases "?deep = []")
        case True
        then show ?thesis
          by (intro answeredI [OF _ broad_answer [OF col assms reasons_not_Nil(2)] st1])
             (simp_all add: search_single_deep_def col ask False Inr Let_def case_prod_beta apfst_def map_prod_def)
      next
        case nonempty: False
        then show ?thesis
          by (intro answeredI [OF _ deep st1])
             (simp_all add: search_single_deep_def col ask False Inr Let_def case_prod_beta apfst_def map_prod_def)
      qed
    qed
  qed
qed

lemma finalize_answer:
  assumes "fair_env env \<Longrightarrow> \<forall>q\<in>set rs. raw_hit env cfg params q \<and> scores_enough params q"
    and "degraded \<longleftrightarrow> reason \<noteq> []" and "degraded \<longrightarrow> mode = mode_search"
  shows "answer env cfg params (finalize_results (ev_sort env) (cf_search cfg) rs (sp_n params) (sp_files_only params)
    (sp_files_all params)) mode degraded reason"
  using finalize_from [of env rs cfg params] assms shaped_simps(3) unfolding answer_def by blast

lemma search_all_deep_answered:
  assumes "sp_collection params = []"
  shows "answered env cfg params key st (search_all_deep env cfg ctx params key st)"
proof -
  obtain broad bs bf where b: "search_broad_all env cfg ctx params = (broad, bs, bf)" by (metis prod_cases3)
  let ?deep_ctx = "with_timeout (ck_deep (ev_clock env)) (deep_fail_timeout cfg) ctx"
  obtain skip reason st1 where ask: "ask_negative env cfg (sp_query params) ''all'' st = ((skip, reason), st1)"
    by (metis prod.collapse)
  have st1: "others_ok env \<Longrightarrow> orch_step st st1"
    using ask_negative_step [of env st cfg "sp_query params" "''all''"] by (simp add: ask)
  obtain r1 s1 f1 where p: "search_primary_with_tier_fallback env cfg ctx params mode_search = (r1, s1, f1)"
    by (metis prod_cases3)
  have "fair_env env \<Longrightarrow> \<forall>q\<in>set r1. raw_hit env cfg params q \<and> scores_enough params q"
    using primary_hits [OF _ assms p] by blast
  then have broad: "answer env cfg params broad mode_search True r" if "r \<noteq> []" for r
    using b that by (auto simp: search_broad_all_def p intro: finalize_answer)
  show ?thesis
  proof (cases skip)
    case True
    then have "reason \<noteq> []" using ask_negative_reason ask by simp
    then show ?thesis
      by (intro answeredI [OF _ broad st1])
         (simp_all add: search_all_deep_def b ask True Let_def case_prod_beta apfst_def map_prod_def)
  next
    case False
    show ?thesis
    proof (cases "search_deep_tier1 env cfg ?deep_ctx params")
      case (Inl e)
      show ?thesis
        by (rule answeredI [OF _ broad [OF reasons_not_Nil(1)] orch_step_trans [OF st1 mark_negative_step]])
           (simp_all add: search_all_deep_def b ask False Inl Let_def case_prod_beta apfst_def map_prod_def)
    next
      case (Inr x)
      obtain rs searched where x: "x = (rs, searched)" by fastforce
      let ?deep = "finalize_results (ev_sort env) (cf_search cfg) (filter_min_score (sp_min_score params) rs)
        (sp_n params) (sp_files_only params) (sp_files_all params)"
      have deep: "answer env cfg params ?deep mode_query False []"
        using deep_hits [OF _ assms Inr [unfolded x]]
        by (intro finalize_answer) (auto simp: filter_min_score_scores)
      show ?thesis
      proof (cases "?deep = []")
        case True
        then show ?thesis
          by (intro answeredI [OF _ broad [OF reasons_not_Nil(2)] st1])
             (simp_all add: search_all_deep_def b ask False Inr x Let_def case_prod_beta apfst_def map_prod_def)
      next
        case nonempty: False
        then show ?thesis
          by (intro answeredI [OF _ deep st1])
             (simp_all add: search_all_deep_def b ask False Inr x Let_def case_prod_beta apfst_def map_prod_def)
      qed
    qed
  qed
qed

lemma escalate_sound:
  assumes "sp_collection params = []"
    and "fair_env env \<Longrightarrow> \<forall>q\<in>set rs. raw_hit env cfg params q \<and> scores_enough params q"
    and "escalate env cfg ctx params mode rs searched st = ((mode', rs', searched', degraded, reason), st')"
  shows "(fair_env env \<longrightarrow> (\<forall>q\<in>set rs'. raw_hit env cfg params q \<and> scores_enough params q)) \<and>
    (degraded \<longleftrightarrow> reason \<noteq> []) \<and> (degraded \<longrightarrow> mode' = mode_search) \<and> (others_ok env \<longrightarrow> orch_step st st')"
proof (cases "\<not> sp_disable_deep_escalation params \<and> mode = mode_search \<and> rs = [] \<and>
         ex_has_capability (ev_exec env) ''deep_query'' \<and> \<not> ev_overloaded_later env \<and>
         allow_auto_deep_query (cf_runtime cfg) (sp_query params)")
  case False
  then have "escalate env cfg ctx params mode rs searched st = ((mode, rs, searched, False, []), st)"
    unfolding escalate_def by (rule if_not_P)
  then show ?thesis using assms(2,3) by auto
next
  case True
  let ?deep_ctx = "with_timeout (ck_deep (ev_clock env)) (deep_fail_timeout cfg) ctx"
  obtain skip reason0 st1 where ask: "ask_negative env cfg (sp_query params) ''all'' st = ((skip, reason0), st1)"
    by (metis prod.collapse)
  have st1: "others_ok env \<Longrightarrow> orch_step st st1"
    using ask_negative_step [of env st cfg "sp_query params" "''all''"] by (simp add: ask)
  have mode: "mode = mode_search" "rs = []" using True by blast+
  show ?thesis
  proof (cases skip)
    case skip: True
    then have "reason0 \<noteq> []" using ask_negative_reason ask by simp
    then show ?thesis using assms(3) True skip st1 by (simp add: escalate_def ask)
  next
    case no_skip: False
    show ?thesis
    proof (cases "search_deep_tier1 env cfg ?deep_ctx params")
      case (Inl e)
      have "others_ok env \<Longrightarrow> orch_step st (mark_negative env cfg (sp_query params) ''all'' st1)"
        by (rule orch_step_trans [OF st1 mark_negative_step])
      then show ?thesis using assms(3) True no_skip by (auto simp: escalate_def ask Inl Let_def)
    next
      case (Inr x)
      obtain ds dsearched where x: "x = (ds, dsearched)" by fastforce
      have "\<forall>q\<in>set (filter_min_score (sp_min_score params) ds). raw_hit env cfg params q \<and> scores_enough params q"
        if "fair_env env"
        using deep_hits [OF that assms(1) Inr [unfolded x]] by (auto simp: filter_min_score_scores)
      then show ?thesis
        using assms(3) True no_skip st1 by (auto simp: escalate_def ask Inr x Let_def split: if_splits)
    qed
  qed
qed

lemma search_with_fallback_answered:
  assumes "sp_collection params = []"
  shows "answered env cfg params key st (search_with_fallback env cfg ctx params mode key st)"
proof -
  obtain r1 s1 f1 where p: "search_primary_with_tier_fallback env cfg ctx params mode = (r1, s1, f1)"
    by (metis prod_cases3)
  obtain m2 r2 s2 d reason st1 where e: "escalate env cfg ctx params mode r1 s1 st = ((m2, r2, s2, d, reason), st1)"
    by (metis prod.collapse)
  have "fair_env env \<Longrightarrow> \<forall>q\<in>set r1. raw_hit env cfg params q \<and> scores_enough params q"
    using primary_hits [OF _ assms p] by blast
  from escalate_sound [OF assms this e] show ?thesis
    by (intro answeredI [OF _ finalize_answer])
       (auto simp: search_with_fallback_def p e Let_def case_prod_beta apfst_def map_prod_def)
qed

lemma search_uncached_answered:
  "answered env cfg params key st (search_uncached env cfg ctx params key st)"
  using search_single_answered search_single_deep_answered search_all_deep_answered
    search_with_fallback_answered
  by (simp add: search_uncached_def Let_def)

lemma cache_and_build_meta:
  "out_results (fst (cache_and_build env k rs m s fb d r st)) = rs"
  "sm_mode_used (out_meta (fst (cache_and_build env k rs m s fb d r st))) = m"
  "sm_cache_hit (out_meta (fst (cache_and_build env k rs m s fb d r st))) = False"
  "sm_degraded (out_meta (fst (cache_and_build env k rs m s fb d r st))) = d"
  "sm_degrade_reason (out_meta (fst (cache_and_build env k rs m s fb d r st))) = r"
  by (simp_all add: cache_and_build_def Let_def build_meta_def)

lemma uncached_answer:
  assumes "fst (search_uncached env cfg ctx params key st) = Inr res"
  shows "answer env cfg params (out_results res) (sm_mode_used (out_meta res)) (sm_degraded (out_meta res))
      (sm_degrade_reason (out_meta res)) \<and> \<not> sm_cache_hit (out_meta res)"
proof -
  from search_uncached_answered [of env cfg params key st ctx]
  obtain rs mode searched fb degraded reason st0 where
    r: "search_uncached env cfg ctx params key st =
        apfst Inr (cache_and_build env key rs mode searched fb degraded reason st0)"
      and a: "answer env cfg params rs mode degraded reason"
    using assms unfolding answered_def by force
  have "res = fst (cache_and_build env key rs mode searched fb degraded reason st0)"
    using assms by (simp add: r)
  then show ?thesis using a by (simp add: cache_and_build_meta)
qed

subsection \<open>What a search leaves in the cache\<close>

lemma params_key_effective:
  "params_key (effective_params cfg (p\<lparr>sp_confirm := a\<rparr>)) = params_key (effective_params cfg p)"
  "params_key (effective_params cfg (p\<lparr>sp_disable_deep_escalation := b\<rparr>)) = params_key (effective_params cfg p)"
  by (simp_all add: params_key_def effective_params_def)

lemma cache_get_step: "orch_step st (st\<lparr>or_cache := snd (cache_get t k (or_cache st))\<rparr>)"
  by (auto simp: orch_step_def orch_inv_def intro: inv_intros)

lemma search_hit:
  assumes "fst (cache_get (ck_get (ev_clock env)) (params_key (effective_params cfg params)) (or_cache st)) = Some e"
  shows "fst (search env cfg ctx params st) = Inr (cached_outcome (ev_clock env) e)"
  using assms by (simp add: search_def Let_def case_prod_beta)

lemma search_miss:
  assumes "fst (cache_get (ck_get (ev_clock env)) (params_key (effective_params cfg params)) (or_cache st)) = None"
  shows "search env cfg ctx params st =
    search_uncached env cfg ctx (effective_params cfg params) (params_key (effective_params cfg params))
      (st\<lparr>or_cache := snd (cache_get (ck_get (ev_clock env)) (params_key (effective_params cfg params)) (or_cache st))\<rparr>)"
  using assms by (simp add: search_def Let_def case_prod_beta)

lemma cached_outcome_hit [simp]:
  "out_results (cached_outcome ck e) = en_results e" "sm_cache_hit (out_meta (cached_outcome ck e))"
  "sm_mode_used (out_meta (cached_outcome ck e)) = en_mode e"
  "sm_degraded (out_meta (cached_outcome ck e)) = en_degraded e"
  "sm_degrade_reason (out_meta (cached_outcome ck e)) = en_degrade_reason e"
  by (simp_all add: cached_outcome_def build_meta_def)

lemma fresh_search_missed:
  assumes "fst (search env cfg ctx params st) = Inr res" and "\<not> sm_cache_hit (out_meta res)"
  shows "fst (cache_get (ck_get (ev_clock env)) (params_key (effective_params cfg params)) (or_cache st)) = None"
proof (rule ccontr)
  assume "\<not> ?thesis"
  then obtain e where "fst (cache_get (ck_get (ev_clock env)) (params_key (effective_params cfg params)) (or_cache st)) = Some e"
    by auto
  then have "res = cached_outcome (ev_clock env) e" using assms(1) search_hit by simp
  then show False using assms(2) by simp
qed

lemma answered_step:
  assumes "answered env cfg params key st result" and "others_ok env"
  shows "orch_step st (snd result)"
  using assms(1) unfolding answered_def
proof
  assume "\<exists>e. result = (Inl e, st) \<and> sp_collection params \<noteq> []"
  then show ?thesis by auto
next
  assume "\<exists>rs mode searched fb degraded reason st0.
        result = apfst Inr (cache_and_build env key rs mode searched fb degraded reason st0) \<and>
        answer env cfg params rs mode degraded reason \<and> (others_ok env \<longrightarrow> orch_step st st0)"
  then obtain rs mode searched fb degraded reason st0 where
    r: "result = apfst Inr (cache_and_build env key rs mode searched fb degraded reason st0)"
      and a: "degraded \<longleftrightarrow> reason \<noteq> []" "degraded \<longrightarrow> mode = mode_search" and st0: "orch_step st st0"
    using assms(2) unfolding answer_def by blast
  from orch_step_trans [OF st0 cache_and_build_step [OF assms(2) a]] show ?thesis by (simp add: r)
qed

lemma search_step:
  assumes "others_ok env"
  shows "orch_step st (snd (search env cfg ctx params st))"
proof -
  let ?p = "effective_params cfg params"
  let ?st1 = "st\<lparr>or_cache := snd (cache_get (ck_get (ev_clock env)) (params_key ?p) (or_cache st))\<rparr>"
  have "orch_step st (snd (search_uncached env cfg ctx ?p (params_key ?p) ?st1))"
    by (rule orch_step_trans [OF cache_get_step answered_step [OF search_uncached_answered assms]])
  then show ?thesis by (simp add: search_def Let_def case_prod_beta cache_get_step split: option.split)
qed

text \<open>Whatever a search answers, from the cache or not, tells the truth about its degradation.\<close>

lemma search_honest:
  assumes "orch_inv st" and "fst (search env cfg ctx params st) = Inr res"
  shows "(sm_degraded (out_meta res) \<longleftrightarrow> sm_degrade_reason (out_meta res) \<noteq> []) \<and>
    (sm_degraded (out_meta res) \<longrightarrow> sm_mode_used (out_meta res) = mode_search)"
proof (cases "fst (cache_get (ck_get (ev_clock env)) (params_key (effective_params cfg params)) (or_cache st))")
  case None
  then show ?thesis using uncached_answer assms(2) unfolding search_miss [OF None] answer_def by blast
next
  case (Some e)
  have "res = cached_outcome (ev_clock env) e" using assms(2) search_hit [OF Some] by simp
  moreover have "honest_entry e" using honest_cache_live [OF _ _ Some] assms(1) by (simp add: orch_inv_def)
  ultimately show ?thesis by (simp add: honest_entry_def)
qed

text \<open>What the next lookup finds after a search that was not answered from the cache.\<close>

lemma search_stores:
  assumes "orch_inv st" and "others_ok env" and "\<And>x. ev_others env 3 x = x" and "c_enabled (or_cache st)"
    and "fst (search env cfg ctx params st) = Inr res" and "\<not> sm_cache_hit (out_meta res)"
    and "t - ck_put (ev_clock env) \<le> c_ttl (or_cache st)"
  obtains e where "fst (cache_get t (params_key (effective_params cfg params)) (or_cache (snd (search env cfg ctx params st)))) = Some e"
    and "en_results e = out_results res" and "en_mode e = sm_mode_used (out_meta res)"
    and "en_degraded e = sm_degraded (out_meta res)" and "en_degrade_reason e = sm_degrade_reason (out_meta res)"
proof -
  let ?p = "effective_params cfg params" and ?k = "params_key (effective_params cfg params)"
  let ?st1 = "st\<lparr>or_cache := snd (cache_get (ck_get (ev_clock env)) ?k (or_cache st))\<rparr>"
  note miss = search_miss [OF fresh_search_missed [OF assms(5,6)]]
  from search_uncached_answered [of env cfg ?p ?k ?st1 ctx] obtain rs mode searched fb d reason st0 where
    r: "search_uncached env cfg ctx ?p ?k ?st1 = apfst Inr (cache_and_build env ?k rs mode searched fb d reason st0)"
    and s: "orch_step ?st1 st0"
    using assms(2,5) unfolding answered_def miss by force
  let ?a = "ev_others env 2 st0"
  have "orch_step st ?a"
    using cache_get_step s others_step [OF assms(2)] by (blast intro: orch_step_trans)
  then have a: "cache_inv (or_cache ?a)" "c_enabled (or_cache ?a)" "c_ttl (or_cache ?a) = c_ttl (or_cache st)"
    using assms(1,4) by (simp_all add: orch_step_def orch_inv_def)
  let ?e = "\<lparr>en_results = rs, en_index_version = [], en_created_at = 0, en_query = ?k, en_mode = mode,
     en_collection = join '','' searched, en_fallback_triggered = fb, en_degraded = d, en_degrade_reason = reason\<rparr>"
  have c: "or_cache (snd (search env cfg ctx params st)) = cache_put (ck_put (ev_clock env)) ?k ?e (or_cache ?a)"
    by (simp add: miss r cache_and_build_def cache_results_def Let_def assms(3))
  have res: "res = fst (cache_and_build env ?k rs mode searched fb d reason st0)"
    using assms(5) by (simp add: miss r)
  obtain e where e: "fst (cache_get t ?k (cache_put (ck_put (ev_clock env)) ?k ?e (or_cache ?a))) = Some e" "same_payload e ?e"
    using rc.put_then_get [OF a(1,2), of t "ck_put (ev_clock env)" ?k ?e] a(3) assms(7) by auto
  show ?thesis
    by (rule that [of e]) (use e in \<open>simp_all add: c res cache_and_build_meta same_payload_def\<close>)
qed

subsection \<open>Which executor calls a search depends on\<close>

text \<open>Another executor with the same capabilities that agrees on the calls in \<open>P\<close>.\<close>

definition same_calls :: "(ctx \<Rightarrow> string \<Rightarrow> bool) \<Rightarrow> config \<Rightarrow> env \<Rightarrow> executor \<Rightarrow> bool" where
  "same_calls P cfg env ex \<longleftrightarrow>
     ex_has_capability ex = ex_has_capability (ev_exec env) \<and>
     (\<forall>c mode name params. P c mode \<longrightarrow>
        exec_search (env\<lparr>ev_exec := ex\<rparr>) cfg c mode name params = exec_search env cfg c mode name params)"

lemma same_calls_exec:
  "same_calls P cfg env ex \<Longrightarrow> P c mode \<Longrightarrow>
   exec_search (env\<lparr>ev_exec := ex\<rparr>) cfg c mode name params = exec_search env cfg c mode name params"
  unfolding same_calls_def by blast

lemma same_calls_tier:
  assumes "same_calls P cfg env ex" and "P ctx mode"
  shows "search_tier_parallel (env\<lparr>ev_exec := ex\<rparr>) cfg ctx cols mode params =
    search_tier_parallel env cfg ctx cols mode params"
proof -
  have "tier_step (env\<lparr>ev_exec := ex\<rparr>) cfg ctx mode params = tier_step env cfg ctx mode params"
    by (intro ext) (simp add: tier_step_def same_calls_exec [OF assms])
  then show ?thesis by (simp add: search_tier_parallel_def)
qed

lemma same_calls_primary:
  assumes "same_calls P cfg env ex" and "P ctx mode"
  shows "search_primary_with_tier_fallback (env\<lparr>ev_exec := ex\<rparr>) cfg ctx params mode =
    search_primary_with_tier_fallback env cfg ctx params mode"
  unfolding search_primary_with_tier_fallback_def same_calls_tier [OF assms] ..

lemma same_calls_deep:
  assumes "same_calls P cfg env ex" and "P ctx mode_query"
  shows "search_deep_tier1 (env\<lparr>ev_exec := ex\<rparr>) cfg ctx params = search_deep_tier1 env cfg ctx params"
  unfolding search_deep_tier1_def same_calls_tier [OF assms] ..

lemma exec_frame [simp]:
  "cache_and_build (env\<lparr>ev_exec := ex\<rparr>) = cache_and_build env"
  "ask_negative (env\<lparr>ev_exec := ex\<rparr>) = ask_negative env"
  "mark_negative (env\<lparr>ev_exec := ex\<rparr>) = mark_negative env"
  "shape_results (env\<lparr>ev_exec := ex\<rparr>) = shape_results env"
  by (intro ext; simp add: Let_def cache_and_build_def ask_negative_def mark_negative_def shape_results_def)+

lemma env_frame:
  "ev_clock (env\<lparr>ev_exec := ex\<rparr>) = ev_clock env" "ev_sort (env\<lparr>ev_exec := ex\<rparr>) = ev_sort env"
  by simp_all

definition deep_ctx_of :: "env \<Rightarrow> config \<Rightarrow> ctx \<Rightarrow> ctx" where
  "deep_ctx_of env cfg ctx = with_timeout (ck_deep (ev_clock env)) (deep_fail_timeout cfg) ctx"

lemma same_calls_single:
  assumes "same_calls P cfg env ex" and "P ctx mode"
  shows "search_single (env\<lparr>ev_exec := ex\<rparr>) cfg ctx params mode key st = search_single env cfg ctx params mode key st"
  unfolding search_single_def exec_frame same_calls_exec [OF assms] ..

lemma same_calls_single_deep:
  assumes "same_calls P cfg env ex" and "P ctx mode_search" and "P (deep_ctx_of env cfg ctx) mode_query"
  shows "search_single_deep (env\<lparr>ev_exec := ex\<rparr>) cfg ctx params key st = search_single_deep env cfg ctx params key st"
  unfolding search_single_deep_def broad_single_def Let_def exec_frame env_frame same_calls_exec [OF assms(1,2)]
    same_calls_exec [OF assms(1) assms(3)[unfolded deep_ctx_of_def]] ..

lemma same_calls_all_deep:
  assumes "same_calls P cfg env ex" and "P ctx mode_search" and "P (deep_ctx_of env cfg ctx) mode_query"
  shows "search_all_deep (env\<lparr>ev_exec := ex\<rparr>) cfg ctx params key st = search_all_deep env cfg ctx params key st"
  unfolding search_all_deep_def search_broad_all_def Let_def exec_frame env_frame same_calls_primary [OF assms(1,2)]
    same_calls_deep [OF assms(1) assms(3)[unfolded deep_ctx_of_def]] ..

lemma same_calls_escalate:
  assumes "same_calls P cfg env ex" and "ev_overloaded_later env \<or> P (deep_ctx_of env cfg ctx) mode_query"
  shows "escalate (env\<lparr>ev_exec := ex\<rparr>) cfg ctx params mode rs searched st =
    escalate env cfg ctx params mode rs searched st"
proof -
  have cap: "ex_has_capability ex = ex_has_capability (ev_exec env)" using assms(1) by (simp add: same_calls_def)
  show ?thesis
  proof (cases "ev_overloaded_later env")
    case True
    then show ?thesis by (simp add: escalate_def)
  next
    case False
    then have "P (deep_ctx_of env cfg ctx) mode_query" using assms(2) by blast
    note deep = same_calls_deep [OF assms(1) this, unfolded deep_ctx_of_def]
    show ?thesis unfolding escalate_def Let_def exec_frame env_frame deep by (simp add: cap)
  qed
qed

lemma same_calls_fallback:
  assumes "same_calls P cfg env ex" and "P ctx mode"
    and "ev_overloaded_later env \<or> P (deep_ctx_of env cfg ctx) mode_query"
  shows "search_with_fallback (env\<lparr>ev_exec := ex\<rparr>) cfg ctx params mode key st =
    search_with_fallback env cfg ctx params mode key st"
  unfolding search_with_fallback_def exec_frame env_frame same_calls_primary [OF assms(1,2)]
    same_calls_escalate [OF assms(1,3)] ..

lemma same_calls_search:
  assumes "same_calls P cfg env ex" and "P ctx mode_search"
    and "ev_overloaded env \<or> (\<forall>m. m \<noteq> mode_query \<longrightarrow> P ctx m) \<and> P (deep_ctx_of env cfg ctx) mode_query"
    and "ev_overloaded_later env \<or> P (deep_ctx_of env cfg ctx) mode_query"
  shows "search (env\<lparr>ev_exec := ex\<rparr>) cfg ctx params st = search env cfg ctx params st"
proof -
  have cap: "ex_has_capability ex = ex_has_capability (ev_exec env)"
    using assms(1) by (simp add: same_calls_def)
  have u: "search_uncached (env\<lparr>ev_exec := ex\<rparr>) cfg ctx p k s = search_uncached env cfg ctx p k s" for p k s
  proof -
    let ?m = "resolve_mode (cf_runtime cfg) (ex_has_capability (ev_exec env)) (ev_overloaded env)
      (sp_mode p) (sp_query p)"
    show ?thesis
    proof (cases "?m = mode_query")
      case True
      then have "\<not> ev_overloaded env" using resolve_mode_query by blast
      then have "P (deep_ctx_of env cfg ctx) mode_query" using assms(3) by blast
      then show ?thesis
        using True same_calls_single_deep [OF assms(1,2)] same_calls_all_deep [OF assms(1,2)]
        by (simp add: search_uncached_def cap Let_def)
    next
      case False
      then have "P ctx ?m"
        using assms(2,3) resolve_mode_overloaded by (cases "ev_overloaded env") auto
      then show ?thesis
        using False same_calls_single [OF assms(1)] same_calls_fallback [OF assms(1) _ assms(4)]
        by (simp add: search_uncached_def cap Let_def)
    qed
  qed
  show ?thesis unfolding search_def u env_frame ..
qed

end
