(* ===== verification/Search_Promises.thy ===== *)
theory Search_Promises
  imports Orch_Properties
begin

text \<open>The properties of \<open>Search\<close>, each over every executor, schedule, sort and interference.\<close>

subsection \<open>A small installation\<close>

definition demo_cfg :: config where
  "demo_cfg = sample_cfg\<lparr>
     cf_search := \<lparr>sc_default_mode = ''auto'', sc_coarse_k = 20, sc_top_k = 8, sc_min_score = Fin (1/2),
       sc_max_chars = 4500, sc_files_all_max_hits = 200, sc_fallback_enabled = True\<rparr>,
     cf_cache := \<lparr>cc_enabled = True, cc_ttl = 30 * minute, cc_max_entries = 500, cc_cleanup_interval = hour,
       cc_version_aware = True\<rparr>,
     cf_collections :=
       [sample_collection ''notes'' ''/srv/notes'' 1,
        (sample_collection ''diary'' ''/srv/diary'' 99)\<lparr>cl_require_explicit := True, cl_safety_prompt := True\<rparr>]\<rparr>"

definition demo_find :: "ctx \<Rightarrow> string \<Rightarrow> search_opts \<Rightarrow> search_result list result" where
  "demo_find ctx q opts =
     (if op_collection opts = ''notes'' then Inr [hit ''#1'' ''/srv/notes/a.md'' (9/10), hit ''#2'' ''/srv/notes/b.md'' (2/10)]
      else Inr [hit ''#9'' ''/srv/diary/x.md'' (8/10)])"

definition demo_exec :: executor where
  "demo_exec = \<lparr>ex_search = demo_find, ex_vsearch = demo_find, ex_query = demo_find,
     ex_has_capability = (\<lambda>c. False)\<rparr>"

definition broken_exec :: executor where
  "broken_exec = \<lparr>ex_search = (\<lambda>c q opts. Inl (plain_err ''exit status 1'')),
     ex_vsearch = (\<lambda>c q opts. Inl (plain_err ''exit status 1'')),
     ex_query = (\<lambda>c q opts. Inl (plain_err ''exit status 1'')), ex_has_capability = (\<lambda>c. False)\<rparr>"

definition demo_clock :: "time \<Rightarrow> clock" where
  "demo_clock t = \<lparr>ck_start = t, ck_get = t, ck_skip = t, ck_deep = t, ck_mark = t, ck_put = t,
     ck_done = t, ck_observe = t\<rparr>"

definition demo_env :: "executor \<Rightarrow> time \<Rightarrow> env" where
  "demo_env ex t = \<lparr>ev_exec = ex, ev_clock = demo_clock t, ev_overloaded = False, ev_overloaded_later = False,
     ev_token = (\<lambda>c m n. None), ev_sched = (\<lambda>m cs. cs), ev_sort = sort_slice score_less,
     ev_others = (\<lambda>i st. st)\<rparr>"

definition demo_params :: "string \<Rightarrow> bool \<Rightarrow> search_params" where
  "demo_params col confirm = \<lparr>sp_query = ''cache keys'', sp_mode = ''search'', sp_collection = col, sp_n = 0,
     sp_min_score = Fin 0, sp_fallback = True, sp_files_only = False, sp_files_all = False,
     sp_disable_deep_escalation = False, sp_confirm = confirm\<rparr>"

definition demo_ctx :: ctx where
  "demo_ctx = \<lparr>ctx_deadline = None\<rparr>"

lemma fair_demo: "fair_env (demo_env ex t)"
  by (simp add: fair_env_def demo_env_def gosort.score_sort_axioms)

lemma others_demo: "others_ok (demo_env ex t)" "ev_others (demo_env ex t) i x = x"
  by (simp_all add: others_ok_def demo_env_def)

lemma orch_inv_new: "orch_inv (orch_new t cfg)"
  by (simp add: orch_inv_def orch_new_def obs_inv_def inv_intros)

text \<open>One evaluated search of the tiers, and one of the protected collection; the witnesses use them.\<close>

lemma demo_notes:
  obtains r where "fst (search (demo_env demo_exec 5) demo_cfg demo_ctx (demo_params [] False) (orch_new 0 demo_cfg)) = Inr r"
    and "map sr_docid (out_results r) = [''#1'']" and "\<not> sm_cache_hit (out_meta r)"
proof -
  have "(case fst (search (demo_env demo_exec 5) demo_cfg demo_ctx (demo_params [] False) (orch_new 0 demo_cfg)) of
     Inl e \<Rightarrow> False | Inr r \<Rightarrow> map sr_docid (out_results r) = [''#1''] \<and> \<not> sm_cache_hit (out_meta r))"
    by code_simp
  then show ?thesis by (auto split: sum.splits intro: that)
qed

lemma demo_diary:
  obtains r where "fst (search (demo_env demo_exec 5) demo_cfg demo_ctx (demo_params ''diary'' True) (orch_new 0 demo_cfg)) = Inr r"
    and "map sr_docid (out_results r) = [''#9'']" and "\<not> sm_cache_hit (out_meta r)"
proof -
  have "(case fst (search (demo_env demo_exec 5) demo_cfg demo_ctx (demo_params ''diary'' True) (orch_new 0 demo_cfg)) of
     Inl e \<Rightarrow> False | Inr r \<Rightarrow> map sr_docid (out_results r) = [''#9''] \<and> \<not> sm_cache_hit (out_meta r))"
    by code_simp
  then show ?thesis by (auto split: sum.splits intro: that)
qed

lemma demo_enabled: "c_enabled (or_cache (orch_new 0 demo_cfg))"
  "c_ttl (or_cache (orch_new 0 demo_cfg)) = 30 * minute"
  by (simp_all add: orch_new_def cache_new_def demo_cfg_def)

subsection \<open>Properties\<close>

text \<open>C2: Every hit of a search that was not answered from the cache was found by a call of the executor on a collection this request may
  read (a tier-1 or tier-2 collection that is not reserved for explicit requests; or the named collection,
  confirmed if it is protected), is not excluded there and reaches the score threshold.\<close>

theorem search_hits_are_legitimate:
  assumes "fair_env env"
    and "fst (search env cfg ctx params st) = Inr res" and "\<not> sm_cache_hit (out_meta res)"
    and "r \<in> set (out_results res)"
  shows "\<exists>q col c mode rs.
    searchable cfg params col \<and>
    exec_search env cfg c mode (cl_name col) (effective_params cfg params) = Inr rs \<and>
    q \<in> set rs \<and> not_excluded col q \<and> scores_enough (effective_params cfg params) q \<and> bare r = bare q"
proof -
  note miss = search_miss [OF fresh_search_missed [OF assms(2,3)]]
  have "came_from env cfg (effective_params cfg params) r"
    using uncached_answer [of env cfg ctx "effective_params cfg params"] assms(1,2,4) unfolding miss answer_def by blast
  moreover have "q \<in> set (filter_exclude col rs) \<Longrightarrow> q \<in> set rs \<and> not_excluded col q" for q col rs
    by (simp add: filter_exclude_kept not_excluded_def excluded_by_iff)
  ultimately show ?thesis unfolding came_from_def raw_hit_def searchable_effective by blast
qed

lemma search_hits_are_legitimate_witness:
  "\<exists>col. searchable demo_cfg (demo_params [] False) col"
proof -
  obtain r where r: "fst (search (demo_env demo_exec 5) demo_cfg demo_ctx (demo_params [] False) (orch_new 0 demo_cfg)) = Inr r"
    "map sr_docid (out_results r) = [''#1'']" "\<not> sm_cache_hit (out_meta r)" by (rule demo_notes)
  then obtain h where "h \<in> set (out_results r)" by (cases "out_results r") auto
  from search_hits_are_legitimate [OF fair_demo r(1,3) this] show ?thesis by blast
qed

text \<open>C7: Degradation is reported truthfully: an answer that was not cached is marked degraded exactly when it
  carries a reason, and a degraded answer was served by keyword search.\<close>

theorem degradation_is_reported:
  assumes "fst (search env cfg ctx params st) = Inr res" and "\<not> sm_cache_hit (out_meta res)"
  shows "(sm_degraded (out_meta res) \<longleftrightarrow> sm_degrade_reason (out_meta res) \<noteq> []) \<and>
    (sm_degraded (out_meta res) \<longrightarrow> sm_mode_used (out_meta res) = mode_search)"
  using uncached_answer [of env cfg ctx "effective_params cfg params"] assms(1)
  unfolding search_miss [OF fresh_search_missed [OF assms]] answer_def by blast

lemma degradation_is_reported_witness:
  "\<exists>r :: search_outcome. map sr_docid (out_results r) = [''#1''] \<and>
     (sm_degraded (out_meta r) \<longleftrightarrow> sm_degrade_reason (out_meta r) \<noteq> [])"
proof -
  obtain r where r: "fst (search (demo_env demo_exec 5) demo_cfg demo_ctx (demo_params [] False) (orch_new 0 demo_cfg)) = Inr r"
    "map sr_docid (out_results r) = [''#1'']" "\<not> sm_cache_hit (out_meta r)" by (rule demo_notes)
  show ?thesis by (intro exI [of _ r] conjI r(2) conjunct1 [OF degradation_is_reported [OF r(1,3)]])
qed

text \<open>A search keeps the invariants of the result cache and of the negative cache (the pointer structure of the first, the
  truth of what its entries say about degradation) and the settings of the cache, whatever other requests do in between that keeps them too.\<close>

theorem search_preserves_invariants:
  assumes "orch_inv st" and "others_ok env"
  shows "orch_inv (snd (search env cfg ctx params st)) \<and>
    c_enabled (or_cache (snd (search env cfg ctx params st))) = c_enabled (or_cache st) \<and>
    c_ttl (or_cache (snd (search env cfg ctx params st))) = c_ttl (or_cache st)"
  using search_step [OF assms(2), of st cfg ctx params] assms(1) by (simp add: orch_step_def)

lemma search_preserves_invariants_witness:
  "orch_inv (snd (search (demo_env broken_exec 5) demo_cfg demo_ctx (demo_params [] False) (orch_new 0 demo_cfg)))"
  using search_preserves_invariants [OF orch_inv_new others_demo(1)] by blast

text \<open>C8: A search over the tiers never fails, whatever the executor returns: the errors of single collections
  are swallowed. A search of a named collection fails without calling the executor
  when the collection is unknown, or protected and not confirmed (unless an answer is cached).\<close>

theorem tier_search_never_fails:
  "(sp_collection params = [] \<longrightarrow> (\<exists>res. fst (search env cfg ctx params st) = Inr res)) \<and>
   (sp_collection params \<noteq> [] \<and>
    fst (cache_get (ck_get (ev_clock env)) (params_key (effective_params cfg params)) (or_cache st)) = None \<and>
    \<not> (\<exists>col. searchable cfg params col) \<longrightarrow>
      (\<exists>e. fst (search env cfg ctx params st) = Inl e \<and> e \<in> {plain_err (''collection '' @ quote (sp_collection params) @ '' not found''),
         plain_err (''collection '' @ quote (sp_collection params) @ '' requires confirm=true'')}))"
proof (intro conjI impI)
  let ?p = "effective_params cfg params"
  have coll: "sp_collection ?p = sp_collection params" by (simp add: effective_params_def)
  {
    assume c: "sp_collection params = []"
    show "\<exists>res. fst (search env cfg ctx params st) = Inr res"
    proof (cases "fst (cache_get (ck_get (ev_clock env)) (params_key ?p) (or_cache st))")
      case None
      let ?st1 = "st\<lparr>or_cache := snd (cache_get (ck_get (ev_clock env)) (params_key ?p) (or_cache st))\<rparr>"
      from search_uncached_answered [of env cfg ?p "params_key ?p" ?st1 ctx] c coll show ?thesis
        unfolding search_miss [OF None] answered_def by auto
    qed (simp add: search_hit)
  }
  {
    assume a: "sp_collection params \<noteq> [] \<and>
      fst (cache_get (ck_get (ev_clock env)) (params_key ?p) (or_cache st)) = None \<and>
      \<not> (\<exists>col. searchable cfg params col)"
    have "\<exists>e. allowed_collection cfg ?p = Inl e"
    proof (cases "allowed_collection cfg ?p")
      case (Inr col)
      have "searchable cfg ?p col" using allowed_collection_searchable [OF Inr] a coll by simp
      then have "searchable cfg params col" by simp
      then show ?thesis using a by blast
    qed simp
    then obtain e where e: "allowed_collection cfg ?p = Inl e" by blast
    then have "fst (search env cfg ctx params st) = Inl e"
      using a coll by (simp add: search_miss search_uncached_def Let_def search_single_def search_single_deep_def)
    moreover have "e \<in> {plain_err (''collection '' @ quote (sp_collection params) @ '' not found''),
        plain_err (''collection '' @ quote (sp_collection params) @ '' requires confirm=true'')}"
      using e by (auto simp: allowed_collection_def coll split: option.splits if_splits)
    ultimately show "\<exists>e. fst (search env cfg ctx params st) = Inl e \<and>
      e \<in> {plain_err (''collection '' @ quote (sp_collection params) @ '' not found''),
         plain_err (''collection '' @ quote (sp_collection params) @ '' requires confirm=true'')}" by blast
  }
qed

lemma tier_search_never_fails_witness:
  "\<exists>res. fst (search (demo_env broken_exec 5) demo_cfg demo_ctx (demo_params [] False) (orch_new 0 demo_cfg)) = Inr res"
  using tier_search_never_fails [of "demo_params [] False"] by (simp add: demo_params_def)

text \<open>C10: A search that was not answered from the cache is answered from it when it is repeated within the
  cache's life, with the same hits, mode and degradation, whatever the environment of the repetition is.\<close>

theorem repeated_search_hits_cache:
  assumes "orch_inv st" and "others_ok env" and "\<forall>x. ev_others env 3 x = x" and "c_enabled (or_cache st)"
    and "fst (search env cfg ctx params st) = Inr res" and "\<not> sm_cache_hit (out_meta res)"
    and "ck_get (ev_clock env') - ck_put (ev_clock env) \<le> c_ttl (or_cache st)"
  shows "\<exists>res'. fst (search env' cfg ctx' params (snd (search env cfg ctx params st))) = Inr res' \<and>
    sm_cache_hit (out_meta res') \<and> out_results res' = out_results res \<and>
    sm_mode_used (out_meta res') = sm_mode_used (out_meta res) \<and>
    sm_degraded (out_meta res') = sm_degraded (out_meta res) \<and>
    sm_degrade_reason (out_meta res') = sm_degrade_reason (out_meta res)"
proof -
  from search_stores [OF assms(1,2) assms(3)[rule_format] assms(4-7)] obtain e where
    e: "fst (cache_get (ck_get (ev_clock env')) (params_key (effective_params cfg params))
        (or_cache (snd (search env cfg ctx params st)))) = Some e"
      "en_results e = out_results res" "en_mode e = sm_mode_used (out_meta res)"
      "en_degraded e = sm_degraded (out_meta res)" "en_degrade_reason e = sm_degrade_reason (out_meta res)" .
  show ?thesis using search_hit [OF e(1)] e(2-) by auto
qed

lemma repeated_search_hits_cache_witness:
  "\<exists>res'. fst (search (demo_env broken_exec 9) demo_cfg demo_ctx (demo_params [] False)
      (snd (search (demo_env demo_exec 5) demo_cfg demo_ctx (demo_params [] False) (orch_new 0 demo_cfg)))) = Inr res' \<and>
    map sr_docid (out_results res') = [''#1'']"
proof -
  obtain r where r: "fst (search (demo_env demo_exec 5) demo_cfg demo_ctx (demo_params [] False) (orch_new 0 demo_cfg)) = Inr r"
    "map sr_docid (out_results r) = [''#1'']" "\<not> sm_cache_hit (out_meta r)" by (rule demo_notes)
  have "ck_get (ev_clock (demo_env broken_exec 9)) - ck_put (ev_clock (demo_env demo_exec 5)) \<le>
      c_ttl (or_cache (orch_new 0 demo_cfg))"
    by (simp add: demo_enabled) (simp add: demo_env_def demo_clock_def)
  from repeated_search_hits_cache [OF orch_inv_new others_demo(1) _ demo_enabled(1) r(1,3) this, of demo_ctx]
  show ?thesis using r(2) by (auto simp: others_demo(2))
qed

text \<open>C39: The confirmation that a protected collection asks for is not part of the cache key, and the cache is asked first: the hits of
  a confirmed search are served to every request that repeats it without the confirmation.\<close>

theorem unconfirmed_request_is_served_from_cache:
  assumes "orch_inv st" and "others_ok env" and "\<forall>x. ev_others env 3 x = x" and "c_enabled (or_cache st)"
    and "fst (search env cfg ctx params st) = Inr res" and "\<not> sm_cache_hit (out_meta res)"
    and "ck_get (ev_clock env') - ck_put (ev_clock env) \<le> c_ttl (or_cache st)"
  shows "\<exists>res'. fst (search env' cfg ctx' (params\<lparr>sp_confirm := False\<rparr>) (snd (search env cfg ctx params st))) = Inr res' \<and>
    out_results res' = out_results res"
proof -
  from search_stores [OF assms(1,2) assms(3)[rule_format] assms(4-7)] obtain e where
    e: "fst (cache_get (ck_get (ev_clock env')) (params_key (effective_params cfg params))
        (or_cache (snd (search env cfg ctx params st)))) = Some e"
      "en_results e = out_results res" .
  have "fst (cache_get (ck_get (ev_clock env')) (params_key (effective_params cfg (params\<lparr>sp_confirm := False\<rparr>)))
        (or_cache (snd (search env cfg ctx params st)))) = Some e"
    using e(1) by (simp add: params_key_effective)
  from search_hit [OF this] show ?thesis using e(2) by auto
qed

lemma unconfirmed_request_is_served_from_cache_witness:
  "\<not> searchable demo_cfg (demo_params ''diary'' False) (cf_collections demo_cfg ! 1) \<and>
   (\<exists>res'. fst (search (demo_env broken_exec 9) demo_cfg demo_ctx ((demo_params ''diary'' True)\<lparr>sp_confirm := False\<rparr>)
      (snd (search (demo_env demo_exec 5) demo_cfg demo_ctx (demo_params ''diary'' True) (orch_new 0 demo_cfg)))) = Inr res' \<and>
    map sr_docid (out_results res') = [''#9''])"
proof
  show "\<not> searchable demo_cfg (demo_params ''diary'' False) (cf_collections demo_cfg ! 1)"
    by (simp add: searchable_def demo_cfg_def demo_params_def sample_collection_def)
  obtain r where r: "fst (search (demo_env demo_exec 5) demo_cfg demo_ctx (demo_params ''diary'' True) (orch_new 0 demo_cfg)) = Inr r"
    "map sr_docid (out_results r) = [''#9'']" "\<not> sm_cache_hit (out_meta r)" by (rule demo_diary)
  have "ck_get (ev_clock (demo_env broken_exec 9)) - ck_put (ev_clock (demo_env demo_exec 5)) \<le>
      c_ttl (or_cache (orch_new 0 demo_cfg))"
    by (simp add: demo_enabled) (simp add: demo_env_def demo_clock_def)
  from unconfirmed_request_is_served_from_cache [OF orch_inv_new others_demo(1) _ demo_enabled(1) r(1,3) this, of demo_ctx]
  show "\<exists>res'. fst (search (demo_env broken_exec 9) demo_cfg demo_ctx ((demo_params ''diary'' True)\<lparr>sp_confirm := False\<rparr>)
      (snd (search (demo_env demo_exec 5) demo_cfg demo_ctx (demo_params ''diary'' True) (orch_new 0 demo_cfg)))) = Inr res' \<and>
    map sr_docid (out_results res') = [''#9'']"
    using r(2) by (auto simp: others_demo(2))
qed

text \<open>C17: Under overload a search depends on no call but keyword search: its answer and the state it leaves stay the same whatever
  the vector and the deep search of the executor would have done.\<close>

theorem overloaded_search_is_keyword_only:
  assumes "ev_overloaded env" and "ev_overloaded_later env"
    and "ex_search ex = ex_search (ev_exec env)" and "ex_has_capability ex = ex_has_capability (ev_exec env)"
  shows "search (env\<lparr>ev_exec := ex\<rparr>) cfg ctx params st = search env cfg ctx params st"
proof -
  have "same_calls (\<lambda>c m. m = mode_search) cfg env ex"
    using assms(3,4) by (auto simp: same_calls_def exec_search_def Let_def split: option.split)
  from same_calls_search [OF this] show ?thesis using assms(1,2) by blast
qed

lemma overloaded_search_is_keyword_only_witness:
  "search ((demo_env demo_exec 5)\<lparr>ev_overloaded := True, ev_overloaded_later := True,
       ev_exec := demo_exec\<lparr>ex_query := ex_query broken_exec\<rparr>\<rparr>) demo_cfg demo_ctx (demo_params [] False) (orch_new 0 demo_cfg) =
   search ((demo_env demo_exec 5)\<lparr>ev_overloaded := True, ev_overloaded_later := True\<rparr>) demo_cfg demo_ctx
     (demo_params [] False) (orch_new 0 demo_cfg)"
  using overloaded_search_is_keyword_only [of "(demo_env demo_exec 5)\<lparr>ev_overloaded := True, ev_overloaded_later := True\<rparr>"
      "demo_exec\<lparr>ex_query := ex_query broken_exec\<rparr>"]
  by (simp add: demo_env_def)

text \<open>C18: A search makes no deep call without a deadline: it depends on the deep search of the executor
  only for contexts that end at most the configured timeout after the call.\<close>

theorem deep_calls_are_bounded:
  assumes "ex_search ex = ex_search (ev_exec env)" and "ex_vsearch ex = ex_vsearch (ev_exec env)"
    and "ex_has_capability ex = ex_has_capability (ev_exec env)"
    and "\<forall>c q opts t. ctx_deadline c = Some t \<and> t \<le> ck_deep (ev_clock env) + deep_fail_timeout cfg \<longrightarrow>
       ex_query ex c q opts = ex_query (ev_exec env) c q opts"
  shows "search (env\<lparr>ev_exec := ex\<rparr>) cfg ctx params st = search env cfg ctx params st"
proof -
  let ?P = "\<lambda>c m. m = mode_query \<longrightarrow>
     (\<exists>t. ctx_deadline c = Some t \<and> t \<le> ck_deep (ev_clock env) + deep_fail_timeout cfg)"
  have s: "same_calls ?P cfg env ex"
    using assms by (auto simp: same_calls_def exec_search_def Let_def split: option.split)
  have d: "?P (deep_ctx_of env cfg ctx) mode_query"
    by (simp add: deep_ctx_of_def with_timeout_def split: option.split)
  show ?thesis by (rule same_calls_search [OF s]) (use d in auto)
qed

lemma deep_calls_are_bounded_witness:
  "search ((demo_env demo_exec 5)\<lparr>ev_exec := demo_exec\<lparr>ex_query := (\<lambda>c q opts. if ctx_deadline c = None
       then Inl (plain_err ''no deadline'') else ex_query demo_exec c q opts)\<rparr>\<rparr>) demo_cfg demo_ctx (demo_params [] False) (orch_new 0 demo_cfg) =
   search (demo_env demo_exec 5) demo_cfg demo_ctx (demo_params [] False) (orch_new 0 demo_cfg)"
  using deep_calls_are_bounded [of "demo_exec\<lparr>ex_query := (\<lambda>c q opts. if ctx_deadline c = None
       then Inl (plain_err ''no deadline'') else ex_query demo_exec c q opts)\<rparr>" "demo_env demo_exec 5"]
  by (simp add: demo_env_def)

lemma finalize_length:
  assumes "score_sort srt" and "0 < n"
  shows "int (length (finalize_results srt sc rs n fo fa)) \<le> n"
proof -
  have d: "int (length (dedup_sort_limit_with srt xs n)) \<le> n" for xs by (rule score_sort.dsl_length [OF assms])
  have "int (length (enforce_max_chars sc ys)) \<le> int (length ys)" for ys using enforce_max_chars_sub(1) by simp
  moreover have "int (length (enforce_files_all_max_hits sc ys)) \<le> int (length ys)" for ys
    by (simp add: enforce_files_all_max_hits_def Let_def)
  ultimately show ?thesis using d order_trans unfolding finalize_results_def Let_def by (metis (full_types))
qed

text \<open>An answer that was not cached has at most as many hits as were asked for, or as the configured default when
  no number was asked for. That holds for a search of all files as well, although its executor call is unlimited and a cap of its own
  is configured: the default replaces the zero that stands for no limit.\<close>

theorem answer_is_limited:
  assumes "fair_env env" and "0 < sp_n (effective_params cfg params)"
    and "fst (search env cfg ctx params st) = Inr res" and "\<not> sm_cache_hit (out_meta res)"
  shows "int (length (out_results res)) \<le> (if sp_n params \<le> 0 then sc_top_k (cf_search cfg) else sp_n params)"
proof -
  have "shaped env cfg (effective_params cfg params) (out_results res)"
    using uncached_answer [of env cfg ctx "effective_params cfg params"] assms(3)
    unfolding search_miss [OF fresh_search_missed [OF assms(3,4)]] answer_def by blast
  then obtain raw where "out_results res = finalize_results (ev_sort env) (cf_search cfg) raw
      (sp_n (effective_params cfg params)) (sp_files_only params) (sp_files_all params)"
    by (auto simp: shaped_def effective_params_def)
  then have "int (length (out_results res)) \<le> sp_n (effective_params cfg params)"
    using finalize_length assms(1,2) by (simp add: fair_env_def)
  then show ?thesis by (simp add: effective_params_def)
qed

lemma answer_is_limited_witness:
  "\<exists>r :: search_outcome. map sr_docid (out_results r) = [''#1''] \<and> int (length (out_results r)) \<le> 8"
proof -
  obtain r where r: "fst (search (demo_env demo_exec 5) demo_cfg demo_ctx (demo_params [] False) (orch_new 0 demo_cfg)) = Inr r"
    "map sr_docid (out_results r) = [''#1'']" "\<not> sm_cache_hit (out_meta r)" by (rule demo_notes)
  have "0 < sp_n (effective_params demo_cfg (demo_params [] False))"
    by (simp add: effective_params_def demo_params_def demo_cfg_def)
  from answer_is_limited [OF fair_demo this r(1,3)] have "int (length (out_results r)) \<le> 8"
    by (simp add: demo_params_def demo_cfg_def)
  with r(2) show ?thesis by (intro exI [of _ r] conjI)
qed

text \<open>The key that \<open>HasCachedResult\<close> asks for is another one than \<open>Search\<close> stores under.\<close>

lemma files_all_key_differs:
  assumes "sp_n params \<le> 0" and "sp_files_only params" and "sp_files_all params" and "sc_top_k (cf_search cfg) \<noteq> 0"
  shows "params_key (has_cached_params cfg params) \<noteq> params_key (effective_params cfg params)"
  using assms by (simp add: params_key_def has_cached_params_def effective_params_def make_cache_key_def)

text \<open>A search of all files is never found by the test that decides whether a critically overloaded server may
  answer it: right after such a search was stored in an empty cache, the test says that nothing is cached.\<close>

theorem files_all_never_counts_as_cached:
  assumes "sp_n params \<le> 0" and "sp_files_only params" and "sp_files_all params" and "sc_top_k (cf_search cfg) \<noteq> 0"
    and "orch_inv st" and "fst (cache_get t (params_key (has_cached_params cfg params)) (or_cache st)) = None"
  shows "\<not> fst (has_cached_result t cfg params
    (cache_results t' (params_key (effective_params cfg params)) rs m c fb d r st))"
proof -
  have "cache_inv (or_cache st)" using assms(5) by (simp add: orch_inv_def)
  from rc.get_other_put [OF this files_all_key_differs [OF assms(1-4)]] assms(6) show ?thesis
    by (fastforce simp: has_cached_result_def cache_results_def case_prod_beta)
qed

lemma files_all_never_counts_as_cached_witness:
  "\<not> fst (has_cached_result 7 demo_cfg ((demo_params [] False)\<lparr>sp_files_only := True, sp_files_all := True\<rparr>)
    (cache_results 5 (params_key (effective_params demo_cfg ((demo_params [] False)\<lparr>sp_files_only := True, sp_files_all := True\<rparr>)))
       [] mode_search [] False False [] (orch_new 0 demo_cfg)))"
  by (rule files_all_never_counts_as_cached [OF _ _ _ _ orch_inv_new])
     (simp_all add: demo_params_def demo_cfg_def orch_new_def cache_new_def cache_get_def)

lemma tier_step_failing:
  assumes "\<forall>c m name p. \<exists>e. exec_search env cfg c m name p = Inl e"
  shows "fst (tier_step env cfg ctx mode params col acc) = fst acc"
proof -
  obtain e where "exec_search env cfg ctx mode (cl_name col) params = Inl e" using assms by blast
  then show ?thesis by (simp add: tier_step_def case_prod_beta)
qed

lemma tier_all_fail:
  assumes "\<forall>c m name p. \<exists>e. exec_search env cfg c m name p = Inl e"
  shows "fst (search_tier_parallel env cfg ctx cols mode params) = []"
proof -
  have "fst (fold (tier_step env cfg ctx mode params) cs acc) = fst acc" for cs acc
    by (induction cs arbitrary: acc) (simp_all add: tier_step_failing [OF assms])
  then show ?thesis by (simp add: search_tier_parallel_def)
qed

lemma primary_all_fail:
  assumes "\<forall>c m name p. \<exists>e. exec_search env cfg c m name p = Inl e"
  obtains s fb where "search_primary_with_tier_fallback env cfg ctx params mode = ([], s, fb)"
proof -
  obtain r1 s1 e1 where r1: "search_tier_parallel env cfg ctx (collections_by_tier cfg 1) mode params = (r1, s1, e1)"
    by (rule prod_cases3)
  obtain r2 s2 e2 where r2: "search_tier_parallel env cfg ctx (collections_by_tier cfg 2) mode params = (r2, s2, e2)"
    by (rule prod_cases3)
  have "r1 = []" "r2 = []"
    using tier_all_fail [OF assms, of ctx "collections_by_tier cfg 1" mode params]
      tier_all_fail [OF assms, of ctx "collections_by_tier cfg 2" mode params] r1 r2 by simp_all
  moreover have "filter_min_score x [] = []" for x by (simp add: filter_min_score_def)
  ultimately have "fst (search_primary_with_tier_fallback env cfg ctx params mode) = []"
    by (simp add: search_primary_with_tier_fallback_def r1 r2 Let_def)
  then show thesis by (metis that prod.collapse)
qed

lemma finalize_Nil: "score_sort srt \<Longrightarrow> finalize_results srt sc [] n fo fa = []"
  using finalize_hits [of srt _ sc "[]" n fo fa] by (cases "finalize_results srt sc [] n fo fa") auto

lemma failing_search:
  assumes "fair_env env" and "\<forall>c m name p. \<exists>e. exec_search env cfg c m name p = Inl e"
    and "\<not> ex_has_capability (ev_exec env) ''deep_query''" and "sp_collection params = []"
    and "fst (cache_get (ck_get (ev_clock env)) (params_key (effective_params cfg params)) (or_cache st)) = None"
  obtains res where "fst (search env cfg ctx params st) = Inr res" and "\<not> sm_cache_hit (out_meta res)"
    and "out_results res = []" and "\<not> sm_degraded (out_meta res)"
proof -
  let ?p = "effective_params cfg params"
  let ?m = "resolve_mode (cf_runtime cfg) (ex_has_capability (ev_exec env)) (ev_overloaded env) (sp_mode ?p) (sp_query ?p)"
  have nq: "?m \<noteq> mode_query" using resolve_mode_query assms(3) by blast
  have coll: "sp_collection ?p = []" using assms(4) by (simp add: effective_params_def)
  obtain s1 fb where p: "search_primary_with_tier_fallback env cfg ctx ?p ?m = ([], s1, fb)"
    by (rule primary_all_fail [OF assms(2)])
  have e: "escalate env cfg ctx ?p ?m [] s1 st' = ((?m, [], s1, False, []), st')" for st'
    using assms(3) by (simp add: escalate_def)
  have sort: "score_sort (ev_sort env)" using assms(1) by (simp add: fair_env_def)
  show ?thesis
    by (rule that) (auto simp: search_miss [OF assms(5)] search_uncached_def Let_def coll nq
        search_with_fallback_def p e finalize_Nil [OF sort] case_prod_beta cache_and_build_meta)
qed



end
