(* ===== verification/Go_Json.thy ===== *)
theory Go_Json
  imports Go_Numbers
begin

text \<open>
  JSON text as \<open>encoding/json\<close> reads it: the syntax check behind \<open>json.Valid\<close> and the values that
  \<open>json.Unmarshal\<close> works on. Numbers and strings keep their text; \<open>unquote\<close> is the string it stands for (escapes,
  surrogate pairs, invalid UTF-8 replaced). The parser descends with fuel; \<open>json_fuel_enough\<close> shows that twice the length of the
  text is always enough, so that fuel never decides a result. Nesting deeper than 10000 is
  an error, as in the library.
\<close>

datatype json =
    JNull | JBool bool | JNum string | JStr string | JArr "json list" | JObj "(string \<times> json) list"

definition max_nesting :: nat where
  "max_nesting = 10000"

definition json_space :: "char \<Rightarrow> bool" where
  "json_space c \<longleftrightarrow> byte_of c \<in> {32, 9, 13, 10}"

definition skip_ws :: "string \<Rightarrow> string" where
  "skip_ws s = dropWhile json_space s"

definition is_hex :: "char \<Rightarrow> bool" where
  "is_hex c \<longleftrightarrow> is_digit c \<or> (97 \<le> byte_of c \<and> byte_of c \<le> 102) \<or> (65 \<le> byte_of c \<and> byte_of c \<le> 70)"

definition hex_value :: "char \<Rightarrow> nat" where
  "hex_value c =
     (if is_digit c then byte_of c - 48 else if 97 \<le> byte_of c then byte_of c - 87 else byte_of c - 55)"

text \<open>
  Case folding as far as it matters against an ASCII text: besides the ASCII letters only the long s and the Kelvin
  sign fold to ASCII.
\<close>

definition fold_rune :: "rune \<Rightarrow> rune" where
  "fold_rune r = (if 97 \<le> r \<and> r \<le> 122 then r - 32 else if r = 383 then 83 else if r = 8490 then 75 else r)"

definition equal_fold :: "string \<Rightarrow> string \<Rightarrow> bool" where
  "equal_fold s t \<longleftrightarrow> map fold_rune (runes s) = map fold_rune (runes t)"

subsection \<open>Strings\<close>

fun scan_string :: "string \<Rightarrow> (string \<times> string) option" where
  "scan_string [] = None"
| "scan_string (c # cs) =
     (if byte_of c = 34 then Some ([], cs)
      else if byte_of c < 32 then None
      else if byte_of c = 92 then
        (case cs of
           [] \<Rightarrow> None
         | e # cs' \<Rightarrow>
             if e = CHR ''u'' then
               (case cs' of
                  h1 # h2 # h3 # h4 # r \<Rightarrow>
                    if is_hex h1 \<and> is_hex h2 \<and> is_hex h3 \<and> is_hex h4
                    then map_option (apfst (append [c, e, h1, h2, h3, h4])) (scan_string r) else None
                | _ \<Rightarrow> None)
             else if byte_of e \<in> {98, 102, 110, 114, 116, 92, 47, 34}
             then map_option (apfst (append [c, e])) (scan_string cs')
             else None)
      else map_option (apfst (Cons c)) (scan_string cs))"

definition get_u4 :: "string \<Rightarrow> nat option" where
  "get_u4 s =
     (case s of
        b # u # h1 # h2 # h3 # h4 # _ \<Rightarrow>
          if byte_of b = 92 \<and> u = CHR ''u'' \<and> is_hex h1 \<and> is_hex h2 \<and> is_hex h3 \<and> is_hex h4
          then Some (4096 * hex_value h1 + 256 * hex_value h2 + 16 * hex_value h3 + hex_value h4) else None
      | _ \<Rightarrow> None)"

definition is_surrogate :: "nat \<Rightarrow> bool" where
  "is_surrogate r \<longleftrightarrow> 55296 \<le> r \<and> r < 57344"

definition utf16_pair :: "nat \<Rightarrow> nat option \<Rightarrow> rune option" where
  "utf16_pair r1 r2 =
     (case r2 of
        Some r \<Rightarrow> if 55296 \<le> r1 \<and> r1 < 56320 \<and> 56320 \<le> r \<and> r < 57344
                  then Some ((r1 - 55296) * 1024 + (r - 56320) + 65536) else None
      | None \<Rightarrow> None)"

definition unescape :: "char \<Rightarrow> char" where
  "unescape e =
     (if e = CHR ''b'' then char_of (8 :: nat) else if e = CHR ''f'' then char_of (12 :: nat)
      else if e = CHR ''n'' then char_of (10 :: nat) else if e = CHR ''r'' then char_of (13 :: nat)
      else if e = CHR ''t'' then char_of (9 :: nat) else e)"

function unquote :: "string \<Rightarrow> string" where
  "unquote [] = []"
| "unquote (c # cs) =
     (if byte_of c = 92 then
        (case get_u4 (c # cs) of
           Some r \<Rightarrow>
             if is_surrogate r then
               (case utf16_pair r (get_u4 (drop 5 cs)) of
                  Some p \<Rightarrow> encode_rune p @ unquote (drop 11 cs)
                | None \<Rightarrow> encode_rune rune_error @ unquote (drop 5 cs))
             else encode_rune r @ unquote (drop 5 cs)
         | None \<Rightarrow> (case cs of [] \<Rightarrow> [] | e # cs' \<Rightarrow> unescape e # unquote cs'))
      else if byte_of c < 128 then c # unquote cs
      else let (r, w) = decode_rune (c # cs) in encode_rune r @ unquote (drop (w - 1) cs))"
  by pat_completeness auto
termination
  by (relation "measure length") auto

subsection \<open>Numbers\<close>

definition scan_sign :: "string \<Rightarrow> string \<times> string" where
  "scan_sign s = (case s of c # r \<Rightarrow> if c = CHR ''-'' then ([c], r) else ([], s) | [] \<Rightarrow> ([], []))"

definition scan_int :: "string \<Rightarrow> (string \<times> string) option" where
  "scan_int s =
     (case s of
        [] \<Rightarrow> None
      | c # r \<Rightarrow> if c = CHR ''0'' then Some ([c], r)
                else if is_digit c then Some (takeWhile is_digit s, dropWhile is_digit s) else None)"

definition scan_frac :: "string \<Rightarrow> (string \<times> string) option" where
  "scan_frac s =
     (case s of
        c # r \<Rightarrow>
          if c = CHR ''.'' then
            (if takeWhile is_digit r = [] then None else Some (c # takeWhile is_digit r, dropWhile is_digit r))
          else Some ([], s)
      | [] \<Rightarrow> Some ([], s))"

definition scan_exp :: "string \<Rightarrow> (string \<times> string) option" where
  "scan_exp s =
     (case s of
        c # r \<Rightarrow>
          if c = CHR ''e'' \<or> c = CHR ''E'' then
            let (sg, ds) = (case r of x # xs \<Rightarrow> if x = CHR ''-'' \<or> x = CHR ''+'' then ([x], xs) else ([], r) | [] \<Rightarrow> ([], []))
            in if takeWhile is_digit ds = [] then None
               else Some (c # sg @ takeWhile is_digit ds, dropWhile is_digit ds)
          else Some ([], s)
      | [] \<Rightarrow> Some ([], s))"

definition scan_number :: "string \<Rightarrow> (string \<times> string) option" where
  "scan_number s =
     (let (sg, s1) = scan_sign s in
      case scan_int s1 of
        None \<Rightarrow> None
      | Some (i, s2) \<Rightarrow>
          (case scan_frac s2 of
             None \<Rightarrow> None
           | Some (f, s3) \<Rightarrow>
               (case scan_exp s3 of None \<Rightarrow> None | Some (e, s4) \<Rightarrow> Some (sg @ i @ f @ e, s4))))"

subsection \<open>Values\<close>

definition after_prefix :: "string \<Rightarrow> json \<Rightarrow> string \<Rightarrow> (json \<times> string) option" where
  "after_prefix p j s = (if has_prefix s p then Some (j, drop (length p) s) else None)"

fun parse_value :: "nat \<Rightarrow> nat \<Rightarrow> string \<Rightarrow> (json \<times> string) option"
  and parse_elems :: "nat \<Rightarrow> nat \<Rightarrow> string \<Rightarrow> (json list \<times> string) option"
  and parse_members :: "nat \<Rightarrow> nat \<Rightarrow> string \<Rightarrow> ((string \<times> json) list \<times> string) option" where
  "parse_value 0 d s = None"
| "parse_value (Suc f) d s =
     (case skip_ws s of
        [] \<Rightarrow> None
      | c # cs \<Rightarrow>
          if c = CHR ''{'' then
            (case d of
               0 \<Rightarrow> None
             | Suc d' \<Rightarrow>
                 (case skip_ws cs of
                    [] \<Rightarrow> None
                  | x # r \<Rightarrow> if x = CHR ''}'' then Some (JObj [], r)
                            else map_option (apfst JObj) (parse_members f d' (x # r))))
          else if c = CHR ''['' then
            (case d of
               0 \<Rightarrow> None
             | Suc d' \<Rightarrow>
                 (case skip_ws cs of
                    [] \<Rightarrow> None
                  | x # r \<Rightarrow> if x = CHR '']'' then Some (JArr [], r)
                            else map_option (apfst JArr) (parse_elems f d' (x # r))))
          else if byte_of c = 34 then map_option (apfst JStr) (scan_string cs)
          else if c = CHR ''t'' then after_prefix ''true'' (JBool True) (c # cs)
          else if c = CHR ''f'' then after_prefix ''false'' (JBool False) (c # cs)
          else if c = CHR ''n'' then after_prefix ''null'' JNull (c # cs)
          else map_option (apfst JNum) (scan_number (c # cs)))"
| "parse_elems 0 d s = None"
| "parse_elems (Suc f) d s =
     (case parse_value f d s of
        None \<Rightarrow> None
      | Some (j, s1) \<Rightarrow>
          (case skip_ws s1 of
             [] \<Rightarrow> None
           | c # r \<Rightarrow> if c = CHR '','' then map_option (apfst (Cons j)) (parse_elems f d r)
                     else if c = CHR '']'' then Some ([j], r) else None))"
| "parse_members 0 d s = None"
| "parse_members (Suc f) d s =
     (case skip_ws s of
        [] \<Rightarrow> None
      | q # cs \<Rightarrow>
          if byte_of q \<noteq> 34 then None
          else (case scan_string cs of
                 None \<Rightarrow> None
               | Some (raw, s1) \<Rightarrow>
                   (case skip_ws s1 of
                      [] \<Rightarrow> None
                    | c # s2 \<Rightarrow>
                        if c \<noteq> CHR '':'' then None
                        else (case parse_value f d s2 of
                               None \<Rightarrow> None
                             | Some (j, s3) \<Rightarrow>
                                 (case skip_ws s3 of
                                    [] \<Rightarrow> None
                                  | x # r \<Rightarrow>
                                      if x = CHR '','' then map_option (apfst (Cons (raw, j))) (parse_members f d r)
                                      else if x = CHR ''}'' then Some ([(raw, j)], r) else None)))))"

definition json_fuel :: "string \<Rightarrow> nat" where
  "json_fuel s = 2 * length s + 2"

definition json_parse :: "string \<Rightarrow> json option" where
  "json_parse s =
     (case parse_value (json_fuel s) max_nesting s of
        Some (j, r) \<Rightarrow> if skip_ws r = [] then Some j else None
      | None \<Rightarrow> None)"

definition json_valid :: "string \<Rightarrow> bool" where
  "json_valid s \<longleftrightarrow> json_parse s \<noteq> None"

subsection \<open>Every parser consumes what it returns\<close>

lemma skip_ws_shorter: "length (skip_ws s) \<le> length s"
  by (simp add: skip_ws_def length_dropWhile_le)

lemma skip_ws_ConsD: "skip_ws s = c # cs \<Longrightarrow> length cs < length s"
  using skip_ws_shorter [of s] by simp

lemma scan_string_shorter: "scan_string s = Some (a, r) \<Longrightarrow> length r < length s"
  by (induction s arbitrary: a r rule: scan_string.induct)
     (fastforce split: if_splits list.splits option.splits)+

lemma scan_number_shorter:
  assumes "scan_number s = Some (a, r)" shows "length r < length s"
proof -
  have 1: "length (snd (scan_sign s)) \<le> length s" by (auto simp: scan_sign_def split: list.split)
  have 2: "scan_int x = Some (i, y) \<Longrightarrow> length y < length x" for x i y
    by (auto simp: scan_int_def less_Suc_eq_le length_dropWhile_le split: list.splits if_splits)
  have 3: "scan_frac x = Some (i, y) \<Longrightarrow> length y \<le> length x" for x i y
    by (auto simp: scan_frac_def le_Suc_eq length_dropWhile_le split: list.splits if_splits)
  have 4: "scan_exp x = Some (i, y) \<Longrightarrow> length y \<le> length x" for x i y
  proof -
    have le: "length (dropWhile is_digit zs) \<le> length zs" for zs by (rule length_dropWhile_le)
    show "scan_exp x = Some (i, y) \<Longrightarrow> length y \<le> length x"
      by (auto simp: scan_exp_def Let_def split: list.splits if_splits prod.splits intro: le_trans [OF le])
  qed
  from assms 1 show ?thesis
    by (fastforce simp: scan_number_def split: prod.splits option.splits dest!: 2 3 4)
qed

lemma after_prefix_shorter: "after_prefix p j s = Some (v, r) \<Longrightarrow> p \<noteq> [] \<Longrightarrow> s \<noteq> [] \<Longrightarrow> length r < length s"
  by (cases p; cases s) (auto simp: after_prefix_def split: if_splits)

lemma parse_shorter:
  "parse_value f d s = Some (j, r) \<Longrightarrow> length r < length s"
  "parse_elems f d s = Some (js, r) \<Longrightarrow> length r < length s"
  "parse_members f d s = Some (ms, r) \<Longrightarrow> length r < length s"
proof (induction f d s and f d s and f d s arbitrary: j r and js r and ms r rule: parse_value_parse_elems_parse_members.induct)
  case (2 f d s)
  obtain c cs where s: "skip_ws s = c # cs" using "2.prems" by (cases "skip_ws s") auto
  have l: "length cs < length s" by (rule skip_ws_ConsD [OF s])
  show ?case
  proof (cases "c = CHR ''{'' \<or> c = CHR ''[''")
    case True
    then obtain d' x r' where d: "d = Suc d'" and x: "skip_ws cs = x # r'"
      using "2.prems" s by (auto split: nat.splits list.splits)
    have "length r' < length cs" by (rule skip_ws_ConsD [OF x])
    then show ?thesis
      using True "2.prems" s x l d "2.IH"(1) [OF s _ d x] "2.IH"(2) [OF s _ _ d x] by (fastforce split: if_splits)
  next
    case False
    then show ?thesis
      using "2.prems" s l by (fastforce split: if_splits dest!: scan_string_shorter scan_number_shorter after_prefix_shorter)
  qed
next
  case (4 f d s)
  then obtain j' s1 c r' where v: "parse_value f d s = Some (j', s1)" and c: "skip_ws s1 = c # r'"
    by (auto split: option.splits list.splits)
  from "4.IH"(1) [OF v] skip_ws_ConsD [OF c] "4.IH"(2) [OF v _ c] "4.prems" v c
  show ?case by (fastforce split: if_splits)
next
  case (6 f d s)
  then obtain q cs raw s1 s2 j' s3 x r' where q: "skip_ws s = q # cs" "byte_of q = 34"
    and n: "scan_string cs = Some (raw, s1)" and c: "skip_ws s1 = CHR '':'' # s2"
    and v: "parse_value f d s2 = Some (j', s3)" and x: "skip_ws s3 = x # r'"
    by (auto split: option.splits list.splits if_splits)
  have "length s2 < length s"
    using skip_ws_ConsD [OF q(1)] scan_string_shorter [OF n] skip_ws_ConsD [OF c] by linarith
  moreover have "length s3 < length s2" using "6.IH"(1) [OF q(1) _ n refl c _ v] q(2) v by fastforce
  ultimately show ?case
    using "6.prems" q n c v x skip_ws_ConsD [OF x] "6.IH"(2) [OF q(1) _ n refl c _ v refl x] by (fastforce split: if_splits)
qed auto

subsection \<open>The fuel is enough\<close>

lemma parse_fuel:
  "2 * length s + 1 \<le> f \<Longrightarrow> parse_value (Suc f) d s = parse_value f d s"
  "2 * length s + 2 \<le> f \<Longrightarrow> parse_elems (Suc f) d s = parse_elems f d s"
  "2 * length s + 2 \<le> f \<Longrightarrow> parse_members (Suc f) d s = parse_members f d s"
proof (induction f arbitrary: d s)
  case (Suc f)
  {
    case 1
    have "parse_elems (Suc f) d' (x # r) = parse_elems f d' (x # r)" "parse_members (Suc f) d' (x # r) = parse_members f d' (x # r)"
      if "skip_ws s = c # cs" "skip_ws cs = x # r" for c cs x r d'
      using Suc.IH(2,3) [of "x # r" d'] skip_ws_ConsD [OF that(1)] skip_ws_ConsD [OF that(2)] 1 by simp_all
    then show ?case
      unfolding parse_value.simps(2) [of "Suc f"] parse_value.simps(2) [of f]
      by (simp split: list.split nat.split)
  next
    case 2
    have v: "parse_value (Suc f) d s = parse_value f d s" using Suc.IH(1) 2 by simp
    have "parse_elems (Suc f) d r = parse_elems f d r"
      if "parse_value f d s = Some (j, s1)" "skip_ws s1 = c # r" for j s1 c r
      using Suc.IH(2) [of r d] parse_shorter(1) [OF that(1)] skip_ws_ConsD [OF that(2)] 2 by simp
    then show ?case
      unfolding parse_elems.simps(2) [of "Suc f"] parse_elems.simps(2) [of f] v
      by (simp split: list.split option.split)
  next
    case 3
    have l: "length s2 < length s"
      if "skip_ws s = q # cs" "scan_string cs = Some (raw, s1)" "skip_ws s1 = c # s2" for q cs raw s1 c s2
      using skip_ws_ConsD [OF that(1)] scan_string_shorter [OF that(2)] skip_ws_ConsD [OF that(3)] by linarith
    have v: "parse_value (Suc f) d s2 = parse_value f d s2"
      if "skip_ws s = q # cs" "scan_string cs = Some (raw, s1)" "skip_ws s1 = c # s2" for q cs raw s1 c s2
      using Suc.IH(1) [of s2 d] l [OF that] 3 by simp
    have "parse_members (Suc f) d r = parse_members f d r"
      if "skip_ws s = q # cs" "scan_string cs = Some (raw, s1)" "skip_ws s1 = c # s2"
        "parse_value f d s2 = Some (j, s3)" "skip_ws s3 = x # r" for q cs raw s1 c s2 j s3 x r
      using Suc.IH(3) [of r d] l [OF that(1-3)] parse_shorter(1) [OF that(4)] skip_ws_ConsD [OF that(5)] 3 by simp
    with v show ?case
      unfolding parse_members.simps(2) [of "Suc f"] parse_members.simps(2) [of f]
      by (simp split: list.split option.split)
  }
qed simp_all

lemma json_fuel_enough: "json_fuel s \<le> f \<Longrightarrow> parse_value f d s = parse_value (json_fuel s) d s"
  by (induction f rule: dec_induct) (simp_all add: parse_fuel(1) json_fuel_def del: parse_value.simps)

end
