(* ===== verification/Api_Format.thy ===== *)
theory Api_Format
  imports Model_Types Go_Json
begin

text \<open>
  The texts that a response carries for a reader (\<open>api/format.go\<close>): the list of hits, the documents that were
  read with what was left out, the fence around structured content. A \<open>strings.Builder\<close> is the
  string built so far.
\<close>

definition nl :: string where
  "nl = [CHR 0x0A]"

definition title_files :: string where
  "title_files = ''## '' @ encode_runes [0x76F8, 0x5173, 0x6587, 0x4EF6]"

definition title_results :: string where
  "title_results = ''## '' @ encode_runes [0x68C0, 0x7D22, 0x7ED3, 0x679C]"

definition title_hits :: string where
  "title_hits = ''## '' @ encode_runes [0x68C0, 0x7D22, 0x547D, 0x4E2D]"

definition title_read :: string where
  "title_read = ''### '' @ encode_runes [0x7CBE, 0x8BFB]"

definition title_omitted :: string where
  "title_omitted = ''### '' @ encode_runes [0x5DF2, 0x7701, 0x7565, 0x5185, 0x5BB9]"

definition title_other :: string where
  "title_other = ''### '' @ encode_runes [0x5176, 0x4ED6, 0x76F8, 0x5173, 0x6587, 0x4EF6]"

definition format_scope :: "string list \<Rightarrow> string" where
  "format_scope collections = (if collections = [] then ''all'' else join '', '' collections)"

definition preferred_hit_uri :: "search_result \<Rightarrow> string" where
  "preferred_hit_uri r = (if trim_space (sr_file r) \<noteq> [] then sr_file r else sr_title r)"

fun find_score_by_uri :: "search_result list \<Rightarrow> string \<Rightarrow> f64" where
  "find_score_by_uri [] uri = Fin 0"
| "find_score_by_uri (h # hs) uri = (if preferred_hit_uri h = uri then sr_score h else find_score_by_uri hs uri)"

text \<open>\<open>%s (%.2f)\<close> and a newline: one file of a list of files.\<close>

definition file_line :: "string \<Rightarrow> f64 \<Rightarrow> string" where
  "file_line uri score = uri @ '' ('' @ format_fixed 2 score @ '')'' @ nl"

definition hit_line :: "search_result \<Rightarrow> string" where
  "hit_line r = file_line (preferred_hit_uri r) (sr_score r)"

definition snippet_lines :: "string \<Rightarrow> string" where
  "snippet_lines s = concat (map (\<lambda>l. ''   '' @ l @ nl) (split_on (CHR 0x0A) s))"

fun hit_blocks :: "nat \<Rightarrow> search_result list \<Rightarrow> string" where
  "hit_blocks i [] = []"
| "hit_blocks i (r # rs) =
     show_nat (i + 1) @ ''. ['' @ format_fixed 2 (sr_score r) @ ''] '' @ preferred_hit_uri r @ nl @
     (let snippet = trim_space (sr_snippet r)
      in if snippet = [] then nl else snippet_lines snippet @ nl) @ hit_blocks (i + 1) rs"

definition render_formatted_text :: "search_result list \<Rightarrow> search_meta \<Rightarrow> bool \<Rightarrow> string" where
  "render_formatted_text results meta files_only =
     (let scope = format_scope (sm_collections_searched meta)
      in if files_only then
           trim_space (title_files @ '' ('' @ show_nat (length results) @ '' hits)'' @ nl @ nl @
             concat (map hit_line results))
         else
           trim_space (title_results @ '' ('' @ scope @ '', '' @ show_nat (length results) @ '' hits)'' @ nl @ nl @
             hit_blocks 0 results))"

definition detect_structured_language :: "string \<Rightarrow> string" where
  "detect_structured_language content = (if json_valid content then ''json'' else [])"

definition fence_block :: "string \<Rightarrow> string \<Rightarrow> string" where
  "fence_block content language =
     (let fence = (if str_contains content ''```'' then ''````'' else ''```'')
      in if language = [] then fence @ nl @ content @ nl @ fence
         else fence @ language @ nl @ content @ nl @ fence)"

definition preserve_structured_block :: "string \<Rightarrow> string" where
  "preserve_structured_block content =
     (if content = [] then []
      else
        let language = detect_structured_language (trim_space content)
        in if language \<noteq> [] then fence_block content language else content)"

fun doc_blocks :: "search_result list \<Rightarrow> nat \<Rightarrow> nat \<Rightarrow> document list \<Rightarrow> string" where
  "doc_blocks hits n i [] = []"
| "doc_blocks hits n i (d # ds) =
     title_read @ '' '' @ show_nat (i + 1) @ ''/'' @ show_nat n @ '': '' @ doc_file d @
     '' (score: '' @ format_fixed 2 (find_score_by_uri hits (doc_file d)) @ '')'' @ nl @ nl @
     preserve_structured_block (doc_content d) @ nl @ nl @ doc_blocks hits n (i + 1) ds"

definition truncated_line :: "string \<Rightarrow> string" where
  "truncated_line uri = uri @ '' (TRUNCATED)'' @ nl"

definition other_line :: "string list \<Rightarrow> search_result \<Rightarrow> string" where
  "other_line doc_set hit = (if preferred_hit_uri hit \<in> set doc_set then [] else hit_line hit)"

definition render_search_and_get_text :: "search_result list \<Rightarrow> document list \<Rightarrow> string list \<Rightarrow> search_meta \<Rightarrow>
    string" where
  "render_search_and_get_text file_hits docs truncated meta =
     trim_space
       (title_hits @ '' ('' @ format_scope (sm_collections_searched meta) @ '', '' @ show_nat (length file_hits) @
        '' files)'' @ nl @ nl @
        doc_blocks file_hits (length docs) 0 docs @
        (if truncated \<noteq> [] then title_omitted @ nl @ nl @ concat (map truncated_line truncated) @ nl else []) @
        (if length docs < length file_hits then
           title_other @ nl @ nl @ concat (map (other_line (map doc_file docs)) file_hits)
         else []))"

subsection \<open>Lemmas\<close>

lemma find_score_by_uri_first:
  assumes "\<exists>h\<in>set hits. preferred_hit_uri h = uri"
  shows "\<exists>h\<in>set hits. preferred_hit_uri h = uri \<and> find_score_by_uri hits uri = sr_score h"
  using assms by (induction hits) auto

end
