(* ===== verification/Api_Convert.thy ===== *)
theory Api_Convert
  imports Api_Format "HOL-Library.Word" "HOL-Library.Char_ord" "HOL-Library.List_Lexorder"
begin

text \<open>
  The pure conversions of the server (\<open>api/convert.go\<close> and the mappings of \<open>api/grpc.go\<close> and
  \<open>api/admin_core.go\<close>): names of modes, sets of collections, the mode that was served, the route log,
  durations and integers at the width of the wire format, and errors as gRPC status codes. A Go set is a map to
  unit; \<open>sort.Strings\<close> is the sort of byte strings. The generated enums are datatypes; a value outside of an
  open enum is \<open>Mode_Other\<close>.
\<close>

subsection \<open>Modes\<close>

datatype proto_mode = Mode_Unspecified | Mode_Core | Mode_Broad | Mode_Deep | Mode_Auto | Mode_Other int

datatype served_mode = Served_Unspecified | Served_Core | Served_Broad | Served_Deep

definition requested_mode_from_proto :: "proto_mode \<Rightarrow> string" where
  "requested_mode_from_proto mode =
     (case mode of Mode_Core \<Rightarrow> ''core'' | Mode_Broad \<Rightarrow> ''broad'' | Mode_Deep \<Rightarrow> ''deep'' | Mode_Auto \<Rightarrow> ''auto''
      | _ \<Rightarrow> ''auto'')"

definition requested_mode_to_orchestrator_mode :: "string \<Rightarrow> string" where
  "requested_mode_to_orchestrator_mode mode =
     (if mode = ''core'' \<or> mode = ''broad'' then ''search'' else if mode = ''deep'' then ''query'' else ''auto'')"

definition normalize_requested_mode :: "string \<Rightarrow> string" where
  "normalize_requested_mode mode =
     (let m = to_lower (trim_space mode) in
      if m = ''core'' \<or> m = ''search'' then ''core''
      else if m = ''broad'' \<or> m = ''vsearch'' then ''broad''
      else if m = ''deep'' \<or> m = ''query'' then ''deep''
      else ''auto'')"

definition allow_fallback_from_proto :: "bool \<Rightarrow> string \<Rightarrow> bool \<Rightarrow> bool" where
  "allow_fallback_from_proto allow requested_mode fallback_default =
     (if allow then True
      else if requested_mode = ''deep'' \<or> requested_mode = ''broad'' then True
      else if requested_mode = ''core'' then False
      else fallback_default)"

definition derive_served_mode :: "string \<Rightarrow> string \<Rightarrow> bool \<Rightarrow> bool \<Rightarrow> string" where
  "derive_served_mode requested_mode mode_used fallback_triggered degraded =
     (if mode_used = ''query'' then ''deep''
      else if requested_mode = ''deep'' then ''broad''
      else if requested_mode = ''broad'' then ''broad''
      else if requested_mode = ''core'' then (if fallback_triggered then ''broad'' else ''core'')
      else if fallback_triggered \<or> degraded then ''broad'' else ''core'')"

definition served_mode_to_proto :: "string \<Rightarrow> served_mode" where
  "served_mode_to_proto mode =
     (let m = to_lower (trim_space mode) in
      if m = ''deep'' \<or> m = ''query'' then Served_Deep
      else if m = ''broad'' \<or> m = ''search'' \<or> m = ''vsearch'' then Served_Broad
      else if m = ''core'' then Served_Core
      else Served_Unspecified)"

subsection \<open>Sets of collections\<close>

type_synonym string_set = "(string, unit) gomap"

definition sorted_keys :: "string_set \<Rightarrow> string list" where
  "sorted_keys m = (if m = [] then [] else sort (mkeys m))"

definition add_collection :: "string \<Rightarrow> string_set \<Rightarrow> string_set" where
  "add_collection c m = (let c = trim_space c in if c = [] then m else mput c () m)"

definition normalize_collections :: "string list \<Rightarrow> string list" where
  "normalize_collections cols = (if cols = [] then [] else sorted_keys (fold add_collection cols []))"

subsection \<open>Numbers at the width of the wire format\<close>

definition max_int32 :: int where
  "max_int32 = 2147483647"

definition min_int32 :: int where
  "min_int32 = - 2147483648"

text \<open>The conversion \<open>int32(x)\<close> of an \<open>int\<close> keeps the low 32 bits.\<close>

definition go_int32 :: "int \<Rightarrow> int" where
  "go_int32 x = sint (word_of_int x :: 32 word)"

definition int_to_int32 :: "int \<Rightarrow> int" where
  "int_to_int32 x = (if max_int32 < x then max_int32 else if x < min_int32 then min_int32 else go_int32 x)"

definition duration_to_int32_ms :: "duration \<Rightarrow> int" where
  "duration_to_int32_ms d =
     (if d \<le> 0 then 0
      else let ms = d div millisecond in if max_int32 < ms then max_int32 else go_int32 ms)"

definition duration_to_int32_sec :: "duration \<Rightarrow> int" where
  "duration_to_int32_sec d =
     (if d \<le> 0 then 0
      else let s = d div second in if max_int32 < s then max_int32 else go_int32 s)"

subsection \<open>The route log\<close>

definition build_route_log :: "string \<Rightarrow> bool \<Rightarrow> string \<Rightarrow> search_meta \<Rightarrow> nat \<Rightarrow> nat \<Rightarrow> string list" where
  "build_route_log requested_mode allow_fallback orchestrator_mode meta collection_count hit_count =
     [''requested_mode='' @ requested_mode,
      ''orchestrator_mode='' @ orchestrator_mode,
      ''allow_fallback='' @ format_bool allow_fallback,
      ''collections='' @ show_nat collection_count,
      ''mode_used='' @ sm_mode_used meta,
      ''served_mode='' @ sm_served_mode meta,
      ''degraded='' @ format_bool (sm_degraded meta),
      ''degrade_reason='' @ sm_degrade_reason meta,
      ''hits='' @ show_nat hit_count,
      ''cache_hit='' @ format_bool (sm_cache_hit meta)]"

subsection \<open>Errors\<close>

datatype grpc_code =
    Code_ResourceExhausted | Code_DeadlineExceeded | Code_FailedPrecondition | Code_NotFound | Code_Unavailable
  | Code_InvalidArgument | Code_Internal

type_synonym grpc_status = "grpc_code \<times> string"

definition map_search_error :: "goerr \<Rightarrow> grpc_status" where
  "map_search_error e =
     (let msg = err_msg e; l = to_lower msg in
      if err_is e CriticalOverloadShed then (Code_ResourceExhausted, ''RESOURCE_EXHAUSTED: '' @ msg)
      else if err_is e DeadlineExceeded \<or> str_contains l ''deadline exceeded''
      then (Code_DeadlineExceeded, ''QMD_TIMEOUT: '' @ msg)
      else if str_contains l ''outofmemory'' \<or> str_contains l ''resource exhausted''
      then (Code_ResourceExhausted, ''RESOURCE_EXHAUSTED: '' @ msg)
      else if str_contains l ''requires confirm=true''
      then (Code_FailedPrecondition, ''FAILED_PRECONDITION: '' @ msg)
      else if str_contains l ''not found'' then (Code_NotFound, msg)
      else if str_contains l ''unavailable'' then (Code_Unavailable, msg)
      else if str_contains l ''invalid'' \<or> str_contains l ''required'' then (Code_InvalidArgument, msg)
      else (Code_Internal, msg))"

definition map_admin_rpc_error :: "goerr \<Rightarrow> grpc_status" where
  "map_admin_rpc_error e =
     (let msg = err_msg e; l = to_lower msg in
      if err_is e DeadlineExceeded \<or> str_contains l ''deadline exceeded'' then (Code_DeadlineExceeded, msg)
      else if err_is e GuardianUnavailable \<or> str_contains l ''guardian not available'' then (Code_Unavailable, msg)
      else if str_contains l ''requires confirm=true'' then (Code_FailedPrecondition, msg)
      else if str_contains l ''not found'' then (Code_NotFound, msg)
      else if str_contains l ''invalid'' \<or> str_contains l ''required'' then (Code_InvalidArgument, msg)
      else (Code_Internal, msg))"

subsection \<open>Lemmas\<close>

lemma mkeys_add_collection:
  "set (mkeys (add_collection c m)) = (if trim_space c = [] then set (mkeys m) else insert (trim_space c) (set (mkeys m)))"
  by (simp add: add_collection_def Let_def gm.keys_put)

lemma mwf_add_collection: "mwf m \<Longrightarrow> mwf (add_collection c m)"
  by (simp add: add_collection_def Let_def)

lemma fold_add_collection:
  assumes "mwf m"
  shows "mwf (fold add_collection cols m)"
    and "set (mkeys (fold add_collection cols m)) = set (mkeys m) \<union> {trim_space c | c. c \<in> set cols \<and> trim_space c \<noteq> []}"
proof -
  have "mwf (fold add_collection cols m) \<and> set (mkeys (fold add_collection cols m)) =
      set (mkeys m) \<union> {trim_space c | c. c \<in> set cols \<and> trim_space c \<noteq> []}" using assms
    by (induction cols arbitrary: m) (auto simp: mwf_add_collection mkeys_add_collection split: if_splits)
  then show "mwf (fold add_collection cols m)"
    and "set (mkeys (fold add_collection cols m)) = set (mkeys m) \<union> {trim_space c | c. c \<in> set cols \<and> trim_space c \<noteq> []}"
    by blast+
qed

lemma sorted_keys_props:
  "set (sorted_keys m) = set (mkeys m)" "mwf m \<Longrightarrow> distinct (sorted_keys m)" "sorted (sorted_keys m)"
  by (auto simp: sorted_keys_def mkeys_def mwf_def)

text \<open>The collections of a request are the trimmed, nonempty names it gave, each once, in order.\<close>

lemma normalize_collections_props:
  "set (normalize_collections cols) = {trim_space c | c. c \<in> set cols \<and> trim_space c \<noteq> []}"
  "distinct (normalize_collections cols)" "sorted (normalize_collections cols)"
  using fold_add_collection [of "[]" cols]
  by (auto simp: normalize_collections_def sorted_keys_props mkeys_def)

lemma go_int32_id: "min_int32 \<le> x \<Longrightarrow> x \<le> max_int32 \<Longrightarrow> go_int32 x = x"
  by (simp add: go_int32_def min_int32_def max_int32_def sint_sbintrunc' signed_take_bit_int_eq_self)

lemma go_int32_range: "min_int32 \<le> go_int32 x \<and> go_int32 x \<le> max_int32"
  using sint_greater_eq [of "word_of_int x :: 32 word"] sint_less [of "word_of_int x :: 32 word"]
  by (simp add: go_int32_def min_int32_def max_int32_def)

end
