(* ===== verification/Api_Core.thy ===== *)
theory Api_Core
  imports Api_Convert Orchestrator
begin

text \<open>
  The core of the query service (\<open>api/core.go\<close>): a search over several collections with overload shedding and
  the gate for deep requests, and the search that also reads the documents found. What a request meets is the
  record \<open>api_env\<close>: the overload flags it reads, the clock, the request id drawn for it, for each
  of its orchestrator searches the environment of that search, the outcome of reading a document, and what other requests do
  to the shared state between its steps. Logging is left out.
\<close>

record search_core_request =
  rq_query :: string
  rq_requested_mode :: string
  rq_collections :: "string list"
  rq_allow_fallback :: bool
  rq_timeout_ms :: int
  rq_top_k :: int
  rq_min_score :: f64
  rq_explain :: bool
  rq_files_only :: bool
  rq_files_all :: bool
  rq_trace_id :: string
  rq_confirm :: bool

record search_core_result =
  cr_response :: search_response
  cr_route_log :: "string list"

record search_and_get_core_request =
  gq_query :: string
  gq_requested_mode :: string
  gq_collections :: "string list"
  gq_allow_fallback :: bool
  gq_top_k :: int
  gq_min_score :: f64
  gq_max_get_docs :: int
  gq_max_get_bytes :: int
  gq_trace_id :: string
  gq_confirm :: bool

record api_env =
  av_request_id :: string
  av_now :: time
  av_overloaded :: bool
  av_critical :: bool
  av_check_time :: "nat \<Rightarrow> time"
  av_search :: "nat \<Rightarrow> env"
  av_get :: "ctx \<Rightarrow> string \<Rightarrow> string result"
  av_sort :: score_sorter
  av_latency_ms :: int
  av_others_check :: "nat \<Rightarrow> orch \<Rightarrow> orch"
  av_others_search :: "nat \<Rightarrow> orch \<Rightarrow> orch"

definition shed_err :: goerr where
  "shed_err = \<lparr>err_msg = ''cpu critical overload shed'', err_chain = [CriticalOverloadShed]\<rparr>"

subsection \<open>What is asked of the orchestrator\<close>

definition core_top_k :: "config \<Rightarrow> search_core_request \<Rightarrow> int" where
  "core_top_k cfg req =
     (if rq_top_k req \<le> 0 then (if rq_files_only req \<and> rq_files_all req then 0 else sc_top_k (cf_search cfg))
      else rq_top_k req)"

definition core_min_score :: "config \<Rightarrow> search_core_request \<Rightarrow> f64" where
  "core_min_score cfg req =
     (if f64_le (rq_min_score req) (Fin 0) then sc_min_score (cf_search cfg) else rq_min_score req)"

definition core_collections :: "search_core_request \<Rightarrow> string list" where
  "core_collections req =
     (let cols = normalize_collections (rq_collections req) in if cols = [] then [[]] else cols)"

definition core_ctx :: "api_env \<Rightarrow> search_core_request \<Rightarrow> ctx \<Rightarrow> ctx" where
  "core_ctx av req c = (if 0 < rq_timeout_ms req then with_timeout (av_now av) (rq_timeout_ms req * millisecond) c else c)"

record search_plan =
  pl_mode :: string
  pl_disable_deep :: bool
  pl_pre_degraded :: bool
  pl_pre_reason :: string

definition initial_plan :: "api_env \<Rightarrow> string \<Rightarrow> search_plan" where
  "initial_plan av requested =
     (if av_overloaded av then
        \<lparr>pl_mode = ''search'', pl_disable_deep = True, pl_pre_degraded = True,
         pl_pre_reason = ''CPU_OVERLOAD_PROTECT''\<rparr>
      else
        \<lparr>pl_mode = requested_mode_to_orchestrator_mode requested,
         pl_disable_deep = (requested = ''core'' \<or> requested = ''broad''), pl_pre_degraded = False, pl_pre_reason = []\<rparr>)"

definition deep_gate :: "config \<Rightarrow> search_core_request \<Rightarrow> string \<Rightarrow> string \<Rightarrow> search_plan \<Rightarrow> search_plan" where
  "deep_gate cfg req requested query pl =
     (if requested = ''deep'' \<and> rq_allow_fallback req \<and> \<not> allow_deep_query (cf_runtime cfg) query then
        \<lparr>pl_mode = ''search'', pl_disable_deep = True, pl_pre_degraded = True, pl_pre_reason = ''DEEP_GATE_REJECTED''\<rparr>
      else pl)"

definition core_params :: "config \<Rightarrow> search_core_request \<Rightarrow> string \<Rightarrow> search_plan \<Rightarrow> string \<Rightarrow> search_params" where
  "core_params cfg req query pl collection =
     \<lparr>sp_query = query, sp_mode = pl_mode pl, sp_collection = collection, sp_n = core_top_k cfg req,
      sp_min_score = core_min_score cfg req, sp_fallback = rq_allow_fallback req,
      sp_files_only = rq_files_only req, sp_files_all = rq_files_all req,
      sp_disable_deep_escalation = pl_disable_deep pl, sp_confirm = rq_confirm req\<rparr>"

text \<open>The question to the cache leaves the last two fields at their zero values.\<close>

definition check_params :: "config \<Rightarrow> search_core_request \<Rightarrow> string \<Rightarrow> search_plan \<Rightarrow> string \<Rightarrow> search_params" where
  "check_params cfg req query pl collection =
     (core_params cfg req query pl collection)\<lparr>sp_disable_deep_escalation := False, sp_confirm := False\<rparr>"

fun all_cached :: "api_env \<Rightarrow> config \<Rightarrow> (string \<Rightarrow> search_params) \<Rightarrow> nat \<Rightarrow> string list \<Rightarrow> orch \<Rightarrow> bool \<times> orch" where
  "all_cached av cfg p i [] st = (True, st)"
| "all_cached av cfg p i (c # cs) st =
     (let (ok, st) = has_cached_result (av_check_time av i) cfg (p c) (av_others_check av i st)
      in if ok then all_cached av cfg p (i + 1) cs st else (False, st))"

subsection \<open>The searches and what becomes of them\<close>

record search_acc =
  ac_combined :: "search_result list"
  ac_searched :: string_set
  ac_mode_used :: string
  ac_fallback :: bool
  ac_cache_hit :: bool
  ac_degraded :: bool
  ac_reason :: string
  ac_first_err :: "goerr option"
  ac_success :: nat

definition acc_new :: search_acc where
  "acc_new = \<lparr>ac_combined = [], ac_searched = [], ac_mode_used = [], ac_fallback = False, ac_cache_hit = False,
     ac_degraded = False, ac_reason = [], ac_first_err = None, ac_success = 0\<rparr>"

definition add_searched :: "string \<Rightarrow> string_set \<Rightarrow> string_set" where
  "add_searched c m = (if c = [] then m else mput c () m)"

definition absorb :: "string \<Rightarrow> search_outcome result \<Rightarrow> search_acc \<Rightarrow> search_acc" where
  "absorb collection r acc =
     (case r of
        Inl e \<Rightarrow> acc\<lparr>ac_first_err := (case ac_first_err acc of None \<Rightarrow> Some e | Some x \<Rightarrow> Some x)\<rparr>
      | Inr res \<Rightarrow>
          let meta = out_meta res in
          \<lparr>ac_combined = ac_combined acc @ out_results res,
           ac_searched = fold add_searched
             (if sm_collections_searched meta = [] then [collection] else sm_collections_searched meta) (ac_searched acc),
           ac_mode_used = (if sm_mode_used meta = ''query'' \<or> ac_mode_used acc = [] then sm_mode_used meta
                           else ac_mode_used acc),
           ac_fallback = (ac_fallback acc \<or> sm_fallback_triggered meta),
           ac_cache_hit = (ac_cache_hit acc \<or> sm_cache_hit meta),
           ac_degraded = (ac_degraded acc \<or> sm_degraded meta),
           ac_reason = (if ac_reason acc = [] \<and> sm_degrade_reason meta \<noteq> [] then sm_degrade_reason meta
                        else ac_reason acc),
           ac_first_err = ac_first_err acc,
           ac_success = ac_success acc + 1\<rparr>)"

fun search_collections :: "api_env \<Rightarrow> config \<Rightarrow> ctx \<Rightarrow> (string \<Rightarrow> search_params) \<Rightarrow> nat \<Rightarrow> string list \<Rightarrow>
    search_acc \<Rightarrow> orch \<Rightarrow> search_acc \<times> orch" where
  "search_collections av cfg c p i [] acc st = (acc, st)"
| "search_collections av cfg c p i (col # cols) acc st =
     (let (r, st) = search (av_search av i) cfg c (p col) (av_others_search av i st)
      in search_collections av cfg c p (i + 1) cols (absorb col r acc) st)"

subsection \<open>The response\<close>

definition gated :: "string \<Rightarrow> string \<Rightarrow> bool \<times> string \<Rightarrow> bool \<times> string" where
  "gated requested served d =
     (if requested = ''deep'' \<and> served \<noteq> ''deep''
      then (True, if snd d = [] then ''DEEP_GATE_REJECTED'' else snd d) else d)"

definition degraded_by :: "bool \<Rightarrow> string \<Rightarrow> bool \<times> string \<Rightarrow> bool \<times> string" where
  "degraded_by yes reason d = (if yes then (True, if snd d = [] then reason else snd d) else d)"

definition finish_search :: "api_env \<Rightarrow> config \<Rightarrow> search_core_request \<Rightarrow> string \<Rightarrow> string \<Rightarrow> search_plan \<Rightarrow>
    search_acc \<Rightarrow> search_core_result" where
  "finish_search av cfg req requested trace_id pl acc =
     (let mode_used = (if ac_mode_used acc = [] then ''search'' else ac_mode_used acc);
          combined = dedup_sort_limit_with (av_sort av) (ac_combined acc) (core_top_k cfg req);
          max_hits = sc_files_all_max_hits (cf_search cfg);
          capped = (rq_files_only req \<and> rq_files_all req \<and> 0 < max_hits \<and> max_hits < int (length combined));
          combined = (if capped then take (nat max_hits) combined else combined);
          served = derive_served_mode requested mode_used (ac_fallback acc) (ac_degraded acc);
          (degraded, reason) =
            degraded_by capped ''FILES_ALL_CAPPED''
              (degraded_by (pl_pre_degraded pl) (pl_pre_reason pl)
                (gated requested served (ac_degraded acc, ac_reason acc)));
          meta = \<lparr>sm_mode_used = mode_used, sm_served_mode = served,
                  sm_collections_searched = sorted_keys (ac_searched acc), sm_fallback_triggered = ac_fallback acc,
                  sm_cache_hit = ac_cache_hit acc, sm_degraded = degraded, sm_degrade_reason = reason,
                  sm_trace_id = trace_id, sm_latency_ms = av_latency_ms av\<rparr>
      in \<lparr>cr_response = \<lparr>rs_results = combined, rs_meta = meta,
             rs_formatted_text = render_formatted_text combined meta (rq_files_only req)\<rparr>,
          cr_route_log =
            (if rq_explain req
             then build_route_log requested (rq_allow_fallback req) (pl_mode pl) meta
                    (length (core_collections req)) (length combined)
             else [])\<rparr>)"

definition core_trace_id :: "api_env \<Rightarrow> string \<Rightarrow> string" where
  "core_trace_id av trace_id = (let t = trim_space trace_id in if t = [] then av_request_id av else t)"

definition execute_search_core :: "api_env \<Rightarrow> config \<Rightarrow> ctx \<Rightarrow> search_core_request \<Rightarrow> orch \<Rightarrow>
    search_core_result result \<times> orch" where
  "execute_search_core av cfg c req st =
     (let query = trim_space (rq_query req) in
      if query = [] then (Inl (plain_err ''query is required''), st)
      else
        let requested = normalize_requested_mode (rq_requested_mode req);
            trace_id = core_trace_id av (rq_trace_id req);
            cols = core_collections req;
            pl = initial_plan av requested;
            (cached, st) = (if av_critical av then all_cached av cfg (check_params cfg req query pl) 0 cols st
                            else (True, st))
        in if \<not> cached then (Inl shed_err, st)
           else
             let pl = deep_gate cfg req requested query pl;
                 (acc, st) = search_collections av cfg (core_ctx av req c) (core_params cfg req query pl) 0 cols acc_new st
             in if ac_success acc = 0 then
                  (Inl (case ac_first_err acc of Some e \<Rightarrow> e | None \<Rightarrow> plain_err ''search failed''), st)
                else (Inr (finish_search av cfg req requested trace_id pl acc), st))"

subsection \<open>Searching and reading\<close>

fun read_targets :: "search_result list \<Rightarrow> string list" where
  "read_targets [] = []"
| "read_targets (h # hs) =
     (let uri = trim_space (preferred_hit_uri h) in if uri = [] then read_targets hs else uri # read_targets hs)"

record reading =
  rd_docs :: "document list"
  rd_truncated :: "string list"
  rd_remaining :: int

definition read_step :: "string \<times> string result \<Rightarrow> reading \<Rightarrow> reading" where
  "read_step out rd =
     (case snd out of
        Inl e \<Rightarrow> rd
      | Inr content \<Rightarrow>
          let n = int (length content) in
          if 0 \<le> rd_remaining rd \<and> rd_remaining rd < n then rd\<lparr>rd_truncated := rd_truncated rd @ [fst out]\<rparr>
          else rd\<lparr>rd_docs := rd_docs rd @ [\<lparr>doc_file = fst out, doc_content = content\<rparr>],
                  rd_remaining := rd_remaining rd - n\<rparr>)"

definition read_documents :: "api_env \<Rightarrow> ctx \<Rightarrow> int \<Rightarrow> string list \<Rightarrow> reading" where
  "read_documents av c max_bytes targets =
     fold read_step (map (\<lambda>uri. (uri, av_get av c uri)) targets)
       \<lparr>rd_docs = [], rd_truncated = [], rd_remaining = max_bytes\<rparr>"

definition get_search_request :: "search_and_get_core_request \<Rightarrow> string \<Rightarrow> search_core_request" where
  "get_search_request req query =
     \<lparr>rq_query = query, rq_requested_mode = gq_requested_mode req, rq_collections = gq_collections req,
      rq_allow_fallback = gq_allow_fallback req, rq_timeout_ms = 0, rq_top_k = gq_top_k req,
      rq_min_score = gq_min_score req, rq_explain = False, rq_files_only = True, rq_files_all = False,
      rq_trace_id = gq_trace_id req, rq_confirm = gq_confirm req\<rparr>"

definition max_get_docs :: "search_and_get_core_request \<Rightarrow> int" where
  "max_get_docs req = (if gq_max_get_docs req \<le> 0 then 3 else gq_max_get_docs req)"

definition max_get_bytes :: "search_and_get_core_request \<Rightarrow> int" where
  "max_get_bytes req = (if gq_max_get_bytes req \<le> 0 then 12000 else gq_max_get_bytes req)"

definition get_response :: "api_env \<Rightarrow> ctx \<Rightarrow> search_and_get_core_request \<Rightarrow> search_response \<Rightarrow>
    search_and_get_response" where
  "get_response av c req resp =
     (let hits = rs_results resp in
      if hits = [] then
        \<lparr>sg_file_hits = [], sg_documents = [],
         sg_formatted_text = render_search_and_get_text [] [] [] (rs_meta resp), sg_meta = rs_meta resp\<rparr>
      else
        let limit = min (nat (max_get_docs req)) (length hits);
            rd = read_documents av c (max_get_bytes req) (read_targets (take limit hits));
            meta = (if rd_truncated rd \<noteq> [] then
                      (rs_meta resp)\<lparr>sm_degraded := True,
                        sm_degrade_reason := (if sm_degrade_reason (rs_meta resp) = [] then ''MAX_GET_BYTES_TRUNCATED''
                                              else sm_degrade_reason (rs_meta resp))\<rparr>
                    else rs_meta resp)
        in \<lparr>sg_file_hits = hits, sg_documents = rd_docs rd,
            sg_formatted_text = render_search_and_get_text hits (rd_docs rd) (rd_truncated rd) meta, sg_meta = meta\<rparr>)"

definition execute_search_and_get_core :: "api_env \<Rightarrow> config \<Rightarrow> ctx \<Rightarrow> search_and_get_core_request \<Rightarrow> orch \<Rightarrow>
    search_and_get_response result \<times> orch" where
  "execute_search_and_get_core av cfg c req st =
     (let query = trim_space (gq_query req) in
      if query = [] then (Inl (plain_err ''query is required''), st)
      else
        let (r, st) = execute_search_core av cfg c (get_search_request req query) st
        in (case r of
              Inl e \<Rightarrow> (Inl e, st)
            | Inr res \<Rightarrow> (Inr (get_response av c req (cr_response res)), st)))"

end
