(* ===== verification/Api_Properties.thy ===== *)
theory Api_Properties
  imports Api_Core Orch_Properties
begin

text \<open>
  Lemmas on the query core. \<open>outcomes\<close> lists what the searches of a request returned, in order; the
  accumulated answer is a function of that list, and the lemmas below say which.
\<close>

subsection \<open>The outcomes of a request\<close>

fun outcomes :: "api_env \<Rightarrow> config \<Rightarrow> ctx \<Rightarrow> (string \<Rightarrow> search_params) \<Rightarrow> nat \<Rightarrow> string list \<Rightarrow> orch \<Rightarrow>
    (string \<times> search_outcome result) list" where
  "outcomes av cfg c p i [] st = []"
| "outcomes av cfg c p i (col # cols) st =
     (let (r, st) = search (av_search av i) cfg c (p col) (av_others_search av i st)
      in (col, r) # outcomes av cfg c p (i + 1) cols st)"

definition absorb_all :: "(string \<times> search_outcome result) list \<Rightarrow> search_acc \<Rightarrow> search_acc" where
  "absorb_all os = fold (\<lambda>(col, r). absorb col r) os"

lemma absorb_all_simps [simp]:
  "absorb_all [] acc = acc" "absorb_all ((col, r) # os) acc = absorb_all os (absorb col r acc)"
  by (simp_all add: absorb_all_def)

lemma search_collections_outcomes:
  "fst (search_collections av cfg c p i cols acc st) = absorb_all (outcomes av cfg c p i cols st) acc"
  by (induction cols arbitrary: i acc st) (simp_all add: case_prod_beta Let_def)

lemma map_fst_outcomes: "map fst (outcomes av cfg c p i cols st) = cols"
  by (induction cols arbitrary: i st) (simp_all add: case_prod_beta Let_def)

definition answers :: "(string \<times> search_outcome result) list \<Rightarrow> search_outcome list" where
  "answers os = concat (map (\<lambda>(col, r). case r of Inl e \<Rightarrow> [] | Inr res \<Rightarrow> [res]) os)"

lemma answers_simps [simp]:
  "answers [] = []" "answers ((col, Inl e) # os) = answers os" "answers ((col, Inr res) # os) = res # answers os"
  by (simp_all add: answers_def)

lemma answers_mem: "res \<in> set (answers os) \<longleftrightarrow> (\<exists>col. (col, Inr res) \<in> set os)"
  by (force simp: answers_def split: sum.splits)

lemma answers_Nil: "answers os = [] \<longleftrightarrow> (\<forall>(col, r)\<in>set os. \<not> result_ok r)"
proof (induction os)
  case (Cons x os)
  then show ?case by (cases x; cases "snd x") auto
qed simp

fun first_error :: "(string \<times> search_outcome result) list \<Rightarrow> goerr option" where
  "first_error [] = None"
| "first_error ((col, Inl e) # os) = Some e"
| "first_error ((col, Inr res) # os) = first_error os"

lemma first_error_None: "answers os = [] \<Longrightarrow> os \<noteq> [] \<Longrightarrow> first_error os \<noteq> None"
  by (induction os rule: first_error.induct) simp_all

lemma first_error_mem: "first_error os = Some e \<Longrightarrow> \<exists>col. (col, Inl e) \<in> set os"
  by (induction os rule: first_error.induct) auto

lemma absorb_simps [simp]:
  "ac_success (absorb col (Inl e) acc) = ac_success acc"
  "ac_success (absorb col (Inr res) acc) = Suc (ac_success acc)"
  "ac_combined (absorb col (Inl e) acc) = ac_combined acc"
  "ac_combined (absorb col (Inr res) acc) = ac_combined acc @ out_results res"
  "ac_first_err (absorb col (Inr res) acc) = ac_first_err acc"
  "ac_degraded (absorb col (Inl e) acc) = ac_degraded acc"
  "ac_degraded (absorb col (Inr res) acc) = (ac_degraded acc \<or> sm_degraded (out_meta res))"
  "ac_cache_hit (absorb col (Inl e) acc) = ac_cache_hit acc"
  "ac_cache_hit (absorb col (Inr res) acc) = (ac_cache_hit acc \<or> sm_cache_hit (out_meta res))"
  "ac_reason (absorb col (Inl e) acc) = ac_reason acc"
  by (simp_all add: absorb_def Let_def)

lemma absorb_all_success: "ac_success (absorb_all os acc) = ac_success acc + length (answers os)"
proof (induction os arbitrary: acc)
  case (Cons x os)
  then show ?case by (cases x; cases "snd x") auto
qed simp

lemma absorb_all_combined:
  "ac_combined (absorb_all os acc) = ac_combined acc @ concat (map out_results (answers os))"
proof (induction os arbitrary: acc)
  case (Cons x os)
  then show ?case by (cases x; cases "snd x") auto
qed simp

lemma absorb_all_first_err:
  "ac_first_err (absorb_all os acc) = (case ac_first_err acc of None \<Rightarrow> first_error os | Some e \<Rightarrow> Some e)"
proof (induction os arbitrary: acc)
  case (Cons x os)
  obtain col r where x: "x = (col, r)" by (cases x)
  show ?case by (cases r) (simp_all add: x Cons absorb_def Let_def split: option.split)
qed (simp split: option.split)

lemma absorb_all_degraded:
  "ac_degraded (absorb_all os acc) \<longleftrightarrow> ac_degraded acc \<or> (\<exists>res\<in>set (answers os). sm_degraded (out_meta res))"
proof (induction os arbitrary: acc)
  case (Cons x os)
  then show ?case by (cases x; cases "snd x") auto
qed simp

lemma absorb_all_cache_hit:
  "ac_cache_hit (absorb_all os acc) \<longleftrightarrow> ac_cache_hit acc \<or> (\<exists>res\<in>set (answers os). sm_cache_hit (out_meta res))"
proof (induction os arbitrary: acc)
  case (Cons x os)
  then show ?case by (cases x; cases "snd x") auto
qed simp

definition honest_outcome :: "search_outcome \<Rightarrow> bool" where
  "honest_outcome res \<longleftrightarrow> (sm_degraded (out_meta res) \<longleftrightarrow> sm_degrade_reason (out_meta res) \<noteq> [])"

lemma absorb_all_honest:
  assumes "\<forall>res\<in>set (answers os). honest_outcome res" and "ac_degraded acc \<longleftrightarrow> ac_reason acc \<noteq> []"
  shows "ac_degraded (absorb_all os acc) \<longleftrightarrow> ac_reason (absorb_all os acc) \<noteq> []"
  using assms
proof (induction os arbitrary: acc)
  case (Cons x os)
  obtain col r where x: "x = (col, r)" by (cases x)
  have "ac_degraded (absorb col r acc) \<longleftrightarrow> ac_reason (absorb col r acc) \<noteq> []"
    using Cons.prems by (cases r) (auto simp: x absorb_def Let_def honest_outcome_def)
  then show ?case using Cons.IH [of "absorb col r acc"] Cons.prems(1) by (cases r) (simp_all add: x)
qed simp

subsection \<open>Interference between the steps of a request\<close>

definition api_others_ok :: "api_env \<Rightarrow> bool" where
  "api_others_ok av \<longleftrightarrow>
     (\<forall>i st. orch_step st (av_others_check av i st) \<and> orch_step st (av_others_search av i st)) \<and>
     (\<forall>i. others_ok (av_search av i))"

lemma has_cached_step: "orch_step st (snd (has_cached_result t cfg p st))"
  using cache_get_step by (simp add: has_cached_result_def case_prod_beta)

lemma all_cached_step:
  assumes "api_others_ok av"
  shows "orch_step st (snd (all_cached av cfg p i cols st))"
proof (induction cols arbitrary: i st)
  case (Cons c cols)
  let ?r = "has_cached_result (av_check_time av i) cfg (p c) (av_others_check av i st)"
  have "orch_step st (snd ?r)"
    using orch_step_trans [OF _ has_cached_step, of st "av_others_check av i st"] assms by (simp add: api_others_ok_def)
  then show ?case using Cons [of "snd ?r" "i + 1"] by (auto simp: Let_def case_prod_beta intro: orch_step_trans)
qed simp

lemma search_collections_step:
  assumes "api_others_ok av"
  shows "orch_step st (snd (search_collections av cfg c p i cols acc st))"
proof (induction cols arbitrary: i acc st)
  case (Cons col cols)
  let ?r = "search (av_search av i) cfg c (p col) (av_others_search av i st)"
  have "orch_step st (snd ?r)"
    using orch_step_trans [OF _ search_step, of st "av_others_search av i st"] assms by (simp add: api_others_ok_def)
  then show ?case using Cons [of "snd ?r" "i + 1" "absorb col (fst ?r) acc"]
    by (auto simp: Let_def case_prod_beta intro: orch_step_trans)
qed simp

lemma outcomes_honest:
  assumes "api_others_ok av" and "orch_inv st" and "(col, Inr res) \<in> set (outcomes av cfg c p i cols st)"
  shows "honest_outcome res"
  using assms(2,3)
proof (induction cols arbitrary: i st)
  case (Cons x cols)
  let ?st = "av_others_search av i st"
  let ?r = "search (av_search av i) cfg c (p x) ?st"
  have inv: "orch_inv ?st" using assms(1) Cons.prems(1) by (simp add: api_others_ok_def orch_step_def)
  moreover have "orch_inv (snd ?r)"
    using search_step [of "av_search av i" ?st] assms(1) inv by (simp add: api_others_ok_def orch_step_def)
  ultimately show ?case
    using Cons.prems(2) Cons.IH [of "snd ?r" "i + 1"] search_honest [OF inv, of "av_search av i" cfg c "p x" res]
    by (auto simp: Let_def case_prod_beta honest_outcome_def)
qed simp

subsection \<open>The response\<close>

definition core_plan :: "api_env \<Rightarrow> config \<Rightarrow> search_core_request \<Rightarrow> search_plan" where
  "core_plan av cfg req =
     deep_gate cfg req (normalize_requested_mode (rq_requested_mode req)) (trim_space (rq_query req))
       (initial_plan av (normalize_requested_mode (rq_requested_mode req)))"

definition shed_check :: "api_env \<Rightarrow> config \<Rightarrow> search_core_request \<Rightarrow> orch \<Rightarrow> bool \<times> orch" where
  "shed_check av cfg req st =
     (if av_critical av then
        all_cached av cfg (check_params cfg req (trim_space (rq_query req))
            (initial_plan av (normalize_requested_mode (rq_requested_mode req)))) 0 (core_collections req) st
      else (True, st))"

definition core_outcomes :: "api_env \<Rightarrow> config \<Rightarrow> ctx \<Rightarrow> search_core_request \<Rightarrow> orch \<Rightarrow>
    (string \<times> search_outcome result) list" where
  "core_outcomes av cfg c req st =
     outcomes av cfg (core_ctx av req c) (core_params cfg req (trim_space (rq_query req)) (core_plan av cfg req)) 0
       (core_collections req) (snd (shed_check av cfg req st))"

text \<open>The whole handler in terms of the outcomes.\<close>

lemma execute_search_core_outcomes:
  "fst (execute_search_core av cfg c req st) =
     (if trim_space (rq_query req) = [] then Inl (plain_err ''query is required'')
      else if \<not> fst (shed_check av cfg req st) then Inl shed_err
      else if answers (core_outcomes av cfg c req st) = [] then
        Inl (case first_error (core_outcomes av cfg c req st) of Some e \<Rightarrow> e | None \<Rightarrow> plain_err ''search failed'')
      else Inr (finish_search av cfg req (normalize_requested_mode (rq_requested_mode req))
                  (core_trace_id av (rq_trace_id req)) (core_plan av cfg req)
                  (absorb_all (core_outcomes av cfg c req st) acc_new)))"
  by (simp add: execute_search_core_def Let_def case_prod_beta search_collections_outcomes core_outcomes_def
      core_plan_def shed_check_def absorb_all_success absorb_all_first_err acc_new_def)

lemma execute_search_core_step:
  assumes "api_others_ok av"
  shows "orch_step st (snd (execute_search_core av cfg c req st))"
proof -
  let ?m = "normalize_requested_mode (rq_requested_mode req)" and ?q = "trim_space (rq_query req)"
  let ?cols = "core_collections req"
  have a: "orch_step st (snd (all_cached av cfg p 0 ?cols st))" for p by (rule all_cached_step [OF assms])
  have b: "orch_step st (snd (search_collections av cfg x p 0 ?cols acc_new st'))" if "orch_step st st'" for x p st'
    using orch_step_trans [OF that search_collections_step [OF assms]] .
  show ?thesis
    by (cases "av_critical av") (auto simp: execute_search_core_def Let_def case_prod_beta intro!: a b)
qed

lemma core_outcomes_honest:
  assumes "api_others_ok av" and "orch_inv st"
  shows "\<forall>res\<in>set (answers (core_outcomes av cfg c req st)). honest_outcome res"
proof -
  have "orch_step st (snd (shed_check av cfg req st))"
    using all_cached_step [OF assms(1)] by (simp add: shed_check_def)
  then have "orch_inv (snd (shed_check av cfg req st))" using assms(2) by (simp add: orch_step_def)
  then show ?thesis
    by (auto simp: core_outcomes_def answers_mem dest: outcomes_honest [OF assms(1)])
qed

lemma core_collections_not_Nil [simp]: "core_collections req \<noteq> []"
  by (simp add: core_collections_def Let_def)

lemma core_outcomes_not_Nil [simp]: "core_outcomes av cfg c req st \<noteq> []"
  unfolding core_outcomes_def by (metis core_collections_not_Nil list.map_disc_iff map_fst_outcomes)

definition served_of :: "string \<Rightarrow> search_acc \<Rightarrow> string" where
  "served_of requested acc =
     derive_served_mode requested (if ac_mode_used acc = [] then ''search'' else ac_mode_used acc)
       (ac_fallback acc) (ac_degraded acc)"

definition meta_of :: "search_core_result \<Rightarrow> search_meta" where
  "meta_of res = rs_meta (cr_response res)"

lemma finish_search_fields:
  "sm_served_mode (meta_of (finish_search av cfg req requested tid pl acc)) = served_of requested acc"
  "\<exists>capped. (sm_degraded (meta_of (finish_search av cfg req requested tid pl acc)),
       sm_degrade_reason (meta_of (finish_search av cfg req requested tid pl acc))) =
     degraded_by capped ''FILES_ALL_CAPPED'' (degraded_by (pl_pre_degraded pl) (pl_pre_reason pl)
       (gated requested (served_of requested acc) (ac_degraded acc, ac_reason acc)))"
  "sm_cache_hit (meta_of (finish_search av cfg req requested tid pl acc)) = ac_cache_hit acc"
  "sm_trace_id (meta_of (finish_search av cfg req requested tid pl acc)) = tid"
  by (auto simp: meta_of_def served_of_def finish_search_def Let_def case_prod_beta)

lemma finish_search_results:
  "\<exists>n. rs_results (cr_response (finish_search av cfg req requested tid pl acc)) =
     take n (dedup_sort_limit_with (av_sort av) (ac_combined acc) (core_top_k cfg req))"
proof -
  have "\<exists>n. xs = take n xs" for xs :: "search_result list" by (rule exI [of _ "length xs"]) simp
  then show ?thesis unfolding finish_search_def by (simp add: Let_def case_prod_beta) (metis (no_types))
qed

lemma finish_degradation:
  assumes "(a, b) = degraded_by capped ''FILES_ALL_CAPPED'' (degraded_by pre reason (gated requested served d))"
    and "fst d \<longleftrightarrow> snd d \<noteq> []" and "pre \<Longrightarrow> reason \<noteq> []"
  shows "(a \<longleftrightarrow> b \<noteq> []) \<and> (requested = ''deep'' \<and> served \<noteq> ''deep'' \<longrightarrow> a) \<and> (pre \<longrightarrow> a)"
  using assms by (cases d) (auto simp: degraded_by_def gated_def split: if_splits)

lemma core_plan_reason: "pl_pre_degraded (core_plan av cfg req) \<Longrightarrow> pl_pre_reason (core_plan av cfg req) \<noteq> []"
  by (auto simp: core_plan_def deep_gate_def initial_plan_def split: if_splits)

lemma outcomes_mem:
  assumes "(col, r) \<in> set (outcomes av cfg c p i cols st)"
  shows "col \<in> set cols \<and> (\<exists>j st'. r = fst (search (av_search av j) cfg c (p col) st'))"
  using assms
proof (induction cols arbitrary: i st)
  case (Cons x cols)
  then show ?case by (auto simp: Let_def case_prod_beta)
qed simp

lemma answers_came_from:
  assumes "\<And>i. fair_env (av_search av i)" and "res \<in> set (answers (core_outcomes av cfg c req st))"
    and "\<not> sm_cache_hit (out_meta res)" and "r \<in> set (out_results res)"
  obtains j col where "came_from (av_search av j) cfg
      (effective_params cfg (core_params cfg req (trim_space (rq_query req)) (core_plan av cfg req) col)) r"
proof -
  let ?p = "core_params cfg req (trim_space (rq_query req)) (core_plan av cfg req)"
  from assms(2) obtain col where "(col, Inr res) \<in> set (core_outcomes av cfg c req st)"
    unfolding answers_mem by blast
  then obtain j st' where s: "fst (search (av_search av j) cfg (core_ctx av req c) (?p col) st') = Inr res"
    unfolding core_outcomes_def using outcomes_mem by metis
  have "came_from (av_search av j) cfg (effective_params cfg (?p col)) r"
    using uncached_answer [of "av_search av j" cfg "core_ctx av req c" "effective_params cfg (?p col)"] s assms(1,4)
    unfolding search_miss [OF fresh_search_missed [OF s assms(3)]] answer_def by blast
  then show ?thesis by (rule that)
qed

lemma response_hits_subset:
  assumes "score_sort (av_sort av)" and "fst (execute_search_core av cfg c req st) = Inr res"
    and "r \<in> set (rs_results (cr_response res))"
  obtains ans where "ans \<in> set (answers (core_outcomes av cfg c req st))" and "r \<in> set (out_results ans)"
    and "sm_cache_hit (out_meta ans) \<longrightarrow> sm_cache_hit (meta_of res)"
proof -
  let ?os = "core_outcomes av cfg c req st"
  have res: "res = finish_search av cfg req (normalize_requested_mode (rq_requested_mode req))
      (core_trace_id av (rq_trace_id req)) (core_plan av cfg req) (absorb_all ?os acc_new)"
    using assms(2) unfolding execute_search_core_outcomes by (auto split: if_splits)
  obtain n where "rs_results (cr_response res) = take n (dedup_sort_limit_with (av_sort av)
      (ac_combined (absorb_all ?os acc_new)) (core_top_k cfg req))"
    using finish_search_results unfolding res by blast
  then have "r \<in> set (ac_combined (absorb_all ?os acc_new))"
    using assms(3) score_sort.dsl_subset [OF assms(1)] by (metis in_set_takeD subsetD)
  then obtain ans where ans: "ans \<in> set (answers ?os)" "r \<in> set (out_results ans)"
    by (auto simp: absorb_all_combined acc_new_def)
  moreover have "sm_cache_hit (out_meta ans) \<longrightarrow> sm_cache_hit (meta_of res)"
    using ans(1) by (auto simp: res finish_search_fields(3) absorb_all_cache_hit)
  ultimately show ?thesis by (rule that)
qed

subsection \<open>Reading documents\<close>

definition doc_bytes :: "document list \<Rightarrow> int" where
  "doc_bytes ds = sum_list (map (\<lambda>d. int (length (doc_content d))) ds)"

lemma doc_bytes_snoc [simp]: "doc_bytes (ds @ [d]) = doc_bytes ds + int (length (doc_content d))"
  by (simp add: doc_bytes_def)

definition reading_ok :: "int \<Rightarrow> (string \<times> string result) list \<Rightarrow> reading \<Rightarrow> bool" where
  "reading_ok budget seen rd \<longleftrightarrow>
     0 \<le> rd_remaining rd \<and> doc_bytes (rd_docs rd) + rd_remaining rd = budget \<and>
     length (rd_docs rd) + length (rd_truncated rd) \<le> length seen \<and>
     (\<forall>d\<in>set (rd_docs rd). (doc_file d, Inr (doc_content d)) \<in> set seen) \<and>
     (\<forall>uri content. (uri, Inr content) \<in> set seen \<longrightarrow>
        \<lparr>doc_file = uri, doc_content = content\<rparr> \<in> set (rd_docs rd) \<or>
        uri \<in> set (rd_truncated rd) \<and> rd_remaining rd < int (length content))"

lemma read_step_ok:
  assumes "reading_ok budget seen rd"
  shows "reading_ok budget (seen @ [out]) (read_step out rd)"
proof (cases out)
  case (Pair uri r)
  show ?thesis
  proof (cases r)
    case (Inl e)
    then show ?thesis using assms by (simp add: Pair read_step_def reading_ok_def)
  next
    case (Inr content)
    show ?thesis
    proof (cases "rd_remaining rd < int (length content)")
      case True
      then show ?thesis using assms by (auto simp: Pair Inr read_step_def reading_ok_def)
    next
      case False
      have "\<lparr>doc_file = u, doc_content = x\<rparr> \<in> set (rd_docs rd) \<or>
          u \<in> set (rd_truncated rd) \<and> rd_remaining rd - int (length content) < int (length x)"
        if "(u, Inr x) \<in> set seen" for u x
        using assms that unfolding reading_ok_def by fastforce
      then show ?thesis using assms False by (simp add: Pair Inr read_step_def reading_ok_def)
    qed
  qed
qed

lemma read_fold_ok: "reading_ok budget seen rd \<Longrightarrow> reading_ok budget (seen @ outs) (fold read_step outs rd)"
proof (induction outs arbitrary: seen rd)
  case (Cons out outs)
  from Cons.IH [OF read_step_ok [OF Cons.prems, of out]] show ?case by simp
qed simp

lemma read_documents_ok:
  assumes "0 \<le> budget"
  shows "reading_ok budget (map (\<lambda>uri. (uri, av_get av c uri)) targets) (read_documents av c budget targets)"
proof -
  have "reading_ok budget [] \<lparr>rd_docs = [], rd_truncated = [], rd_remaining = budget\<rparr>"
    using assms by (simp add: reading_ok_def doc_bytes_def)
  from read_fold_ok [OF this] show ?thesis by (simp add: read_documents_def)
qed

lemma length_read_targets: "length (read_targets hs) \<le> length hs"
proof (induction hs)
  case (Cons h hs)
  then show ?case by (cases "trim_space (preferred_hit_uri h) = []") (simp_all add: Let_def)
qed simp

lemma read_targets_mem:
  "uri \<in> set (read_targets hs) \<longleftrightarrow> uri \<noteq> [] \<and> (\<exists>h\<in>set hs. uri = trim_space (preferred_hit_uri h))"
proof (induction hs)
  case (Cons h hs)
  then show ?case by (cases "trim_space (preferred_hit_uri h) = []") (auto simp add: Let_def)
qed simp

subsection \<open>Answers from the cache alone\<close>

text \<open>The same request before other executors.\<close>

definition with_exec :: "(nat \<Rightarrow> executor) \<Rightarrow> api_env \<Rightarrow> api_env" where
  "with_exec ex av = av\<lparr>av_search := (\<lambda>i. (av_search av i)\<lparr>ev_exec := ex i\<rparr>)\<rparr>"

text \<open>Nobody interferes, and every lookup of the request reads the same time.\<close>

definition quiet_at :: "time \<Rightarrow> api_env \<Rightarrow> bool" where
  "quiet_at t av \<longleftrightarrow> (\<forall>i st. av_others_check av i st = st \<and> av_others_search av i st = st \<and> av_check_time av i = t \<and>
     ck_get (ev_clock (av_search av i)) = t)"

definition live_search :: "time \<Rightarrow> config \<Rightarrow> orch \<Rightarrow> search_params \<Rightarrow> bool" where
  "live_search t cfg st params \<longleftrightarrow> cache_live t (or_cache st) (params_key (effective_params cfg params)) \<noteq> None"

lemma live_after_get:
  assumes "orch_inv st"
  shows "orch_inv (st\<lparr>or_cache := snd (cache_get t k (or_cache st))\<rparr>)"
    and "live_search t cfg (st\<lparr>or_cache := snd (cache_get t k (or_cache st))\<rparr>) params = live_search t cfg st params"
  using assms cache_get_step [of st t k] rc.get_frame [of "or_cache st" t t k]
  by (simp_all add: orch_inv_def orch_step_def live_search_def)

lemma all_cached_live:
  assumes "quiet_at t av" and "\<And>c. params_key (has_cached_params cfg (p c)) = params_key (effective_params cfg (q c))"
    and "orch_inv st"
  shows "fst (all_cached av cfg p i cols st) = (\<forall>c\<in>set cols. live_search t cfg st (q c)) \<and>
    orch_inv (snd (all_cached av cfg p i cols st)) \<and>
    (\<forall>x. live_search t cfg (snd (all_cached av cfg p i cols st)) x = live_search t cfg st x)"
  using assms(3)
proof (induction cols arbitrary: i st)
  case (Cons c cols)
  let ?st = "st\<lparr>or_cache := snd (cache_get t (params_key (effective_params cfg (q c))) (or_cache st))\<rparr>"
  have h: "has_cached_result t cfg (p c) st = (live_search t cfg st (q c), ?st)"
    using Cons.prems by (simp add: has_cached_result_def case_prod_beta assms(2) live_search_def rc.get_live orch_inv_def)
  have "av_others_check av i st = st" "av_check_time av i = t" using assms(1) by (simp_all add: quiet_at_def)
  then show ?case
    using Cons.IH [OF live_after_get(1) [OF Cons.prems]] live_after_get [OF Cons.prems] by (simp add: h)
qed simp

lemma search_live:
  assumes "orch_inv st" and "live_search t cfg st params" and "ck_get (ev_clock env) = t"
  shows "\<exists>e. search env cfg c params st =
      (Inr (cached_outcome (ev_clock env) e),
       st\<lparr>or_cache := snd (cache_get t (params_key (effective_params cfg params)) (or_cache st))\<rparr>)"
    and "search (env\<lparr>ev_exec := ex\<rparr>) cfg c params st = search env cfg c params st"
proof -
  obtain e where e: "fst (cache_get t (params_key (effective_params cfg params)) (or_cache st)) = Some e"
    using assms(1,2) by (auto simp: live_search_def rc.get_live orch_inv_def)
  then show "\<exists>e. search env cfg c params st =
      (Inr (cached_outcome (ev_clock env) e),
       st\<lparr>or_cache := snd (cache_get t (params_key (effective_params cfg params)) (or_cache st))\<rparr>)"
    using assms(3) by (auto simp: search_def Let_def case_prod_beta)
  show "search (env\<lparr>ev_exec := ex\<rparr>) cfg c params st = search env cfg c params st"
    using e assms(3) by (simp add: search_def Let_def case_prod_beta)
qed

lemma search_collections_live:
  assumes "quiet_at t av" and "orch_inv st" and "\<forall>c\<in>set cols. live_search t cfg st (p c)"
  shows "search_collections (with_exec ex av) cfg c p i cols acc st = search_collections av cfg c p i cols acc st \<and>
    (\<forall>res\<in>set (answers (outcomes av cfg c p i cols st)). sm_cache_hit (out_meta res)) \<and>
    length (answers (outcomes av cfg c p i cols st)) = length cols"
  using assms(2,3)
proof (induction cols arbitrary: i acc st)
  case (Cons col cols)
  have t: "ck_get (ev_clock (av_search av i)) = t" and o: "av_others_search av i st = st"
    and o': "av_others_search (with_exec ex av) i st = st"
    using assms(1) by (simp_all add: quiet_at_def with_exec_def)
  have l: "live_search t cfg st (p col)" using Cons.prems by simp
  from search_live(1) [OF Cons.prems(1) l t, of c] obtain e where
    s: "search (av_search av i) cfg c (p col) st = (Inr (cached_outcome (ev_clock (av_search av i)) e),
      st\<lparr>or_cache := snd (cache_get t (params_key (effective_params cfg (p col))) (or_cache st))\<rparr>)" by blast
  note x = search_live(2) [OF Cons.prems(1) l t, of "ex i" c]
  have w: "av_search (with_exec ex av) i = (av_search av i)\<lparr>ev_exec := ex i\<rparr>" by (simp add: with_exec_def)
  show ?case
    using Cons.IH [OF live_after_get(1) [OF Cons.prems(1)], of t "params_key (effective_params cfg (p col))" "i + 1"]
      Cons.prems(2) live_after_get(2) [OF Cons.prems(1)]
    by (simp add: o o' w x s)
qed simp

end
