(* ===== verification/Api_Promises.thy ===== *)
theory Api_Promises
  imports Api_Properties Search_Promises
begin

text \<open>
  The properties of the query core: honesty of the response about degradation, where its hits come from, when
  a request fails, what critical overload lets through, and the budget of the documents that are read.
\<close>

subsection \<open>A request on the small installation\<close>

definition demo_api :: "executor \<Rightarrow> time \<Rightarrow> api_env" where
  "demo_api ex t = \<lparr>av_request_id = ''00ff00ff00ff'', av_now = t, av_overloaded = False, av_critical = False,
     av_check_time = (\<lambda>i. t), av_search = (\<lambda>i. demo_env ex t), av_get = (\<lambda>c uri. Inr ''text''),
     av_sort = sort_slice score_less, av_latency_ms = 3, av_others_check = (\<lambda>i st. st),
     av_others_search = (\<lambda>i st. st)\<rparr>"

definition demo_request :: "string list \<Rightarrow> search_core_request" where
  "demo_request cols = \<lparr>rq_query = ''cache keys'', rq_requested_mode = ''core'', rq_collections = cols,
     rq_allow_fallback = False, rq_timeout_ms = 0, rq_top_k = 5, rq_min_score = Fin (1/2), rq_explain = False,
     rq_files_only = False, rq_files_all = False, rq_trace_id = ''t1'', rq_confirm = False\<rparr>"

lemma demo_api_ok: "api_others_ok (demo_api ex t)" "fair_env (av_search (demo_api ex t) i)"
  "score_sort (av_sort (demo_api ex t))"
  by (simp_all add: api_others_ok_def demo_api_def others_demo fair_demo gosort.score_sort_axioms)

lemma demo_response:
  obtains res where "fst (execute_search_core (demo_api demo_exec 5) demo_cfg demo_ctx (demo_request []) (orch_new 0 demo_cfg)) = Inr res"
    and "map sr_docid (rs_results (cr_response res)) = [''#1'']" and "\<not> sm_cache_hit (meta_of res)"
proof -
  have "(case fst (execute_search_core (demo_api demo_exec 5) demo_cfg demo_ctx (demo_request []) (orch_new 0 demo_cfg)) of
     Inl e \<Rightarrow> False
   | Inr res \<Rightarrow> map sr_docid (rs_results (cr_response res)) = [''#1''] \<and> \<not> sm_cache_hit (meta_of res))"
    by code_simp
  then show ?thesis by (auto split: sum.splits intro: that)
qed

lemma demo_failure:
  obtains e where "fst (execute_search_core (demo_api demo_exec 5) demo_cfg demo_ctx (demo_request [''nope'']) (orch_new 0 demo_cfg)) = Inl e"
proof -
  have "\<not> result_ok (fst (execute_search_core (demo_api demo_exec 5) demo_cfg demo_ctx (demo_request [''nope'']) (orch_new 0 demo_cfg)))"
    by code_simp
  then show ?thesis by (cases "fst (execute_search_core (demo_api demo_exec 5) demo_cfg demo_ctx (demo_request [''nope''])
     (orch_new 0 demo_cfg))") (auto intro: that)
qed

definition demo_get_request :: search_and_get_core_request where
  "demo_get_request = \<lparr>gq_query = ''cache keys'', gq_requested_mode = ''core'', gq_collections = [],
     gq_allow_fallback = False, gq_top_k = 5, gq_min_score = Fin (1/2), gq_max_get_docs = 2, gq_max_get_bytes = 10,
     gq_trace_id = ''t1'', gq_confirm = False\<rparr>"

lemma demo_reading:
  obtains res where "fst (execute_search_and_get_core (demo_api demo_exec 5) demo_cfg demo_ctx demo_get_request (orch_new 0 demo_cfg)) = Inr res"
    and "map doc_content (sg_documents res) = [''text'']"
proof -
  have "(case fst (execute_search_and_get_core (demo_api demo_exec 5) demo_cfg demo_ctx demo_get_request (orch_new 0 demo_cfg)) of
     Inl e \<Rightarrow> False | Inr res \<Rightarrow> map doc_content (sg_documents res) = [''text''])"
    by code_simp
  then show ?thesis by (auto split: sum.splits intro: that)
qed

subsection \<open>Properties\<close>

text \<open>A response is honest about degradation: it is marked degraded exactly when it gives a reason; it is
  always marked when a deep request was not served deep and when overload protection was active. That
  includes answers from the cache.\<close>

theorem response_degradation_is_honest:
  assumes "orch_inv st" and "api_others_ok av" and "fst (execute_search_core av cfg c req st) = Inr res"
  shows "(sm_degraded (meta_of res) \<longleftrightarrow> sm_degrade_reason (meta_of res) \<noteq> []) \<and>
    (normalize_requested_mode (rq_requested_mode req) = ''deep'' \<and> sm_served_mode (meta_of res) \<noteq> ''deep'' \<longrightarrow>
       sm_degraded (meta_of res)) \<and>
    (av_overloaded av \<longrightarrow> sm_degraded (meta_of res))"
proof -
  let ?acc = "absorb_all (core_outcomes av cfg c req st) acc_new"
  let ?m = "normalize_requested_mode (rq_requested_mode req)"
  have res: "res = finish_search av cfg req ?m (core_trace_id av (rq_trace_id req)) (core_plan av cfg req) ?acc"
    using assms(3) unfolding execute_search_core_outcomes by (auto split: if_splits)
  obtain capped where d: "(sm_degraded (meta_of res), sm_degrade_reason (meta_of res)) =
      degraded_by capped ''FILES_ALL_CAPPED''
        (degraded_by (pl_pre_degraded (core_plan av cfg req)) (pl_pre_reason (core_plan av cfg req))
          (gated ?m (served_of ?m ?acc) (ac_degraded ?acc, ac_reason ?acc)))"
    using finish_search_fields(2) unfolding res by blast
  have "ac_degraded ?acc \<longleftrightarrow> ac_reason ?acc \<noteq> []"
    by (rule absorb_all_honest [OF core_outcomes_honest [OF assms(2,1)]]) (simp add: acc_new_def)
  moreover have "av_overloaded av \<Longrightarrow> pl_pre_degraded (core_plan av cfg req)"
    by (simp add: core_plan_def deep_gate_def initial_plan_def)
  moreover have "sm_served_mode (meta_of res) = served_of ?m ?acc" by (simp add: res finish_search_fields(1))
  ultimately show ?thesis using finish_degradation [OF d _ core_plan_reason] by auto
qed

lemma response_degradation_is_honest_witness:
  "\<exists>res :: search_core_result. map sr_docid (rs_results (cr_response res)) = [''#1''] \<and>
     (sm_degraded (meta_of res) \<longleftrightarrow> sm_degrade_reason (meta_of res) \<noteq> [])"
proof -
  obtain res where r: "fst (execute_search_core (demo_api demo_exec 5) demo_cfg demo_ctx (demo_request []) (orch_new 0 demo_cfg)) = Inr res"
    "map sr_docid (rs_results (cr_response res)) = [''#1'']" "\<not> sm_cache_hit (meta_of res)" by (rule demo_response)
  from r(2) response_degradation_is_honest [OF orch_inv_new demo_api_ok(1) r(1), THEN conjunct1]
  show ?thesis by (intro exI [of _ res] conjI)
qed

text \<open>C4: A request fails as a whole only: when its query is blank, when it is shed, or when the search of every one of
  its collections failed, and then with the error of the first of them. As soon as one
  collection answers, the errors of the others are dropped.\<close>

theorem search_fails_only_as_a_whole:
  "(\<forall>e. fst (execute_search_core av cfg c req st) = Inl e \<longrightarrow>
      trim_space (rq_query req) = [] \<and> e = plain_err ''query is required'' \<or>
      av_critical av \<and> e = shed_err \<or>
      (\<forall>(col, r)\<in>set (core_outcomes av cfg c req st). \<not> result_ok r) \<and>
        first_error (core_outcomes av cfg c req st) = Some e) \<and>
   (trim_space (rq_query req) \<noteq> [] \<and> \<not> av_critical av \<and>
      (\<exists>(col, r)\<in>set (core_outcomes av cfg c req st). result_ok r) \<longrightarrow>
      (\<exists>res. fst (execute_search_core av cfg c req st) = Inr res))"
proof -
  let ?os = "core_outcomes av cfg c req st"
  note a = answers_Nil [of ?os]
  have b: "\<exists>(col, r)\<in>set ?os. result_ok r \<Longrightarrow> answers ?os \<noteq> []" using a by blast
  have f: "answers ?os = [] \<Longrightarrow> first_error ?os \<noteq> None" by (intro first_error_None) simp_all
  have s: "\<not> av_critical av \<Longrightarrow> fst (shed_check av cfg req st)" by (simp add: shed_check_def)
  let ?r = "fst (execute_search_core av cfg c req st)" and ?blank = "trim_space (rq_query req) = []"
  have "?r = Inl e \<Longrightarrow> ?blank \<and> e = plain_err ''query is required'' \<or> av_critical av \<and> e = shed_err \<or>
      answers ?os = [] \<and> first_error ?os = Some e" for e
    using f s unfolding execute_search_core_outcomes by (cases ?blank) (auto split: if_splits)
  moreover have "\<not> ?blank \<and> \<not> av_critical av \<and> answers ?os \<noteq> [] \<longrightarrow> (\<exists>res. ?r = Inr res)"
    using s unfolding execute_search_core_outcomes by simp
  ultimately show ?thesis using a b by blast
qed

lemma search_fails_only_as_a_whole_witness:
  "filter (\<lambda>(col, r). result_ok r)
     (core_outcomes (demo_api demo_exec 5) demo_cfg demo_ctx (demo_request [''nope'']) (orch_new 0 demo_cfg)) = []"
proof -
  obtain e where e: "fst (execute_search_core (demo_api demo_exec 5) demo_cfg demo_ctx (demo_request [''nope'']) (orch_new 0 demo_cfg)) = Inl e"
    by (rule demo_failure)
  have "trim_space (rq_query (demo_request [''nope''])) \<noteq> []" by code_simp
  moreover have "\<not> av_critical (demo_api demo_exec 5)" by (simp add: demo_api_def)
  ultimately have "\<forall>(col, r)\<in>set (core_outcomes (demo_api demo_exec 5) demo_cfg demo_ctx (demo_request [''nope''])
      (orch_new 0 demo_cfg)). \<not> result_ok r"
    using conjunct1 [OF search_fails_only_as_a_whole [of "demo_api demo_exec 5" demo_cfg demo_ctx "demo_request [''nope'']"
       "orch_new 0 demo_cfg"]] e by blast
  then show ?thesis unfolding filter_empty_conv by blast
qed



text \<open>C11: The hits of a response are hits of its searches, each key once, by falling score, at most as many as were
  asked for and at most two of a file.\<close>

theorem response_hits_are_ranked:
  assumes "score_sort (av_sort av)" and "fst (execute_search_core av cfg c req st) = Inr res"
  shows "set (rs_results (cr_response res)) \<subseteq> (\<Union>ans\<in>set (answers (core_outcomes av cfg c req st)). set (out_results ans)) \<and>
    distinct (map dedup_key (rs_results (cr_response res))) \<and>
    ((\<forall>ans\<in>set (answers (core_outcomes av cfg c req st)). \<forall>r\<in>set (out_results ans). sr_score r \<noteq> NaN) \<longrightarrow>
       sorted_wrt (\<lambda>a b. f64_le (sr_score b) (sr_score a)) (rs_results (cr_response res))) \<and>
    (0 < core_top_k cfg req \<longrightarrow> int (length (rs_results (cr_response res))) \<le> core_top_k cfg req)"
proof -
  let ?os = "core_outcomes av cfg c req st"
  let ?all = "ac_combined (absorb_all ?os acc_new)"
  let ?d = "dedup_sort_limit_with (av_sort av) ?all (core_top_k cfg req)"
  have all: "set ?all = (\<Union>ans\<in>set (answers ?os). set (out_results ans))"
    by (simp add: absorb_all_combined acc_new_def)
  obtain n where n: "rs_results (cr_response res) = take n ?d"
  proof -
    have "res = finish_search av cfg req (normalize_requested_mode (rq_requested_mode req))
        (core_trace_id av (rq_trace_id req)) (core_plan av cfg req) (absorb_all ?os acc_new)"
      using assms(2) unfolding execute_search_core_outcomes by (auto split: if_splits)
    then show thesis using finish_search_results that by metis
  qed
  have "set (take n ?d) \<subseteq> set ?all"
    using score_sort.dsl_subset [OF assms(1), of ?all "core_top_k cfg req"] set_take_subset by fastforce
  moreover have "distinct (map dedup_key (take n ?d))"
    using score_sort.dsl_distinct [OF assms(1)] by (simp add: distinct_take flip: take_map)
  moreover have "(\<forall>ans\<in>set (answers ?os). \<forall>r\<in>set (out_results ans). sr_score r \<noteq> NaN) \<longrightarrow>
      sorted_wrt (\<lambda>a b. f64_le (sr_score b) (sr_score a)) (take n ?d)"
    using score_sort.dsl_sorted [OF assms(1), of ?all] all by (auto intro: sorted_wrt_take)
  moreover have "0 < core_top_k cfg req \<longrightarrow> int (length (take n ?d)) \<le> core_top_k cfg req"
    using score_sort.dsl_length [OF assms(1), of "core_top_k cfg req" ?all] by auto
  ultimately show ?thesis unfolding n all by blast
qed

lemma response_hits_are_ranked_witness:
  "\<exists>res :: search_core_result. map sr_docid (rs_results (cr_response res)) = [''#1''] \<and>
     int (length (rs_results (cr_response res))) \<le> 5"
proof -
  obtain res where r: "fst (execute_search_core (demo_api demo_exec 5) demo_cfg demo_ctx (demo_request []) (orch_new 0 demo_cfg)) = Inr res"
    "map sr_docid (rs_results (cr_response res)) = [''#1'']" "\<not> sm_cache_hit (meta_of res)" by (rule demo_response)
  have "core_top_k demo_cfg (demo_request []) = 5" by (simp add: core_top_k_def demo_request_def)
  with response_hits_are_ranked [OF demo_api_ok(3) r(1)] have "int (length (rs_results (cr_response res))) \<le> 5" by simp
  with r(2) show ?thesis by (intro exI [of _ res] conjI)
qed



text \<open>C12: A search that also reads stays within its budgets: the documents are the contents of hits it reports, at most as many as
  were asked for, and together no longer than the limit in bytes. Every hit that was to be read and could
  be read is among the documents, or the response is marked degraded.\<close>

theorem reading_respects_budget:
  assumes "fst (execute_search_and_get_core av cfg c req st) = Inr res"
  shows "doc_bytes (sg_documents res) \<le> max_get_bytes req \<and>
    int (length (sg_documents res)) \<le> max_get_docs req \<and>
    (\<forall>d\<in>set (sg_documents res). av_get av c (doc_file d) = Inr (doc_content d) \<and>
       (\<exists>h\<in>set (sg_file_hits res). doc_file d = trim_space (preferred_hit_uri h))) \<and>
    (\<forall>h\<in>set (take (nat (max_get_docs req)) (sg_file_hits res)). \<forall>content.
       trim_space (preferred_hit_uri h) \<noteq> [] \<and> av_get av c (trim_space (preferred_hit_uri h)) = Inr content \<longrightarrow>
       \<lparr>doc_file = trim_space (preferred_hit_uri h), doc_content = content\<rparr> \<in> set (sg_documents res) \<or>
       sm_degraded (sg_meta res))"
proof -
  have "\<exists>r :: search_core_result. res = get_response av c req (cr_response r)"
    using assms
    by (auto simp: execute_search_and_get_core_def Let_def case_prod_beta split: if_splits sum.splits)
  then obtain r :: search_core_result where res: "res = get_response av c req (cr_response r)" ..
  let ?hits = "rs_results (cr_response r)" and ?b = "max_get_bytes req"
  let ?ts = "read_targets (take (nat (max_get_docs req)) ?hits)"
  let ?rd = "read_documents av c ?b ?ts"
  have pos: "0 < ?b" "0 < max_get_docs req" by (simp_all add: max_get_bytes_def max_get_docs_def)
  have take_min: "take (min (nat (max_get_docs req)) (length ?hits)) ?hits = take (nat (max_get_docs req)) ?hits"
    by (simp add: min_def)
  show ?thesis
  proof (cases "?hits = []")
    case True
    then show ?thesis using pos by (simp add: res get_response_def Let_def doc_bytes_def)
  next
    case False
    have f: "sg_documents res = rd_docs ?rd" "sg_file_hits res = ?hits" "rd_truncated ?rd \<noteq> [] \<Longrightarrow> sm_degraded (sg_meta res)"
      using False by (simp_all add: res get_response_def Let_def take_min)
    have ok: "reading_ok ?b (map (\<lambda>uri. (uri, av_get av c uri)) ?ts) ?rd" using pos by (intro read_documents_ok) simp
    then have "doc_bytes (rd_docs ?rd) \<le> ?b" unfolding reading_ok_def by linarith
    moreover have "length (rd_docs ?rd) \<le> length ?ts" using ok unfolding reading_ok_def by simp
    then have "int (length (rd_docs ?rd)) \<le> max_get_docs req"
      using length_read_targets [of "take (nat (max_get_docs req)) ?hits"] pos(2) by (simp add: min_def split: if_splits)
    moreover have "av_get av c (doc_file d) = Inr (doc_content d) \<and> (\<exists>h\<in>set ?hits. doc_file d = trim_space (preferred_hit_uri h))"
      if "d \<in> set (rd_docs ?rd)" for d
    proof -
      have "(doc_file d, Inr (doc_content d)) \<in> set (map (\<lambda>uri. (uri, av_get av c uri)) ?ts)"
        using ok that unfolding reading_ok_def by blast
      then have "av_get av c (doc_file d) = Inr (doc_content d)" "doc_file d \<in> set ?ts" by auto
      then obtain h where "h \<in> set (take (nat (max_get_docs req)) ?hits)" "doc_file d = trim_space (preferred_hit_uri h)"
        unfolding read_targets_mem by blast
      with \<open>av_get av c (doc_file d) = Inr (doc_content d)\<close> show ?thesis by (blast dest: in_set_takeD)
    qed
    moreover have "\<lparr>doc_file = trim_space (preferred_hit_uri h), doc_content = content\<rparr> \<in> set (rd_docs ?rd) \<or> sm_degraded (sg_meta res)"
      if "h \<in> set (take (nat (max_get_docs req)) ?hits)" "trim_space (preferred_hit_uri h) \<noteq> []"
        "av_get av c (trim_space (preferred_hit_uri h)) = Inr content" for h content
    proof -
      have "trim_space (preferred_hit_uri h) \<in> set ?ts" using that(1,2) read_targets_mem by blast
      then have "(trim_space (preferred_hit_uri h), Inr content) \<in> set (map (\<lambda>uri. (uri, av_get av c uri)) ?ts)"
        using that(3) by force
      then show ?thesis using ok f(3) unfolding reading_ok_def by force
    qed
    ultimately show ?thesis unfolding f(1,2) by blast
  qed
qed

lemma reading_respects_budget_witness:
  "\<exists>res :: search_and_get_response. map doc_content (sg_documents res) = [''text''] \<and> doc_bytes (sg_documents res) \<le> 10"
proof -
  obtain res where r: "fst (execute_search_and_get_core (demo_api demo_exec 5) demo_cfg demo_ctx demo_get_request (orch_new 0 demo_cfg)) = Inr res"
    "map doc_content (sg_documents res) = [''text'']" by (rule demo_reading)
  have "max_get_bytes demo_get_request = 10" by (simp add: max_get_bytes_def demo_get_request_def)
  with reading_respects_budget [OF r(1), THEN conjunct1] have "doc_bytes (sg_documents res) \<le> 10" by simp
  with r(2) show ?thesis by (intro exI [of _ res] conjI)
qed

end
