(* ===== verification/Guardian.thy ===== *)
theory Guardian
  imports Config
begin

text \<open>
  The guardian of the MCP daemon (\<open>guardian/guardian.go\<close>). The record \<open>guardian\<close> is the state under its mutex; each
  operation is one atomic section. The executor's answers are arguments: \<open>None\<close> for a call that succeeded, the
  error otherwise. Restarts run in goroutines beside the ticker: \<open>guardian_step\<close> is the
  step relation of the whole, with a label for what happened, and counts the restarts that wait to begin and those
  under way. Several may be under way at once, as in the program.
\<close>

record guardian =
  gu_health :: health_level
  gu_last_check :: time
  gu_last_healthy :: time
  gu_fail_count :: int
  gu_restart_count :: int
  gu_cli_mode :: bool

definition guardian_new :: guardian where
  "guardian_new = \<lparr>gu_health = Healthy, gu_last_check = 0, gu_last_healthy = 0, gu_fail_count = 0,
     gu_restart_count = 0, gu_cli_mode = False\<rparr>"

text \<open>The end of \<open>startMCP\<close>: the answers to start and to the health check two seconds later.\<close>

definition start_mcp :: "goerr option \<Rightarrow> goerr option \<Rightarrow> time \<Rightarrow> guardian \<Rightarrow> goerr option \<times> guardian" where
  "start_mcp start_err health_err now g =
     (case start_err of
        Some e \<Rightarrow> (Some (wrap_err ''start MCP: '' e), g)
      | None \<Rightarrow>
          (case health_err of
             Some e \<Rightarrow> (Some (wrap_err ''MCP started but not healthy: '' e), g)
           | None \<Rightarrow> (None, g\<lparr>gu_health := Healthy, gu_last_healthy := now, gu_cli_mode := False\<rparr>)))"

definition switch_to_cli :: "guardian \<Rightarrow> guardian" where
  "switch_to_cli g = g\<lparr>gu_cli_mode := True, gu_health := Degraded\<rparr>"

text \<open>\<open>Start\<close>: whether the loop runs afterwards, and the state it starts from.\<close>

definition guardian_start :: "bool \<Rightarrow> goerr option \<Rightarrow> goerr option \<Rightarrow> goerr option \<Rightarrow> time \<Rightarrow> guardian \<Rightarrow>
    bool \<times> guardian" where
  "guardian_start has_mcp initial_err start_err health_err now g =
     (if \<not> has_mcp then (False, switch_to_cli g)
      else case initial_err of
             None \<Rightarrow> (True, g)
           | Some e \<Rightarrow>
               (case start_mcp start_err health_err now g of
                  (None, g') \<Rightarrow> (True, g')
                | (Some e', g') \<Rightarrow> (True, switch_to_cli g')))"

text \<open>\<open>check\<close>: whether a restart is spawned, and the new state.\<close>

definition guardian_check :: "guardian_config \<Rightarrow> goerr option \<Rightarrow> time \<Rightarrow> guardian \<Rightarrow> bool \<times> guardian" where
  "guardian_check gc err now g =
     (let g = g\<lparr>gu_last_check := now\<rparr> in
      case err of
        None \<Rightarrow>
          (False, g\<lparr>gu_health := Healthy, gu_last_healthy := now, gu_fail_count := 0, gu_cli_mode := False\<rparr>)
      | Some e \<Rightarrow>
          let g = g\<lparr>gu_fail_count := gu_fail_count g + 1\<rparr> in
          if gd_restart_max_retries gc \<le> gu_fail_count g
          then (False, g\<lparr>gu_health := Degraded, gu_cli_mode := True, gu_fail_count := 0\<rparr>)
          else (True, g\<lparr>gu_health := Unhealthy\<rparr>))"

definition restart_begin :: "guardian \<Rightarrow> guardian" where
  "restart_begin g = g\<lparr>gu_restart_count := gu_restart_count g + 1\<rparr>"

text \<open>\<open>restartMCP\<close> without interruption; the answer to stopping the daemon is ignored.\<close>

definition restart_mcp :: "goerr option \<Rightarrow> goerr option \<Rightarrow> time \<Rightarrow> guardian \<Rightarrow> goerr option \<times> guardian" where
  "restart_mcp start_err health_err now g = start_mcp start_err health_err now (restart_begin g)"

definition guardian_health :: "guardian \<Rightarrow> health_level \<times> string" where
  "guardian_health g =
     (let msg = (if gu_cli_mode g then ''MCP unavailable, using CLI fallback'' else []);
          msg = (if 0 < gu_fail_count g then ''MCP health check failed '' @ itoa (gu_fail_count g) @ '' times'' else msg)
      in (gu_health g, msg))"

definition is_cli_mode :: "guardian \<Rightarrow> bool" where
  "is_cli_mode g = gu_cli_mode g"

subsection \<open>The guardian with its goroutines\<close>

record gsys =
  gs_state :: guardian
  gs_waiting :: nat
  gs_restarting :: nat

datatype gevent =
    Checked "goerr option" time
  | Manual_Restart
  | Restart_Begins
  | Restart_Ends "goerr option" "goerr option" time

inductive guardian_step :: "guardian_config \<Rightarrow> gsys \<Rightarrow> gevent \<Rightarrow> gsys \<Rightarrow> bool" for gc where
  checked: "guardian_check gc err t (gs_state s) = (spawn, g) \<Longrightarrow>
    guardian_step gc s (Checked err t)
      (s\<lparr>gs_state := g, gs_waiting := (if spawn then Suc (gs_waiting s) else gs_waiting s)\<rparr>)"
| manual: "guardian_step gc s Manual_Restart (s\<lparr>gs_waiting := Suc (gs_waiting s)\<rparr>)"
| begins: "gs_waiting s = Suc n \<Longrightarrow>
    guardian_step gc s Restart_Begins
      (s\<lparr>gs_state := restart_begin (gs_state s), gs_waiting := n, gs_restarting := Suc (gs_restarting s)\<rparr>)"
| ends: "gs_restarting s = Suc n \<Longrightarrow> start_mcp e1 e2 t (gs_state s) = (r, g) \<Longrightarrow>
    guardian_step gc s (Restart_Ends e1 e2 t) (s\<lparr>gs_state := g, gs_restarting := n\<rparr>)"

inductive_cases guardian_stepE [elim]: "guardian_step gc s ev s'"

inductive_simps guardian_step_simps:
  "guardian_step gc s (Checked err t) s'"
  "guardian_step gc s Manual_Restart s'"
  "guardian_step gc s Restart_Begins s'"
  "guardian_step gc s (Restart_Ends e1 e2 t) s'"

inductive guardian_run :: "guardian_config \<Rightarrow> gsys \<Rightarrow> gevent list \<Rightarrow> gsys \<Rightarrow> bool" for gc where
  start: "guardian_run gc s [] s"
| step: "guardian_run gc s evs s' \<Longrightarrow> guardian_step gc s' ev s'' \<Longrightarrow> guardian_run gc s (evs @ [ev]) s''"

text \<open>Where the loop begins: right after \<open>Start\<close>, with no restart on its way.\<close>

definition guardian_started :: "gsys \<Rightarrow> bool" where
  "guardian_started s \<longleftrightarrow> (\<exists>i e1 e2 t. gs_state s = snd (guardian_start True i e1 e2 t guardian_new)) \<and>
     gs_waiting s = 0 \<and> gs_restarting s = 0"

subsection \<open>Invariants\<close>

definition guardian_inv :: "guardian_config \<Rightarrow> guardian \<Rightarrow> bool" where
  "guardian_inv gc g \<longleftrightarrow>
     0 \<le> gu_fail_count g \<and> (0 < gd_restart_max_retries gc \<longrightarrow> gu_fail_count g < gd_restart_max_retries gc) \<and>
     (gu_health g = Healthy \<longrightarrow> \<not> gu_cli_mode g) \<and> (gu_health g = Degraded \<longrightarrow> gu_cli_mode g) \<and>
     (gu_health g = Unhealthy \<longrightarrow> 0 < gu_fail_count g) \<and> gu_health g \<noteq> Critical"

lemma guardian_start_inv: "guardian_inv gc (snd (guardian_start m i e1 e2 t guardian_new))"
  by (auto simp: guardian_start_def start_mcp_def guardian_new_def switch_to_cli_def guardian_inv_def split: option.split)

lemma guardian_check_inv: "guardian_inv gc g \<Longrightarrow> guardian_inv gc (snd (guardian_check gc err t g))"
  by (auto simp: guardian_check_def guardian_inv_def Let_def split: option.split)

lemma start_mcp_inv: "guardian_inv gc g \<Longrightarrow> guardian_inv gc (snd (start_mcp e1 e2 t g))"
  by (auto simp: start_mcp_def guardian_inv_def split: option.split)

lemma restart_begin_inv: "guardian_inv gc (restart_begin g) = guardian_inv gc g"
  by (simp add: restart_begin_def guardian_inv_def)

lemma guardian_step_inv:
  assumes "guardian_step gc s ev s'" and "guardian_inv gc (gs_state s)"
  shows "guardian_inv gc (gs_state s')"
  using assms
proof cases
  case (checked err t spawn g)
  then show ?thesis using guardian_check_inv [OF assms(2), of err t] by simp
next
  case (ends n e1 e2 t r g)
  then show ?thesis using start_mcp_inv [OF assms(2), of e1 e2 t] by simp
qed (use assms(2) in \<open>simp_all add: restart_begin_inv\<close>)

text \<open>The failed checks since the last one that succeeded.\<close>

fun streak_step :: "gevent \<Rightarrow> nat \<Rightarrow> nat" where
  "streak_step (Checked None t) n = 0"
| "streak_step (Checked (Some e) t) n = Suc n"
| "streak_step _ n = n"

definition fail_streak :: "gevent list \<Rightarrow> nat" where
  "fail_streak evs = fold streak_step evs 0"

lemma fail_streak_snoc [simp]: "fail_streak (evs @ [ev]) = streak_step ev (fail_streak evs)"
  by (simp add: fail_streak_def)

lemma start_mcp_fails: "gu_fail_count (snd (start_mcp e1 e2 t g)) = gu_fail_count g"
  by (simp add: start_mcp_def split: option.split)

lemma fail_count_step:
  assumes "guardian_step gc s ev s'" and "0 < gd_restart_max_retries gc"
    and "gu_fail_count (gs_state s) = int k mod gd_restart_max_retries gc"
  shows "gu_fail_count (gs_state s') = int (streak_step ev k) mod gd_restart_max_retries gc"
  using assms(1)
proof cases
  case (checked err t spawn g)
  let ?m = "gd_restart_max_retries gc"
  have g: "g = snd (guardian_check gc err t (gs_state s))" using checked(3) by simp
  show ?thesis
  proof (cases err)
    case (Some e)
    have "(int k + 1) mod ?m = (int k mod ?m + 1) mod ?m" by (simp add: mod_simps)
    moreover have "0 \<le> int k mod ?m" "int k mod ?m < ?m" using assms(2) by simp_all
    ultimately have "(int k + 1) mod ?m = (if ?m \<le> int k mod ?m + 1 then 0 else int k mod ?m + 1)"
      by (smt (verit) mod_pos_pos_trivial mod_self)
    then show ?thesis using checked(1,2) assms(3) Some by (simp add: g guardian_check_def Let_def add.commute)
  qed (use checked(1,2) in \<open>simp add: g guardian_check_def Let_def\<close>)
next
  case (ends n e1 e2 t r g)
  then show ?thesis using start_mcp_fails [of e1 e2 t "gs_state s"] assms(3) by simp
qed (use assms(3) in \<open>simp_all add: restart_begin_def\<close>)

lemma started_inv: "guardian_started s \<Longrightarrow> guardian_inv gc (gs_state s)"
  using guardian_start_inv by (auto simp: guardian_started_def)

lemma started_fail_count: "guardian_started s \<Longrightarrow> gu_fail_count (gs_state s) = 0"
  by (auto simp: guardian_started_def guardian_start_def start_mcp_def guardian_new_def switch_to_cli_def split: option.split)

lemma guardian_run_props:
  assumes "guardian_run gc s0 evs s" and "guardian_started s0"
  shows "guardian_inv gc (gs_state s) \<and>
    (0 < gd_restart_max_retries gc \<longrightarrow> gu_fail_count (gs_state s) = int (fail_streak evs) mod gd_restart_max_retries gc)"
  using assms
proof induction
  case (start s)
  then show ?case using started_inv started_fail_count by (simp add: fail_streak_def)
next
  case (step s evs s' ev s'')
  then show ?case using guardian_step_inv fail_count_step by simp
qed

inductive_cases guardian_run_snocE: "guardian_run gc s (evs @ [ev]) s'"

lemma guardian_run_snocD:
  assumes "guardian_run gc s0 (evs @ [ev]) s"
  obtains s' where "guardian_run gc s0 evs s'" and "guardian_step gc s' ev s"
  using guardian_run_snocE [OF assms] by auto

lemma guardian_run_prefix:
  assumes "guardian_run gc s0 evs s" and "prefix pre evs"
  shows "\<exists>s'. guardian_run gc s0 pre s'"
  using assms
proof induction
  case (step s evs s' ev s'')
  show ?case
  proof (cases "prefix pre evs")
    case False
    then have "pre = evs @ [ev]" using step.prems by simp
    then show ?thesis using guardian_run.step [OF step.hyps] by blast
  qed (use step.IH in blast)
qed (auto intro: guardian_run.start)

text \<open>A streak of \<open>n\<close> failures contains the moment when it was exactly \<open>m\<close> long.\<close>

lemma streak_prefix:
  assumes "0 < m" and "m \<le> fail_streak evs"
  obtains pre e t where "prefix (pre @ [Checked (Some e) t]) evs" and "fail_streak (pre @ [Checked (Some e) t]) = m"
proof -
  have "\<exists>pre e t. prefix (pre @ [Checked (Some e) t]) evs \<and> fail_streak (pre @ [Checked (Some e) t]) = m"
    using assms(2)
  proof (induction evs rule: rev_induct)
    case Nil
    then show ?case using assms(1) by (simp add: fail_streak_def)
  next
    case (snoc ev evs)
    show ?case
    proof (cases "m \<le> fail_streak evs")
      case True
      from snoc.IH [OF True] obtain pre e t where "prefix (pre @ [Checked (Some e) t]) evs"
        "fail_streak (pre @ [Checked (Some e) t]) = m" by blast
      then show ?thesis by (intro exI [of _ pre] exI [of _ e] exI [of _ t] conjI prefix_prefix)
    next
      case False
      have "streak_step ev (fail_streak evs) \<noteq> fail_streak evs" "0 < streak_step ev (fail_streak evs)"
        using False snoc.prems assms(1) by auto
      then obtain e t where ev: "ev = Checked (Some e) t" by (cases "(ev, fail_streak evs)" rule: streak_step.cases) auto
      then have "fail_streak (evs @ [ev]) = m" using False snoc.prems by simp
      then show ?thesis using ev by blast
    qed
  qed
  then show ?thesis using that by blast
qed

lemma failed_check:
  assumes "guardian_run gc s0 (evs @ [Checked (Some e) t]) s" and "guardian_started s0" and "0 < gd_restart_max_retries gc"
  obtains s' where "guardian_run gc s0 evs s'" and
    "if gd_restart_max_retries gc dvd int (Suc (fail_streak evs))
     then gu_health (gs_state s) = Degraded \<and> gu_cli_mode (gs_state s) \<and> gs_waiting s = gs_waiting s'
     else gu_health (gs_state s) = Unhealthy \<and> gs_waiting s = Suc (gs_waiting s')"
proof -
  obtain s' where r: "guardian_run gc s0 evs s'" and st: "guardian_step gc s' (Checked (Some e) t) s"
    by (rule guardian_run_snocD [OF assms(1)])
  let ?m = "gd_restart_max_retries gc" and ?k = "fail_streak evs"
  have f: "gu_fail_count (gs_state s') = int ?k mod ?m" using guardian_run_props [OF r assms(2)] assms(3) by simp
  have "0 \<le> int ?k mod ?m" "int ?k mod ?m < ?m" using assms(3) by simp_all
  moreover have "?m dvd int (Suc ?k) \<longleftrightarrow> (int ?k mod ?m + 1) mod ?m = 0"
    by (simp add: dvd_eq_mod_eq_0 mod_simps add.commute)
  ultimately have "?m dvd int (Suc ?k) \<longleftrightarrow> ?m \<le> int ?k mod ?m + 1"
    by (smt (verit) mod_pos_pos_trivial mod_self)
  then show ?thesis
    using st by (intro that [OF r]) (auto simp: guardian_step_simps guardian_check_def Let_def f)
qed

subsection \<open>Properties\<close>

text \<open>C25: The guardian's state follows the health checks, however restarts are interleaved: its counter of failures is the length of the current
  streak of failed checks modulo the configured number; a failed check that completes a multiple of that number
  switches to CLI mode and spawns no restart, any other failed check reports the daemon unhealthy and
  spawns exactly one. A healthy guardian is never in CLI mode, a degraded one always.\<close>

theorem guardian_follows_checks:
  assumes "guardian_run gc s0 evs s" and "guardian_started s0" and "0 < gd_restart_max_retries gc"
  shows "guardian_inv gc (gs_state s) \<and>
    gu_fail_count (gs_state s) = int (fail_streak evs) mod gd_restart_max_retries gc \<and>
    (\<forall>pre e t. evs = pre @ [Checked (Some e) t] \<longrightarrow>
       (\<exists>s'. guardian_run gc s0 pre s' \<and>
         (if gd_restart_max_retries gc dvd int (Suc (fail_streak pre))
          then gu_health (gs_state s) = Degraded \<and> gu_cli_mode (gs_state s) \<and> gs_waiting s = gs_waiting s'
          else gu_health (gs_state s) = Unhealthy \<and> gs_waiting s = Suc (gs_waiting s'))))"
proof (intro conjI allI impI)
  fix pre e t
  assume evs: "evs = pre @ [Checked (Some e) t]"
  from failed_check [OF assms(1) [unfolded evs] assms(2,3)] obtain s' where
    "guardian_run gc s0 pre s'" and
    "if gd_restart_max_retries gc dvd int (Suc (fail_streak pre))
     then gu_health (gs_state s) = Degraded \<and> gu_cli_mode (gs_state s) \<and> gs_waiting s = gs_waiting s'
     else gu_health (gs_state s) = Unhealthy \<and> gs_waiting s = Suc (gs_waiting s')" .
  then show "\<exists>s'. guardian_run gc s0 pre s' \<and>
     (if gd_restart_max_retries gc dvd int (Suc (fail_streak pre))
      then gu_health (gs_state s) = Degraded \<and> gu_cli_mode (gs_state s) \<and> gs_waiting s = gs_waiting s'
      else gu_health (gs_state s) = Unhealthy \<and> gs_waiting s = Suc (gs_waiting s'))" by blast
qed (use guardian_run_props [OF assms(1,2)] assms(3) in simp_all)

definition demo_guardian :: guardian_config where
  "demo_guardian = \<lparr>gd_check_interval = 60 * second, gd_timeout = 5 * second, gd_restart_max_retries = 2\<rparr>"

definition demo_gsys :: gsys where
  "demo_gsys = \<lparr>gs_state = guardian_new, gs_waiting = 0, gs_restarting = 0\<rparr>"

definition demo_failure :: "nat \<Rightarrow> gevent" where
  "demo_failure t = Checked (Some (plain_err ''connection refused'')) (int t)"

lemma demo_started: "guardian_started demo_gsys"
  unfolding guardian_started_def demo_gsys_def
  by (auto simp: guardian_start_def intro!: exI [of _ None])

lemma demo_failures:
  obtains s where "guardian_run demo_guardian demo_gsys [demo_failure 1, demo_failure 2] s"
proof -
  have a: "\<exists>s'. guardian_step demo_guardian s (demo_failure t) s'" for s t
    by (cases "guardian_check demo_guardian (Some (plain_err ''connection refused'')) (int t) (gs_state s)")
       (simp add: demo_failure_def guardian_step_simps)
  obtain s1 :: gsys where s1: "guardian_step demo_guardian demo_gsys (demo_failure 1) s1" using a by blast
  obtain s2 where s2: "guardian_step demo_guardian s1 (demo_failure 2) s2" using a by blast
  from guardian_run.step [OF guardian_run.step [OF guardian_run.start s1] s2] show ?thesis by (auto intro: that)
qed

lemma guardian_follows_checks_witness:
  "\<exists>s. guardian_run demo_guardian demo_gsys [demo_failure 1, demo_failure 2] s \<and> gu_fail_count (gs_state s) = 0"
proof -
  obtain s where s: "guardian_run demo_guardian demo_gsys [demo_failure 1, demo_failure 2] s" by (rule demo_failures)
  have "0 < gd_restart_max_retries demo_guardian" by (simp add: demo_guardian_def)
  from guardian_follows_checks [OF s demo_started this] s show ?thesis
    by (auto simp: fail_streak_def demo_failure_def demo_guardian_def)
qed

text \<open>C26: The guardian gives up on a daemon that stays dead: once as many checks in a row have failed as are configured, it has
  switched to CLI mode, even if restarts in between reported success.\<close>

theorem guardian_gives_up:
  assumes "guardian_run gc s0 evs s" and "guardian_started s0" and "0 < gd_restart_max_retries gc"
    and "gd_restart_max_retries gc \<le> int (fail_streak evs)"
  shows "\<exists>pre s'. prefix pre evs \<and> guardian_run gc s0 pre s' \<and> is_cli_mode (gs_state s') \<and>
    guardian_health (gs_state s') = (Degraded, ''MCP unavailable, using CLI fallback'')"
proof -
  let ?m = "gd_restart_max_retries gc"
  obtain pre e t where p: "prefix (pre @ [Checked (Some e) t]) evs" and k: "fail_streak (pre @ [Checked (Some e) t]) = nat ?m"
    using streak_prefix [of "nat ?m" evs] assms(3,4) by (metis nat_le_iff zero_less_nat_eq)
  obtain s' where s': "guardian_run gc s0 (pre @ [Checked (Some e) t]) s'" using guardian_run_prefix [OF assms(1) p] by blast
  have "?m dvd int (Suc (fail_streak pre))" using k assms(3) by simp
  with failed_check [OF s' assms(2,3)] have h: "gu_health (gs_state s') = Degraded" "gu_cli_mode (gs_state s')" by metis+
  have "gu_fail_count (gs_state s') = int (nat ?m) mod ?m"
    using guardian_run_props [OF s' assms(2)] assms(3) unfolding k by blast
  then have "gu_fail_count (gs_state s') = 0" using assms(3) by simp
  with h have "is_cli_mode (gs_state s') \<and> guardian_health (gs_state s') = (Degraded, ''MCP unavailable, using CLI fallback'')"
    by (simp add: is_cli_mode_def guardian_health_def)
  with p s' show ?thesis by blast
qed

lemma guardian_gives_up_witness:
  "\<exists>pre s'. prefix pre [demo_failure 1, demo_failure 2] \<and> guardian_run demo_guardian demo_gsys pre s' \<and> is_cli_mode (gs_state s')"
proof -
  obtain s where s: "guardian_run demo_guardian demo_gsys [demo_failure 1, demo_failure 2] s" by (rule demo_failures)
  have "0 < gd_restart_max_retries demo_guardian"
    "gd_restart_max_retries demo_guardian \<le> int (fail_streak [demo_failure 1, demo_failure 2])"
    by (simp_all add: demo_guardian_def fail_streak_def demo_failure_def)
  from guardian_gives_up [OF s demo_started this] show ?thesis by blast
qed

text \<open>A restart that succeeds does not clear the counter of failures: the guardian then reports a healthy daemon together with
  the message that its check failed.\<close>

theorem healthy_with_failure_message:
  assumes "2 \<le> gd_restart_max_retries gc"
  shows "\<exists>s. guardian_run gc demo_gsys [demo_failure 1, Restart_Begins, Restart_Ends None None 2] s \<and>
    guardian_health (gs_state s) = (Healthy, ''MCP health check failed 1 times'')"
proof -
  let ?e = "Some (plain_err ''connection refused'')"
  let ?g1 = "guardian_new\<lparr>gu_last_check := 1, gu_fail_count := 1, gu_health := Unhealthy\<rparr>"
  let ?s1 = "demo_gsys\<lparr>gs_state := ?g1, gs_waiting := 1\<rparr>"
  let ?s2 = "?s1\<lparr>gs_state := restart_begin ?g1, gs_waiting := 0, gs_restarting := 1\<rparr>"
  let ?g3 = "(restart_begin ?g1)\<lparr>gu_health := Healthy, gu_last_healthy := 2, gu_cli_mode := False\<rparr>"
  let ?s3 = "?s2\<lparr>gs_state := ?g3, gs_restarting := 0\<rparr>"
  have "guardian_step gc demo_gsys (demo_failure 1) ?s1"
    using assms by (simp add: demo_failure_def guardian_step_simps demo_gsys_def guardian_check_def guardian_new_def Let_def
        exI [of _ True])
  moreover have "guardian_step gc ?s1 Restart_Begins ?s2" by (simp add: guardian_step_simps demo_gsys_def)
  moreover have "guardian_step gc ?s2 (Restart_Ends None None 2) ?s3"
    by (simp add: guardian_step_simps start_mcp_def)
  ultimately have "guardian_run gc demo_gsys ((([] @ [demo_failure 1]) @ [Restart_Begins]) @ [Restart_Ends None None 2]) ?s3"
    by (rule guardian_run.step [OF guardian_run.step [OF guardian_run.step [OF guardian_run.start]]])
  moreover have "itoa 1 = ''1''" by code_simp
  then have "guardian_health (gs_state ?s3) = (Healthy, ''MCP health check failed 1 times'')"
    by (simp add: guardian_health_def restart_begin_def guardian_new_def)
  ultimately show ?thesis by (intro exI [of _ ?s3]) simp
qed

lemma healthy_with_failure_message_witness:
  "\<exists>s :: gsys. guardian_health (gs_state s) = (Healthy, ''MCP health check failed 1 times'')"
proof -
  have "2 \<le> gd_restart_max_retries demo_guardian" by (simp add: demo_guardian_def)
  from healthy_with_failure_message [OF this] show ?thesis by blast
qed

end
