(* ===== verification/Heartbeat.thy ===== *)
theory Heartbeat
  imports Config "HOL-Library.Multiset"
begin

text \<open>
  The health monitor (\<open>heartbeat/heartbeat.go\<close>, \<open>heartbeat/selfheal.go\<close>): the tracker of component
  health, one round of checks, and the checks themselves. A round is a fold over the reports of the checkers in the order in
  which the map of checkers yields them; \<open>os.Stat\<close> is a function from paths to file sizes.
\<close>

record tracker =
  tk_components :: "(string, component_health) gomap"
  tk_started_at :: time

definition tracker_new :: "time \<Rightarrow> tracker" where
  "tracker_new now = \<lparr>tk_components = [], tk_started_at = now\<rparr>"

definition component_new :: "string \<Rightarrow> component_health" where
  "component_new name = \<lparr>ch_name = name, ch_level = Healthy, ch_level_str = [], ch_last_check = 0, ch_last_healthy = 0,
     ch_message = [], ch_fail_count = 0\<rparr>"

definition component_report :: "time \<Rightarrow> health_level \<Rightarrow> string \<Rightarrow> component_health \<Rightarrow> component_health" where
  "component_report now level msg ch =
     (let ch = ch\<lparr>ch_level := level, ch_level_str := level_str level, ch_last_check := now, ch_message := msg\<rparr>
      in if level = Healthy then ch\<lparr>ch_last_healthy := now, ch_fail_count := 0\<rparr>
         else ch\<lparr>ch_fail_count := ch_fail_count ch + 1\<rparr>)"

definition tracker_update :: "time \<Rightarrow> string \<Rightarrow> health_level \<Rightarrow> string \<Rightarrow> tracker \<Rightarrow> tracker" where
  "tracker_update now name level msg tr =
     (let ch = (case mget (tk_components tr) name of None \<Rightarrow> component_new name | Some ch \<Rightarrow> ch)
      in tr\<lparr>tk_components := mput name (component_report now level msg ch) (tk_components tr)\<rparr>)"

definition get_component_level :: "tracker \<Rightarrow> string \<Rightarrow> health_level" where
  "get_component_level tr name =
     (case mget (tk_components tr) name of Some ch \<Rightarrow> ch_level ch | None \<Rightarrow> Healthy)"

definition worse :: "string \<times> component_health \<Rightarrow> health_level \<Rightarrow> health_level" where
  "worse p overall = (if overall < ch_level (snd p) then ch_level (snd p) else overall)"

definition health_mode :: "health_level \<Rightarrow> string" where
  "health_mode overall =
     (case overall of Degraded \<Rightarrow> ''cli_fallback'' | Unhealthy \<Rightarrow> ''degraded'' | Critical \<Rightarrow> ''critical'' | Healthy \<Rightarrow> ''normal'')"

definition get_health :: "time \<Rightarrow> tracker \<Rightarrow> system_health" where
  "get_health now tr =
     (let overall = fold worse (tk_components tr) Healthy
      in \<lparr>sh_overall = overall, sh_overall_str = level_str overall, sh_components = tk_components tr,
          sh_started_at = tk_started_at tr, sh_uptime_sec = (now - tk_started_at tr) div second,
          sh_mode = health_mode overall\<rparr>)"

subsection \<open>A round of checks\<close>

datatype log_severity = Log_Info | Log_Warn | Log_Error

definition log_transition :: "health_level \<Rightarrow> health_level \<Rightarrow> log_severity option" where
  "log_transition old new =
     (if new = Healthy \<and> Healthy < old then Some Log_Info
      else if new = Critical then Some Log_Error
      else if new = Unhealthy then Some Log_Error
      else if new = Degraded then Some Log_Warn
      else None)"

type_synonym report = "string \<times> health_level \<times> string"

definition run_check :: "time \<Rightarrow> report \<Rightarrow> (string \<times> log_severity) list \<times> tracker \<Rightarrow>
    (string \<times> log_severity) list \<times> tracker" where
  "run_check now rep acc =
     (let (name, level, msg) = rep; (logs, tr) = acc;
          prev = get_component_level tr name;
          tr = tracker_update now name level msg tr;
          logs = (if prev \<noteq> level
                  then logs @ (case log_transition prev level of None \<Rightarrow> [] | Some sev \<Rightarrow> [(name, sev)]) else logs)
      in (logs, tr))"

definition run_checks :: "time \<Rightarrow> report list \<Rightarrow> tracker \<Rightarrow> (string \<times> log_severity) list \<times> tracker" where
  "run_checks now reports tr = fold (run_check now) reports ([], tr)"

subsection \<open>The checks\<close>

definition check_qmd_cli :: "qmd_config \<Rightarrow> string result \<Rightarrow> (string \<Rightarrow> int option) \<Rightarrow> health_level \<times> string" where
  "check_qmd_cli qc version stat =
     (case version of
        Inl e \<Rightarrow> (case stat (qc_bin qc) of
                   None \<Rightarrow> (Critical, ''qmd binary not found: '' @ qc_bin qc)
                 | Some _ \<Rightarrow> (Unhealthy, ''qmd cli not responding: '' @ err_msg e))
      | Inr _ \<Rightarrow> (Healthy, []))"

definition check_index_db :: "qmd_config \<Rightarrow> (string \<Rightarrow> int option) \<Rightarrow> health_level \<times> string" where
  "check_index_db qc stat =
     (if qc_index_db qc = [] then (Healthy, [])
      else case stat (qc_index_db qc) of
             None \<Rightarrow> (Critical, ''index database not found: '' @ qc_index_db qc)
           | Some n \<Rightarrow> if n = 0 then (Critical, ''index database is empty: '' @ qc_index_db qc) else (Healthy, []))"

definition check_embeddings :: "runtime_config \<Rightarrow> bool \<Rightarrow> index_status result \<Rightarrow> health_level \<times> string" where
  "check_embeddings rt has_status status =
     (if rt_low_resource_mode rt then (Healthy, ''embeddings check disabled in low_resource_mode'')
      else if \<not> has_status then (Healthy, ''status capability not available, skipping embed check'')
      else case status of
             Inl e \<Rightarrow> (Degraded, ''cannot check embeddings: '' @ err_msg e)
           | Inr st \<Rightarrow> if ix_vectors st = 0 then (Degraded, ''no embeddings found, vsearch/query may not work'')
                       else (Healthy, []))"

subsection \<open>Lemmas\<close>

text \<open>What the reports of one component, in order, make of it.\<close>

definition reports_of :: "string \<Rightarrow> (time \<times> report) list \<Rightarrow> (time \<times> health_level \<times> string) list" where
  "reports_of name rs = map (\<lambda>(t, n, l, m). (t, l, m)) (filter (\<lambda>(t, n, l, m). n = name) rs)"

definition summary :: "string \<Rightarrow> (time \<times> health_level \<times> string) list \<Rightarrow> component_health option" where
  "summary name rs =
     (if rs = [] then None else Some (fold (\<lambda>(t, l, m). component_report t l m) rs (component_new name)))"

definition tracked :: "time \<Rightarrow> (time \<times> report) list \<Rightarrow> tracker" where
  "tracked t0 rs = fold (\<lambda>(t, n, l, m). tracker_update t n l m) rs (tracker_new t0)"

lemma tracked_snoc: "tracked t0 (rs @ [(t, n, l, m)]) = tracker_update t n l m (tracked t0 rs)"
  by (simp add: tracked_def)

lemma reports_of_snoc:
  "reports_of name (rs @ [(t, n, l, m)]) = reports_of name rs @ (if n = name then [(t, l, m)] else [])"
  by (simp add: reports_of_def)

lemma summary_snoc:
  "summary name (rs @ [(t, l, m)]) =
     Some (component_report t l m (case summary name rs of None \<Rightarrow> component_new name | Some c \<Rightarrow> c))"
  by (simp add: summary_def)

lemma tracked_summary:
  "mwf (tk_components (tracked t0 rs)) \<and> mget (tk_components (tracked t0 rs)) name = summary name (reports_of name rs)"
proof (induction rs arbitrary: name rule: rev_induct)
  case Nil
  then show ?case by (simp add: tracked_def tracker_new_def reports_of_def summary_def)
next
  case (snoc r rs)
  obtain t n l m where r: "r = (t, n, l, m)" by (cases r) auto
  have "mwf (tk_components (tracked t0 rs))" and g: "mget (tk_components (tracked t0 rs)) k = summary k (reports_of k rs)" for k
    using snoc.IH by blast+
  then show ?case
    by (auto simp: r tracked_snoc reports_of_snoc summary_snoc tracker_update_def Let_def split: option.split)
qed

text \<open>The unhealthy reports since the last healthy one.\<close>

definition bad_streak :: "(time \<times> health_level \<times> string) list \<Rightarrow> nat" where
  "bad_streak rs = length (takeWhile (\<lambda>(t, l, m). l \<noteq> Healthy) (rev rs))"

lemma bad_streak_snoc: "bad_streak (rs @ [(t, l, m)]) = (if l = Healthy then 0 else Suc (bad_streak rs))"
  by (simp add: bad_streak_def)

lemma summary_fields:
  assumes "summary name (rs @ [(t, l, m)]) = Some c"
  shows "ch_name c = name \<and> ch_level c = l \<and> ch_level_str c = level_str l \<and> ch_message c = m \<and> ch_last_check c = t \<and>
    ch_fail_count c = int (bad_streak (rs @ [(t, l, m)]))"
  using assms
proof (induction rs arbitrary: t l m c rule: rev_induct)
  case Nil
  then show ?case
    by (auto simp: summary_def component_report_def component_new_def bad_streak_def Let_def)
next
  case (snoc r rs)
  obtain t' l' m' where r: "r = (t', l', m')" by (cases r)
  obtain c' where c': "summary name (rs @ [r]) = Some c'" by (simp add: summary_def)
  from snoc.IH [of t' l' m' c'] c' have "ch_name c' = name" "ch_fail_count c' = int (bad_streak (rs @ [r]))"
    by (simp_all add: r)
  moreover have "c = component_report t l m c'" using snoc.prems summary_snoc [of name "rs @ [r]" t l m] c' by simp
  moreover have "bad_streak ((rs @ [r]) @ [(t, l, m)]) = (if l = Healthy then 0 else Suc (bad_streak (rs @ [r])))"
    by (rule bad_streak_snoc)
  ultimately show ?case by (simp add: component_report_def Let_def)
qed

lemma fold_worse:
  "o0 \<le> fold worse ps o0 \<and> (\<forall>p\<in>set ps. ch_level (snd p) \<le> fold worse ps o0) \<and>
   (fold worse ps o0 = o0 \<or> (\<exists>p\<in>set ps. ch_level (snd p) = fold worse ps o0))"
proof (induction ps arbitrary: o0)
  case (Cons p ps)
  have "o0 \<le> worse p o0" "ch_level (snd p) \<le> worse p o0" "worse p o0 = o0 \<or> worse p o0 = ch_level (snd p)"
    by (auto simp: worse_def)
  then show ?case using Cons [of "worse p o0"] by (auto intro: order_trans)
qed simp

lemma get_health_worst:
  assumes "mwf (tk_components tr)"
  shows "(\<forall>name c. mget (tk_components tr) name = Some c \<longrightarrow> ch_level c \<le> sh_overall (get_health now tr)) \<and>
    (sh_overall (get_health now tr) = Healthy \<or>
     (\<exists>name c. mget (tk_components tr) name = Some c \<and> ch_level c = sh_overall (get_health now tr)))"
proof -
  have m: "mget (tk_components tr) name = Some c \<longleftrightarrow> (name, c) \<in> set (tk_components tr)" for name c
    using assms by (simp add: mget_def mwf_def)
  show ?thesis
    using fold_worse [of Healthy "tk_components tr"] unfolding get_health_def Let_def by (force simp: m)
qed

lemma run_checks_tracker:
  "snd (run_checks now reports tr) = fold (\<lambda>(n, l, m). tracker_update now n l m) reports tr"
proof -
  have "snd (fold (run_check now) reports acc) = fold (\<lambda>(n, l, m). tracker_update now n l m) reports (snd acc)" for acc
    by (induction reports arbitrary: acc) (simp_all add: run_check_def case_prod_beta Let_def)
  then show ?thesis by (simp add: run_checks_def)
qed

lemma run_checks_mget:
  assumes "distinct (map fst reports)"
  shows "mget (tk_components (snd (run_checks now reports tr))) name =
    (case map_of reports name of
       None \<Rightarrow> mget (tk_components tr) name
     | Some (l, m) \<Rightarrow> Some (component_report now l m
         (case mget (tk_components tr) name of None \<Rightarrow> component_new name | Some c \<Rightarrow> c)))"
  unfolding run_checks_tracker using assms
proof (induction reports arbitrary: tr)
  case (Cons r reports)
  obtain n l m where r: "r = (n, l, m)" by (cases r)
  have "map_of reports n = None" using Cons.prems by (simp add: r map_of_eq_None_iff image_iff)
  then show ?case
    using Cons.IH [of "tracker_update now n l m tr"] Cons.prems
    by (simp add: r tracker_update_def Let_def split: option.split)
qed simp

subsection \<open>Properties\<close>

text \<open>C38: The tracker tells of every component what was reported last, with the number of unhealthy reports since the last healthy one; the
  overall level is the worst of the components' levels, and no component means healthy.\<close>

theorem tracker_follows_reports:
  "(\<forall>name. mget (tk_components (tracked t0 rs)) name = None \<longleftrightarrow> reports_of name rs = []) \<and>
   (\<forall>name c pre t l m. mget (tk_components (tracked t0 rs)) name = Some c \<and> reports_of name rs = pre @ [(t, l, m)] \<longrightarrow>
      ch_level c = l \<and> ch_level_str c = level_str l \<and> ch_message c = m \<and> ch_last_check c = t \<and>
      ch_fail_count c = int (bad_streak (reports_of name rs))) \<and>
   (\<forall>name c. mget (tk_components (tracked t0 rs)) name = Some c \<longrightarrow> ch_level c \<le> sh_overall (get_health now (tracked t0 rs))) \<and>
   (sh_overall (get_health now (tracked t0 rs)) = Healthy \<or>
    (\<exists>name c. mget (tk_components (tracked t0 rs)) name = Some c \<and>
       ch_level c = sh_overall (get_health now (tracked t0 rs))))"
proof -
  note s = tracked_summary [of t0 rs]
  have "mget (tk_components (tracked t0 rs)) name = None \<longleftrightarrow> reports_of name rs = []" for name
    using s [of name] by (simp add: summary_def)
  moreover have "ch_level c = l \<and> ch_level_str c = level_str l \<and> ch_message c = m \<and> ch_last_check c = t \<and>
      ch_fail_count c = int (bad_streak (reports_of name rs))"
    if "mget (tk_components (tracked t0 rs)) name = Some c" "reports_of name rs = pre @ [(t, l, m)]" for name c pre t l m
    using summary_fields [of name pre t l m c] s [of name] that by simp
  moreover have "mwf (tk_components (tracked t0 rs))" using s by blast
  ultimately show ?thesis using get_health_worst [of "tracked t0 rs" now] by blast
qed

lemma tracker_follows_reports_witness:
  "\<exists>c. mget (tk_components (tracked 0 [(1, ''mcp'', Degraded, ''down''), (2, ''mcp'', Unhealthy, ''x'')])) ''mcp'' = Some c \<and>
     ch_fail_count c = 2"
proof -
  let ?rs = "[(1, ''mcp'', Degraded, ''down''), (2, ''mcp'', Unhealthy, ''x'')] :: (time \<times> report) list"
  have r: "reports_of ''mcp'' ?rs = [(1, Degraded, ''down'')] @ [(2, Unhealthy, ''x'')]" by (simp add: reports_of_def)
  then obtain c where c: "mget (tk_components (tracked 0 ?rs)) ''mcp'' = Some c"
    using tracked_summary [of 0 ?rs "''mcp''"] by (simp add: summary_def)
  then have "ch_fail_count c = int (bad_streak (reports_of ''mcp'' ?rs))"
    using tracker_follows_reports [of 0 ?rs 0] r by blast
  then show ?thesis using c by (simp add: r bad_streak_def)
qed

text \<open>The order in which the map of checkers is visited does not matter: two rounds that visit the same checkers leave
  the same health.\<close>

theorem round_order_is_irrelevant:
  assumes "distinct (map fst reports)" and "mset reports' = mset reports"
  shows "mget (tk_components (snd (run_checks now reports' tr))) = mget (tk_components (snd (run_checks now reports tr)))"
proof
  fix name
  have d: "distinct (map fst reports')" using assms by (metis mset_eq_imp_distinct_iff mset_map)
  have "map_of reports' = map_of reports"
    by (rule map_of_eqI) (use assms d in \<open>auto simp: mset_map dest: mset_eq_setD\<close>)
  then show "mget (tk_components (snd (run_checks now reports' tr))) name =
      mget (tk_components (snd (run_checks now reports tr))) name"
    by (simp add: run_checks_mget [OF d] run_checks_mget [OF assms(1)])
qed

lemma round_order_is_irrelevant_witness:
  "mget (tk_components (snd (run_checks 5 [(''b'', Degraded, []), (''a'', Healthy, [])] (tracker_new 0)))) ''b'' =
   mget (tk_components (snd (run_checks 5 [(''a'', Healthy, []), (''b'', Degraded, [])] (tracker_new 0)))) ''b''"
proof -
  have "distinct (map fst [(''a'', Healthy, []), (''b'', Degraded, [] :: string)])"
    "mset [(''b'', Degraded, []), (''a'', Healthy, [] :: string)] = mset [(''a'', Healthy, []), (''b'', Degraded, [])]"
    by (simp_all add: add_mset_commute)
  from round_order_is_irrelevant [OF this] show ?thesis by simp
qed

end
