(* ===== verification/Go_Time.thy ===== *)
theory Go_Time
  imports Model_Types
begin

text \<open>
  Civil time as \<open>time.Format\<close> prints it with the layout \<open>20060102150405\<close>: a Unix second plus the offset
  of the local zone, split into date and time of the day by the proleptic Gregorian calendar. The offset is a
  function of the Unix second (daylight saving changes it). The round trip reads the second back from the text.
\<close>

subsection \<open>The calendar\<close>

definition leap_year :: "nat \<Rightarrow> bool" where
  "leap_year y \<longleftrightarrow> 4 dvd y \<and> (100 dvd y \<longrightarrow> 400 dvd y)"

definition year_len :: "nat \<Rightarrow> nat" where
  "year_len y = (if leap_year y then 366 else 365)"

definition month_lens :: "nat \<Rightarrow> nat list" where
  "month_lens y = [31, if leap_year y then 29 else 28, 31, 30, 31, 30, 31, 31, 30, 31, 30, 31]"

function split_year :: "nat \<Rightarrow> nat \<Rightarrow> nat \<times> nat" where
  "split_year y d = (if d < year_len y then (y, d) else split_year (Suc y) (d - year_len y))"
  by pat_completeness auto
termination
  by (relation "measure snd") (auto simp: year_len_def)

declare split_year.simps [simp del]

fun split_month :: "nat \<Rightarrow> nat list \<Rightarrow> nat \<Rightarrow> nat \<times> nat" where
  "split_month m [] d = (m, d)"
| "split_month m (l # ls) d = (if d < l then (m, d) else split_month (Suc m) ls (d - l))"

text \<open>Days are counted from 1970-01-01, which is day 719528 of the calendar's year 0; 400 years have 146097 days.\<close>

definition civil_of_day :: "int \<Rightarrow> int \<times> nat \<times> nat" where
  "civil_of_day n =
     (let z = n + 719528; (y, r) = split_year 0 (nat (z mod 146097)); (m, d) = split_month 1 (month_lens y) r
      in (400 * (z div 146097) + int y, m, Suc d))"

definition day_of_civil :: "int \<times> nat \<times> nat \<Rightarrow> int" where
  "day_of_civil ymd =
     (let (y, m, d) = ymd; y' = nat (y mod 400)
      in 146097 * (y div 400) + int (sum_list (map year_len [0..<y'])) +
         int (sum_list (take (m - 1) (month_lens y'))) + int d - 1 - 719528)"

lemma split_year_props:
  "split_year y d = (y', r) \<Longrightarrow> y \<le> y' \<and> sum_list (map year_len [y..<y']) + r = d \<and> r < year_len y'"
proof (induction y d rule: split_year.induct)
  case (1 y d)
  show ?case
  proof (cases "d < year_len y")
    case True
    then show ?thesis using 1(2) by (simp add: split_year.simps [of y d])
  next
    case False
    then have "split_year (Suc y) (d - year_len y) = (y', r)" using 1(2) by (simp add: split_year.simps [of y d])
    from 1(1) [OF False this] False show ?thesis by (auto simp: upt_conv_Cons)
  qed
qed

lemma split_month_props:
  "split_month m ls d = (m', r) \<Longrightarrow> d < sum_list ls \<Longrightarrow>
     m \<le> m' \<and> m' < m + length ls \<and> sum_list (take (m' - m) ls) + r = d \<and> r < ls ! (m' - m)"
proof (induction m ls d rule: split_month.induct)
  case (2 m l ls d)
  show ?case
  proof (cases "d < l")
    case False
    then have "split_month (Suc m) ls (d - l) = (m', r)" "d - l < sum_list ls" using 2(2,3) by auto
    with 2(1) [OF False] have i: "Suc m \<le> m' \<and> m' < Suc m + length ls \<and> sum_list (take (m' - Suc m) ls) + r = d - l \<and>
        r < ls ! (m' - Suc m)" by blast
    moreover from i have "m' - m = Suc (m' - Suc m)" by auto
    ultimately show ?thesis using False by auto
  qed (use 2(2) in simp)
qed simp

lemma month_lens_sum: "sum_list (month_lens y) = year_len y"
  by (simp add: month_lens_def year_len_def)

lemma cycle_len: "sum_list (map year_len [0..<400]) = 146097"
  by code_simp

lemma split_year_bound: "split_year 0 d = (y, r) \<Longrightarrow> d < 146097 \<Longrightarrow> y < 400"
proof (rule ccontr)
  assume s: "split_year 0 d = (y, r)" "d < 146097" "\<not> y < 400"
  then have "sum_list (map year_len [0..<y]) \<le> d" using split_year_props [OF s(1)] by simp
  moreover have "[0..<y] = [0..<400] @ [400..<y]" using s(3) upt_add_eq_append [of 0 400 "y - 400"] by simp
  ultimately show False using cycle_len s(2) by simp
qed

lemma civil_of_day_props:
  assumes "civil_of_day n = (y, m, d)"
  shows "day_of_civil (y, m, d) = n" and "1 \<le> m \<and> m \<le> 12" and "1 \<le> d \<and> d \<le> 31"
    and "y div 400 = (n + 719528) div 146097"
proof -
  let ?z = "n + 719528"
  obtain y' r where y': "split_year 0 (nat (?z mod 146097)) = (y', r)" by fastforce
  obtain d' where d': "split_month 1 (month_lens y') r = (m, d')" "y = 400 * (?z div 146097) + int y'" "d = Suc d'"
    using assms y' by (auto simp: civil_of_day_def Let_def split: prod.splits)
  have b: "y' < 400" by (rule split_year_bound [OF y']) (simp add: nat_less_iff)
  from split_year_props [OF y'] have s: "sum_list (map year_len [0..<y']) + r = nat (?z mod 146097)" "r < year_len y'"
    by simp_all
  with split_month_props [OF d'(1)] have m: "1 \<le> m" "m < 13" "sum_list (take (m - 1) (month_lens y')) + d' = r"
      "d' < month_lens y' ! (m - 1)"
    by (auto simp: month_lens_sum) (simp add: month_lens_def)
  have y400: "y div 400 = ?z div 146097" "y mod 400 = int y'" using b d'(2) by simp_all
  then show "y div 400 = (n + 719528) div 146097" by simp
  have "int (sum_list (map year_len [0..<y'])) + int (sum_list (take (m - 1) (month_lens y'))) + int d' = ?z mod 146097"
    using s(1) m(3) by (simp flip: of_nat_add)
  then show "day_of_civil (y, m, d) = n"
    using d'(3) mult_div_mod_eq [of 146097 ?z] unfolding day_of_civil_def Let_def prod.case y400 nat_int by linarith
  show "1 \<le> m \<and> m \<le> 12" using m by simp
  have "month_lens y' ! (m - 1) \<in> set (month_lens y')" using m(1,2) by (intro nth_mem) (simp add: month_lens_def)
  then have "month_lens y' ! (m - 1) \<le> 31" by (auto simp: month_lens_def split: if_splits)
  then show "1 \<le> d \<and> d \<le> 31" using m(4) d'(3) by simp
qed

subsection \<open>The text\<close>

definition pad_int :: "nat \<Rightarrow> int \<Rightarrow> string" where
  "pad_int w x = (if x < 0 then ''-'' else []) @ pad_zeros w (show_nat (nat \<bar>x\<bar>))"

definition local_second :: "(int \<Rightarrow> int) \<Rightarrow> time \<Rightarrow> int" where
  "local_second zone t = (let u = t div second in u + zone u)"

definition format_stamp :: "(int \<Rightarrow> int) \<Rightarrow> time \<Rightarrow> string" where
  "format_stamp zone t =
     (let s = local_second zone t; (y, m, d) = civil_of_day (s div 86400); r = s mod 86400
      in pad_int 4 y @ pad_int 2 (int m) @ pad_int 2 (int d) @
         pad_int 2 (r div 3600) @ pad_int 2 (r mod 3600 div 60) @ pad_int 2 (r mod 60))"

definition stamp_part :: "nat \<Rightarrow> nat \<Rightarrow> string \<Rightarrow> int" where
  "stamp_part i w s = int (digits_value (take w (drop i s)))"

definition read_stamp :: "string \<Rightarrow> int" where
  "read_stamp s =
     86400 * day_of_civil (stamp_part 0 4 s, nat (stamp_part 4 2 s), nat (stamp_part 6 2 s)) +
     3600 * stamp_part 8 2 s + 60 * stamp_part 10 2 s + stamp_part 12 2 s"

lemma digits_value_zeros: "digits_value (replicate k (CHR ''0'') @ s) = digits_value s"
  by (induction k) (simp_all add: digits_value_def byte_of_def)

lemma length_show_nat: "n < 10 ^ Suc w \<Longrightarrow> length (show_nat n) \<le> Suc w"
proof (induction w arbitrary: n)
  case (Suc w)
  have "n div 10 < 10 ^ Suc w" using Suc.prems by (simp add: less_mult_imp_div_less)
  with Suc.IH show ?case by (simp add: show_nat.simps [of n])
qed (simp add: show_nat.simps)

lemma pad_int:
  assumes "0 \<le> x" and "x < 10 ^ Suc w"
  shows "length (pad_int (Suc w) x) = Suc w" and "digits_value (pad_int (Suc w) x) = nat x"
proof -
  have "nat x < 10 ^ Suc w" using assms by (simp add: nat_less_iff)
  then show "length (pad_int (Suc w) x) = Suc w" and "digits_value (pad_int (Suc w) x) = nat x"
    using assms(1) length_show_nat [of "nat x" w]
    by (simp_all add: pad_int_def pad_zeros_def digits_value_zeros digits_value_show_nat)
qed

lemma pad_int2: "0 \<le> x \<Longrightarrow> x < 100 \<Longrightarrow> length (pad_int 2 x) = 2 \<and> digits_value (pad_int 2 x) = nat x"
  using pad_int [of x 1] by (simp add: numeral_2_eq_2)

lemma pad_int4: "0 \<le> x \<Longrightarrow> x < 10000 \<Longrightarrow> length (pad_int 4 x) = 4 \<and> digits_value (pad_int 4 x) = nat x"
  using pad_int [of x 3] by (simp add: numeral_eq_Suc)

lemma stamp_parts:
  assumes "length a = 4" "length b = 2" "length c = 2" "length d = 2" "length e = 2" "length f = 2"
  shows "stamp_part 0 4 (a @ b @ c @ d @ e @ f) = int (digits_value a)"
    and "stamp_part 4 2 (a @ b @ c @ d @ e @ f) = int (digits_value b)"
    and "stamp_part 6 2 (a @ b @ c @ d @ e @ f) = int (digits_value c)"
    and "stamp_part 8 2 (a @ b @ c @ d @ e @ f) = int (digits_value d)"
    and "stamp_part 10 2 (a @ b @ c @ d @ e @ f) = int (digits_value e)"
    and "stamp_part 12 2 (a @ b @ c @ d @ e @ f) = int (digits_value f)"
  using assms by (simp_all add: stamp_part_def)

text \<open>The local seconds of the years 0 to 9999.\<close>

definition four_digit_year :: "int \<Rightarrow> bool" where
  "four_digit_year s \<longleftrightarrow> - 62167219200 \<le> s \<and> s < 253402300800"

lemma read_format_stamp:
  assumes "four_digit_year (local_second zone t)"
  shows "read_stamp (format_stamp zone t) = local_second zone t"
proof -
  let ?s = "local_second zone t"
  let ?r = "?s mod 86400"
  obtain y m d where ymd: "civil_of_day (?s div 86400) = (y, m, d)" by (cases "civil_of_day (?s div 86400)")
  note p = civil_of_day_props [OF ymd]
  have "0 \<le> ?s div 86400 + 719528" "?s div 86400 + 719528 < 25 * 146097"
    using assms by (simp_all add: four_digit_year_def) (linarith+)
  then have "0 \<le> y div 400" "y div 400 < 25" using p(4) by linarith+
  then have y: "0 \<le> y" "y < 10000" by linarith+
  have r: "0 \<le> ?r" "?r < 86400" "0 \<le> ?r mod 3600" "?r mod 3600 < 3600" by simp_all
  have h: "length (pad_int 2 (?r div 3600)) = 2 \<and> digits_value (pad_int 2 (?r div 3600)) = nat (?r div 3600)"
    by (rule pad_int2) (use r in linarith)+
  have mi: "length (pad_int 2 (?r mod 3600 div 60)) = 2 \<and>
      digits_value (pad_int 2 (?r mod 3600 div 60)) = nat (?r mod 3600 div 60)"
    by (rule pad_int2) (use r in linarith)+
  have se: "length (pad_int 2 (?r mod 60)) = 2 \<and> digits_value (pad_int 2 (?r mod 60)) = nat (?r mod 60)"
    by (rule pad_int2) (rule pos_mod_sign, simp, rule less_trans [OF pos_mod_bound], simp_all)
  have mo: "length (pad_int 2 (int m)) = 2 \<and> digits_value (pad_int 2 (int m)) = nat (int m)"
    by (rule pad_int2) (use p(2) in linarith)+
  have da: "length (pad_int 2 (int d)) = 2 \<and> digits_value (pad_int 2 (int d)) = nat (int d)"
    by (rule pad_int2) (use p(3) in linarith)+
  note l = pad_int4 [OF y, THEN conjunct1] mo [THEN conjunct1] da [THEN conjunct1] h [THEN conjunct1]
    mi [THEN conjunct1] se [THEN conjunct1]
  note v = pad_int4 [OF y, THEN conjunct2] mo [THEN conjunct2] da [THEN conjunct2] h [THEN conjunct2]
    mi [THEN conjunct2] se [THEN conjunct2]
  have nn: "int (nat y) = y" "int (nat (?r div 3600)) = ?r div 3600" "int (nat (?r mod 3600 div 60)) = ?r mod 3600 div 60"
    "int (nat (?r mod 60)) = ?r mod 60"
    using y by (simp_all add: pos_imp_zdiv_nonneg_iff)
  have f: "format_stamp zone t = pad_int 4 y @ pad_int 2 (int m) @ pad_int 2 (int d) @ pad_int 2 (?r div 3600) @
      pad_int 2 (?r mod 3600 div 60) @ pad_int 2 (?r mod 60)"
    using ymd by (simp add: format_stamp_def Let_def)
  have "?r mod 3600 mod 60 = ?r mod 60" by (rule mod_mod_cancel) simp
  then have "3600 * (?r div 3600) + 60 * (?r mod 3600 div 60) + ?r mod 60 = ?r"
    using mult_div_mod_eq [of 3600 ?r] mult_div_mod_eq [of 60 "?r mod 3600"] by linarith
  then have "86400 * (?s div 86400) + 3600 * (?r div 3600) + 60 * (?r mod 3600 div 60) + ?r mod 60 = ?s"
    using mult_div_mod_eq [of 86400 ?s] by linarith
  then show ?thesis unfolding f read_stamp_def stamp_parts [OF l] v nn nat_int p(1) .
qed

lemma format_stamp_inject:
  assumes "four_digit_year (local_second zone t)" and "four_digit_year (local_second zone t')"
  shows "format_stamp zone t = format_stamp zone t' \<longleftrightarrow> local_second zone t = local_second zone t'"
proof
  assume "format_stamp zone t = format_stamp zone t'"
  then show "local_second zone t = local_second zone t'" using assms by (metis read_format_stamp)
qed (simp add: format_stamp_def)

end
