(* ===== verification/Scheduler.thy ===== *)
theory Scheduler
  imports Orch_Properties Cache_Properties Search_Promises Go_Time
begin

text \<open>
  The scheduler (\<open>scheduler/scheduler.go\<close>): its four tasks, the guard that runs a task once at a time, the retries,
  and the triggers of the admin service. \<open>run_task\<close> is one call of \<open>runTask\<close>, with what others do between
  its attempts as an argument; \<open>sched_step\<close> is the step relation of all calls together, with the tickers and
  the admin service as the sources of triggers. The tasks work on the cache and the negative cache that the orchestrator uses.
  An attempt carries the answer of the executor and the time of its end.
\<close>

record sched =
  sn_running :: "(string, bool) gomap"
  sn_last_embed :: time
  sn_last_full :: time

definition sched_new :: sched where
  "sched_new = \<lparr>sn_running = [], sn_last_embed = 0, sn_last_full = 0\<rparr>"

record sched_sys =
  sy_sched :: sched
  sy_orch :: orch

record attempt =
  at_answer :: "goerr option"
  at_time :: time

datatype task = Task_Reindex | Task_Embed | Task_Embed_Full | Task_Cleanup

primrec task_name :: "task \<Rightarrow> string" where
  "task_name Task_Reindex = ''index_refresh''"
| "task_name Task_Embed = ''embed_refresh''"
| "task_name Task_Embed_Full = ''embed_full_refresh''"
| "task_name Task_Cleanup = ''cache_cleanup''"

subsection \<open>The tasks\<close>

definition task_reindex :: "(int \<Rightarrow> int) \<Rightarrow> attempt \<Rightarrow> sched_sys \<Rightarrow> goerr option \<times> sched_sys" where
  "task_reindex zone a s =
     (case at_answer a of
        Some e \<Rightarrow> (Some e, s)
      | None \<Rightarrow>
          let version = format_stamp zone (at_time a); o1 = sy_orch s
          in (None, s\<lparr>sy_orch := o1\<lparr>or_cache := cache_set_version version (or_cache o1)\<rparr>\<rparr>))"

definition task_embed :: "attempt \<Rightarrow> sched_sys \<Rightarrow> goerr option \<times> sched_sys" where
  "task_embed a s = (at_answer a, s\<lparr>sy_sched := (sy_sched s)\<lparr>sn_last_embed := at_time a\<rparr>\<rparr>)"

definition task_embed_full :: "attempt \<Rightarrow> sched_sys \<Rightarrow> goerr option \<times> sched_sys" where
  "task_embed_full a s = (at_answer a, s\<lparr>sy_sched := (sy_sched s)\<lparr>sn_last_full := at_time a\<rparr>\<rparr>)"

definition task_cache_cleanup :: "attempt \<Rightarrow> sched_sys \<Rightarrow> goerr option \<times> sched_sys" where
  "task_cache_cleanup a s =
     (let o1 = sy_orch s;
          (removed, c) = cache_cleanup (at_time a) (or_cache o1);
          (removed_neg, d) = cleanup_deep_negative (at_time a) (or_neg o1)
      in (None, s\<lparr>sy_orch := o1\<lparr>or_cache := c, or_neg := d\<rparr>\<rparr>))"

definition run_attempt :: "(int \<Rightarrow> int) \<Rightarrow> task \<Rightarrow> attempt \<Rightarrow> sched_sys \<Rightarrow> goerr option \<times> sched_sys" where
  "run_attempt zone k a s =
     (case k of
        Task_Reindex \<Rightarrow> task_reindex zone a s
      | Task_Embed \<Rightarrow> task_embed a s
      | Task_Embed_Full \<Rightarrow> task_embed_full a s
      | Task_Cleanup \<Rightarrow> task_cache_cleanup a s)"

subsection \<open>Running a task\<close>

definition begin_task :: "string \<Rightarrow> sched \<Rightarrow> sched option" where
  "begin_task name sd =
     (if mget (sn_running sd) name = Some True then None else Some (sd\<lparr>sn_running := mput name True (sn_running sd)\<rparr>))"

definition end_task :: "string \<Rightarrow> sched \<Rightarrow> sched" where
  "end_task name sd = sd\<lparr>sn_running := mdel name (sn_running sd)\<rparr>"

definition retry_delay :: "nat \<Rightarrow> duration" where
  "retry_delay i = int (i * i) * second"

definition max_retries :: nat where
  "max_retries = 3"

record task_env =
  te_zone :: "int \<Rightarrow> int"
  te_attempt :: "nat \<Rightarrow> attempt"
  te_others :: "nat \<Rightarrow> sched_sys \<Rightarrow> sched_sys"

function retry :: "task_env \<Rightarrow> task \<Rightarrow> nat \<Rightarrow> nat \<Rightarrow> goerr option \<Rightarrow> sched_sys \<Rightarrow> goerr option \<times> sched_sys" where
  "retry te k max_tries i last_err s =
     (if max_tries < i then (last_err, s)
      else let (e, s) = run_attempt (te_zone te) k (te_attempt te i) (te_others te i s) in
           (case e of
              Some e \<Rightarrow> retry te k max_tries (i + 1) (Some e) s
            | None \<Rightarrow> (None, s)))"
  by pat_completeness auto
termination
  by (relation "measure (\<lambda>(te, k, m, i, e, s). Suc m - i)") auto

declare retry.simps [simp del]

definition run_task :: "task_env \<Rightarrow> task \<Rightarrow> sched_sys \<Rightarrow> goerr option \<times> sched_sys" where
  "run_task te k s =
     (case begin_task (task_name k) (sy_sched s) of
        None \<Rightarrow> (None, s)
      | Some sd \<Rightarrow>
          let (e, s) = run_attempt (te_zone te) k (te_attempt te 0) (te_others te 0 (s\<lparr>sy_sched := sd\<rparr>));
              (r, s) = (case e of Some e \<Rightarrow> retry te k max_retries 1 None s | None \<Rightarrow> (None, s));
              s = te_others te (max_retries + 1) s
          in (r, s\<lparr>sy_sched := end_task (task_name k) (sy_sched s)\<rparr>))"

definition trigger_reindex :: "task_env \<Rightarrow> sched_sys \<Rightarrow> goerr option \<times> sched_sys" where
  "trigger_reindex te s = run_task te Task_Reindex s"

definition embed_disabled :: "runtime_config \<Rightarrow> bool" where
  "embed_disabled rt \<longleftrightarrow> rt_low_resource_mode rt \<and> \<not> (rt_allow_cpu_vsearch rt \<or> rt_allow_cpu_deep_query rt)"

definition trigger_embed :: "runtime_config \<Rightarrow> task_env \<Rightarrow> bool \<Rightarrow> sched_sys \<Rightarrow> goerr option \<times> sched_sys" where
  "trigger_embed rt te force s =
     (if embed_disabled rt then (None, s) else run_task te (if force then Task_Embed_Full else Task_Embed) s)"

text \<open>The loops that \<open>Start\<close> spawns.\<close>

definition scheduled_tasks :: "config \<Rightarrow> (task \<times> duration) list" where
  "scheduled_tasks cfg =
     (let rt = cf_runtime cfg; sc = cf_scheduler cfg in
      [(Task_Reindex, sd_index_refresh sc)] @
      (if \<not> rt_low_resource_mode rt \<or> rt_allow_cpu_vsearch rt \<or> rt_allow_cpu_deep_query rt
       then [(Task_Embed, sd_embed_refresh sc), (Task_Embed_Full, sd_embed_full_refresh sc)] else []) @
      [(Task_Cleanup, sd_cache_cleanup sc)])"

subsection \<open>All calls together\<close>

record task_run =
  tr_task :: task
  tr_tries :: nat
  tr_ready :: time

record world =
  wd_sys :: sched_sys
  wd_runs :: "task_run list"

text \<open>What becomes of a call after an attempt: it ends, or sleeps until its next attempt.\<close>

definition after_attempt :: "task_run \<Rightarrow> attempt \<Rightarrow> goerr option \<Rightarrow> task_run option" where
  "after_attempt r a e =
     (case e of
        None \<Rightarrow> None
      | Some _ \<Rightarrow> if tr_tries r = max_retries then None
                 else Some (r\<lparr>tr_tries := tr_tries r + 1, tr_ready := at_time a + retry_delay (tr_tries r + 1)\<rparr>))"

datatype sevent = Triggered task time | Attempted task attempt | Foreign orch

inductive sched_step :: "(int \<Rightarrow> int) \<Rightarrow> world \<Rightarrow> sevent \<Rightarrow> world \<Rightarrow> bool" for zone where
  skipped: "begin_task (task_name k) (sy_sched (wd_sys w)) = None \<Longrightarrow> sched_step zone w (Triggered k t) w"
| started: "begin_task (task_name k) (sy_sched (wd_sys w)) = Some sd \<Longrightarrow>
    sched_step zone w (Triggered k t)
      (w\<lparr>wd_sys := (wd_sys w)\<lparr>sy_sched := sd\<rparr>,
         wd_runs := wd_runs w @ [\<lparr>tr_task = k, tr_tries = 0, tr_ready = t\<rparr>]\<rparr>)"
| sleeps: "wd_runs w = xs @ r # ys \<Longrightarrow> tr_task r = k \<Longrightarrow> tr_ready r \<le> at_time a \<Longrightarrow>
    run_attempt zone k a (wd_sys w) = (e, s) \<Longrightarrow> after_attempt r a e = Some r' \<Longrightarrow>
    sched_step zone w (Attempted k a) (w\<lparr>wd_sys := s, wd_runs := xs @ r' # ys\<rparr>)"
| ends: "wd_runs w = xs @ r # ys \<Longrightarrow> tr_task r = k \<Longrightarrow> tr_ready r \<le> at_time a \<Longrightarrow>
    run_attempt zone k a (wd_sys w) = (e, s) \<Longrightarrow> after_attempt r a e = None \<Longrightarrow>
    sched_step zone w (Attempted k a)
      (w\<lparr>wd_sys := s\<lparr>sy_sched := end_task (task_name k) (sy_sched s)\<rparr>, wd_runs := xs @ ys\<rparr>)"
| foreign: "orch_step (sy_orch (wd_sys w)) st \<Longrightarrow>
    sched_step zone w (Foreign st) (w\<lparr>wd_sys := (wd_sys w)\<lparr>sy_orch := st\<rparr>\<rparr>)"

inductive_cases sched_stepE: "sched_step zone w ev w'"

inductive sched_path :: "(int \<Rightarrow> int) \<Rightarrow> world \<Rightarrow> sevent list \<Rightarrow> world \<Rightarrow> bool" for zone where
  start: "sched_path zone w [] w"
| step: "sched_path zone w evs w' \<Longrightarrow> sched_step zone w' ev w'' \<Longrightarrow> sched_path zone w (evs @ [ev]) w''"

definition world_new :: "time \<Rightarrow> config \<Rightarrow> world" where
  "world_new now cfg = \<lparr>wd_sys = \<lparr>sy_sched = sched_new, sy_orch = orch_new now cfg\<rparr>, wd_runs = []\<rparr>"

subsection \<open>One call\<close>

definition attempt_ok :: "task \<Rightarrow> attempt \<Rightarrow> bool" where
  "attempt_ok k a \<longleftrightarrow> k = Task_Cleanup \<or> at_answer a = None"

lemma run_attempt_answer:
  "fst (run_attempt zone k a s) = (if attempt_ok k a then None else at_answer a)"
  by (cases k) (auto simp: run_attempt_def task_reindex_def task_embed_def task_embed_full_def task_cache_cleanup_def
      attempt_ok_def Let_def case_prod_beta split: option.split)

lemma retry_answer:
  "fst (retry te k m i le s) =
     (if \<exists>j\<in>{i..m}. attempt_ok k (te_attempt te j) then None
      else if i \<le> m then at_answer (te_attempt te m) else le)"
proof (induction te k m i le s rule: retry.induct)
  case (1 te k m i le s)
  show ?case
  proof (cases "m < i")
    case False
    obtain e s' where r: "run_attempt (te_zone te) k (te_attempt te i) (te_others te i s) = (e, s')" by fastforce
    have e: "e = (if attempt_ok k (te_attempt te i) then None else at_answer (te_attempt te i))"
      using run_attempt_answer [of "te_zone te" k "te_attempt te i" "te_others te i s"] by (simp add: r)
    have split: "{i..m} = insert i {Suc i..m}" using False by auto
    show ?thesis
    proof (cases e)
      case None
      then have "attempt_ok k (te_attempt te i)" using e by (auto simp: attempt_ok_def split: if_splits)
      then show ?thesis using False None r by (auto simp: retry.simps [of te k m i] split)
    next
      case (Some x)
      have ax: "\<not> attempt_ok k (te_attempt te i)" "at_answer (te_attempt te i) = Some x" using e Some by (auto split: if_splits)
      have i: "fst (retry te k m i le s) =
          (if \<exists>j\<in>{i..m}. attempt_ok k (te_attempt te j) then None
           else if Suc i \<le> m then at_answer (te_attempt te m) else Some x)"
        using 1 [OF False r [symmetric] _ Some] False r Some ax by (auto simp: retry.simps [of te k m i] split)
      show ?thesis
      proof (cases "Suc i \<le> m")
        case False
        then have "i = m" using \<open>\<not> m < i\<close> by simp
        then show ?thesis using i ax by simp
      qed (use i in simp)
    qed
  qed (simp add: retry.simps [of te k m i])
qed

lemma run_attempt_running: "sn_running (sy_sched (snd (run_attempt zone k a s))) = sn_running (sy_sched s)"
  by (cases k) (auto simp: run_attempt_def task_reindex_def task_embed_def task_embed_full_def task_cache_cleanup_def
      Let_def case_prod_beta split: option.split)

lemma cleanup_honest: "cache_inv c \<Longrightarrow> honest_cache c \<Longrightarrow> honest_cache (snd (cache_cleanup now c))"
proof -
  assume inv: "cache_inv c" and h: "honest_cache c"
  have "cache_peek c k = Some e" if "cache_peek (snd (cache_cleanup now c)) k = Some e" for k e
  proof -
    have "(k, e) \<in> set (lru (snd (cache_cleanup now c)))"
      using that map_of_lru [OF cache_inv_cleanup [OF inv]] by (metis map_of_SomeD)
    then have "(k, e) \<in> set (lru c)" using cache_cleanup_spec(1) [OF inv] by simp
    then show ?thesis using map_of_lru [OF inv] distinct_lru [OF inv] by (metis map_of_is_SomeI)
  qed
  then show ?thesis using h by (auto simp: honest_cache_def)
qed

lemma run_attempt_orch: "orch_step (sy_orch s) (sy_orch (snd (run_attempt zone k a s)))"
proof (cases k)
  case Task_Reindex
  have "cache_peek (cache_set_version v c) = cache_peek c" for v c
    by (rule ext) (simp add: cache_peek_def cache_set_version_def split: option.split)
  moreover have "c_enabled (cache_set_version v c) = c_enabled c" "c_ttl (cache_set_version v c) = c_ttl c" for v c
    by (simp_all add: cache_set_version_def)
  ultimately show ?thesis
    by (auto simp: Task_Reindex run_attempt_def task_reindex_def Let_def orch_step_def orch_inv_def honest_cache_def
        split: option.split intro: cache_inv_set_version)
next
  case Task_Cleanup
  then show ?thesis
    by (auto simp: run_attempt_def task_cache_cleanup_def Let_def case_prod_beta orch_step_def orch_inv_def
        intro: inv_intros cleanup_honest) (simp_all add: cache_cleanup_def cleanup_keys_config)
qed (simp_all add: run_attempt_def task_embed_def task_embed_full_def)

subsection \<open>All calls\<close>

lemma task_name_inject [simp]: "task_name k = task_name k' \<longleftrightarrow> k = k'"
  by (cases k; cases k') simp_all

text \<open>The map of running tasks is the set of the calls under way; no task has two, and none has had more than its attempts.\<close>

definition sched_inv :: "world \<Rightarrow> bool" where
  "sched_inv w \<longleftrightarrow>
     (\<forall>name. mget (sn_running (sy_sched (wd_sys w))) name =
        (if name \<in> (\<lambda>r. task_name (tr_task r)) ` set (wd_runs w) then Some True else None)) \<and>
     distinct (map tr_task (wd_runs w)) \<and> (\<forall>r\<in>set (wd_runs w). tr_tries r \<le> max_retries)"

definition tries_left :: "world \<Rightarrow> nat" where
  "tries_left w = sum_list (map (\<lambda>r. Suc max_retries - tr_tries r) (wd_runs w))"

lemma after_attempt_props:
  assumes "after_attempt r a e = Some r'" and "tr_tries r \<le> max_retries"
  shows "tr_task r' = tr_task r" and "tr_tries r' \<le> max_retries" and "tr_tries r' = Suc (tr_tries r)" and "e \<noteq> None"
    and "tr_ready r' = at_time a + retry_delay (tr_tries r')"
  using assms by (auto simp: after_attempt_def split: option.splits if_splits)

lemma sched_step_inv:
  assumes "sched_step zone w ev w'" and "sched_inv w"
  shows "sched_inv w'"
  using assms(1)
proof cases
  case (started k sd t)
  have sd: "sn_running sd = mput (task_name k) True (sn_running (sy_sched (wd_sys w)))"
    and n: "mget (sn_running (sy_sched (wd_sys w))) (task_name k) \<noteq> Some True"
    using started(3) by (auto simp: begin_task_def split: if_splits)
  then have "k \<notin> tr_task ` set (wd_runs w)" using assms(2) by (auto simp: sched_inv_def image_iff split: if_splits)
  then show ?thesis using assms(2) by (auto simp: sched_inv_def started(2) sd)
next
  case (sleeps xs r ys k a e s r')
  have "tr_tries r \<le> max_retries" using assms(2) sleeps(3) by (simp add: sched_inv_def)
  note p = after_attempt_props(1,2) [OF sleeps(7) this]
  have "sn_running (sy_sched s) = sn_running (sy_sched (wd_sys w))"
    using run_attempt_running [of zone k a "wd_sys w"] sleeps(6) by simp
  then show ?thesis using assms(2) p by (simp add: sched_inv_def sleeps(2,3))
next
  case (ends xs r ys k a e s)
  have "sn_running (sy_sched s) = sn_running (sy_sched (wd_sys w))"
    using run_attempt_running [of zone k a "wd_sys w"] ends(6) by simp
  moreover have "k \<notin> tr_task ` set xs" "k \<notin> tr_task ` set ys" using assms(2) ends(3,4) by (auto simp: sched_inv_def)
  ultimately show ?thesis using assms(2) ends(4) by (auto simp: sched_inv_def ends(2,3) end_task_def image_iff)
qed (use assms(2) in \<open>simp_all add: sched_inv_def\<close>)

lemma sched_step_tries:
  assumes "sched_step zone w ev w'" and "sched_inv w"
  shows "tries_left w' + (case ev of Attempted k a \<Rightarrow> 1 | _ \<Rightarrow> 0) \<le>
    tries_left w + (case ev of Triggered k t \<Rightarrow> Suc max_retries | _ \<Rightarrow> 0)"
  using assms(1)
proof cases
  case (sleeps xs r ys k a e s r')
  have t: "tr_tries r \<le> max_retries" using assms(2) sleeps(3) by (simp add: sched_inv_def)
  note p = after_attempt_props(2,3) [OF sleeps(7) t]
  then show ?thesis by (simp add: tries_left_def sleeps(1-3))
next
  case (ends xs r ys k a e s)
  have "tr_tries r \<le> max_retries" using assms(2) ends(3) by (simp add: sched_inv_def)
  then show ?thesis by (simp add: tries_left_def ends(1-3))
qed (simp_all add: tries_left_def)

lemma sched_inv_new: "sched_inv (world_new now cfg)" "tries_left (world_new now cfg) = 0"
  by (simp_all add: sched_inv_def tries_left_def world_new_def sched_new_def)

definition triggers :: "sevent list \<Rightarrow> nat" where
  "triggers evs = length (filter (\<lambda>ev. case ev of Triggered k t \<Rightarrow> True | _ \<Rightarrow> False) evs)"

definition attempts :: "sevent list \<Rightarrow> nat" where
  "attempts evs = length (filter (\<lambda>ev. case ev of Attempted k a \<Rightarrow> True | _ \<Rightarrow> False) evs)"

lemma sched_path_inv:
  assumes "sched_path zone w0 evs w" and "sched_inv w0"
  shows "sched_inv w" and "attempts evs + tries_left w \<le> Suc max_retries * triggers evs + tries_left w0"
proof -
  have "sched_inv w \<and> attempts evs + tries_left w \<le> Suc max_retries * triggers evs + tries_left w0"
    using assms
  proof induction
    case (step w evs w' ev w'')
    then have "sched_inv w'" by blast
    with step sched_step_inv [OF step.hyps(2)] sched_step_tries [OF step.hyps(2)] show ?case
      by (cases ev) (auto simp: attempts_def triggers_def)
  qed (simp add: attempts_def triggers_def)
  then show "sched_inv w" and "attempts evs + tries_left w \<le> Suc max_retries * triggers evs + tries_left w0" by blast+
qed

lemma sched_path_orch:
  assumes "sched_path zone w0 evs w"
  shows "orch_step (sy_orch (wd_sys w0)) (sy_orch (wd_sys w))"
  using assms
proof induction
  case (step w evs w' ev w'')
  have "orch_step (sy_orch (wd_sys w')) (sy_orch (wd_sys w''))"
    using step.hyps(2)
  proof cases
    case (sleeps xs r ys k a e s r')
    then show ?thesis using run_attempt_orch [of "wd_sys w'" zone k a] by simp
  next
    case (ends xs r ys k a e s)
    then show ?thesis using run_attempt_orch [of "wd_sys w'" zone k a] by simp
  qed simp_all
  then show ?case by (rule orch_step_trans [OF step.IH])
qed simp

text \<open>An attempt that is due can be made, and it uses up one of the tries that are left.\<close>

lemma due_attempt:
  assumes "sched_inv w" and "r \<in> set (wd_runs w)" and "tr_ready r \<le> at_time a"
  shows "\<exists>w'. sched_step zone w (Attempted (tr_task r) a) w' \<and> tries_left w' < tries_left w"
proof -
  obtain xs ys where r: "wd_runs w = xs @ r # ys" using assms(2) by (meson split_list)
  obtain e s where s: "run_attempt zone (tr_task r) a (wd_sys w) = (e, s)" by fastforce
  have "\<exists>w'. sched_step zone w (Attempted (tr_task r) a) w'"
  proof (cases "after_attempt r a e")
    case None
    show ?thesis using sched_step.ends [OF r refl assms(3) s None] by blast
  next
    case (Some r')
    show ?thesis using sched_step.sleeps [OF r refl assms(3) s Some] by blast
  qed
  then obtain w' where "sched_step zone w (Attempted (tr_task r) a) w'" by blast
  with sched_step_tries [OF this assms(1)] show ?thesis by (intro exI [of _ w']) simp
qed

lemma reindex_get:
  assumes "c_version_aware (or_cache (sy_orch s))" and "run_attempt zone Task_Reindex a s = (None, s')"
    and "cache_inv (or_cache (sy_orch s))" and "fst (cache_get now key (or_cache (sy_orch s'))) = Some e"
  shows "en_index_version e = format_stamp zone (at_time a)"
proof -
  have c: "or_cache (sy_orch s') = cache_set_version (format_stamp zone (at_time a)) (or_cache (sy_orch s))"
    using assms(2) by (auto simp: run_attempt_def task_reindex_def Let_def split: option.splits)
  then have "cache_inv (or_cache (sy_orch s'))" using assms(3) by (simp add: cache_inv_set_version)
  with assms(4) have "\<not> version_mismatch (or_cache (sy_orch s')) e"
    by (auto simp: cache_get_live cache_live_def entry_fresh_def split: option.splits if_splits)
  then show ?thesis using assms(1) by (simp add: version_mismatch_def c cache_set_version_def)
qed

definition reindexed :: "(int \<Rightarrow> int) \<Rightarrow> time \<Rightarrow> orch \<Rightarrow> orch" where
  "reindexed zone t st = sy_orch (snd (run_attempt zone Task_Reindex \<lparr>at_answer = None, at_time = t\<rparr>
     \<lparr>sy_sched = sched_new, sy_orch = st\<rparr>))"

lemma reindexed_step: "orch_step st (reindexed zone t st)"
  using run_attempt_orch [of "\<lparr>sy_sched = sched_new, sy_orch = st\<rparr>"] by (simp add: reindexed_def)

lemma reindexed_version: "c_version (or_cache (reindexed zone t st)) = format_stamp zone t"
  by (simp add: reindexed_def run_attempt_def task_reindex_def Let_def cache_set_version_def)

subsection \<open>Properties\<close>

text \<open>C20: A task runs once at a time, whoever triggers it: in every reachable state the calls under way are calls of different
  tasks, they are exactly the tasks marked as running, and none has made more than its three retries; the
  cache and the negative cache keep their invariants.\<close>

theorem tasks_run_once_at_a_time:
  assumes "sched_path zone (world_new now cfg) evs w"
  shows "distinct (map tr_task (wd_runs w)) \<and>
    (\<forall>k. mget (sn_running (sy_sched (wd_sys w))) (task_name k) = Some True \<longleftrightarrow> k \<in> tr_task ` set (wd_runs w)) \<and>
    (\<forall>r\<in>set (wd_runs w). tr_tries r \<le> 3) \<and> orch_inv (sy_orch (wd_sys w))"
proof -
  have "orch_inv (sy_orch (wd_sys (world_new now cfg)))" by (simp add: world_new_def orch_inv_new)
  then have "orch_inv (sy_orch (wd_sys w))" using sched_path_orch [OF assms] by (simp add: orch_step_def)
  moreover have "sched_inv w" by (rule sched_path_inv(1) [OF assms sched_inv_new(1)])
  ultimately show ?thesis by (auto simp: sched_inv_def max_retries_def image_iff)
qed

definition demo_failed :: attempt where
  "demo_failed = \<lparr>at_answer = Some (plain_err ''exit status 1''), at_time = 10\<rparr>"

lemma demo_path:
  obtains w where "sched_path (\<lambda>u. 0) (world_new 0 demo_cfg)
      [Triggered Task_Reindex 5, Triggered Task_Reindex 7, Attempted Task_Reindex demo_failed] w"
    and "map tr_tries (wd_runs w) = [1]" and "map tr_task (wd_runs w) = [Task_Reindex]"
proof -
  let ?w0 = "world_new 0 demo_cfg" and ?z = "\<lambda>u. 0 :: int"
  let ?sd = "sched_new\<lparr>sn_running := mput ''index_refresh'' True []\<rparr>"
  let ?r = "\<lparr>tr_task = Task_Reindex, tr_tries = 0, tr_ready = 5\<rparr>"
  let ?w1 = "?w0\<lparr>wd_sys := (wd_sys ?w0)\<lparr>sy_sched := ?sd\<rparr>, wd_runs := wd_runs ?w0 @ [?r]\<rparr>"
  let ?r' = "\<lparr>tr_task = Task_Reindex, tr_tries = 1, tr_ready = 10 + retry_delay 1\<rparr>"
  let ?w2 = "?w1\<lparr>wd_sys := wd_sys ?w1, wd_runs := [] @ ?r' # []\<rparr>"
  have a: "sched_step ?z ?w0 (Triggered Task_Reindex 5) ?w1"
    by (rule sched_step.started) (simp add: begin_task_def world_new_def sched_new_def)
  have b: "sched_step ?z ?w1 (Triggered Task_Reindex 7) ?w1"
    by (rule sched_step.skipped) (simp add: begin_task_def)
  have c: "sched_step ?z ?w1 (Attempted Task_Reindex demo_failed) ?w2"
  proof (rule sched_step.sleeps [where r = ?r])
    show "run_attempt ?z Task_Reindex demo_failed (wd_sys ?w1) = (Some (plain_err ''exit status 1''), wd_sys ?w1)"
      by (simp add: run_attempt_def task_reindex_def demo_failed_def)
  qed (simp_all add: after_attempt_def demo_failed_def max_retries_def world_new_def)
  have "sched_path ?z ?w0 ((([] @ [Triggered Task_Reindex 5]) @ [Triggered Task_Reindex 7]) @
      [Attempted Task_Reindex demo_failed]) ?w2"
    by (rule sched_path.step [OF sched_path.step [OF sched_path.step [OF sched_path.start a] b] c])
  then show ?thesis by (intro that [of ?w2]) simp_all
qed

lemma tasks_run_once_at_a_time_witness:
  "\<exists>w :: world. map tr_tries (wd_runs w) = [1] \<and> mget (sn_running (sy_sched (wd_sys w))) (task_name Task_Reindex) = Some True \<and>
     distinct (map tr_task (wd_runs w))"
proof -
  obtain w where w: "sched_path (\<lambda>u. 0) (world_new 0 demo_cfg)
      [Triggered Task_Reindex 5, Triggered Task_Reindex 7, Attempted Task_Reindex demo_failed] w"
    and r: "map tr_tries (wd_runs w) = [1]" "map tr_task (wd_runs w) = [Task_Reindex]" by (rule demo_path)
  have "tr_task ` set (wd_runs w) = {Task_Reindex}" using arg_cong [OF r(2), of set] by simp
  then have "mget (sn_running (sy_sched (wd_sys w))) (task_name Task_Reindex) = Some True"
    using tasks_run_once_at_a_time [OF w] by blast
  with tasks_run_once_at_a_time [OF w] r(1) show ?thesis by (intro exI [of _ w]) blast
qed

text \<open>C21: Every task that was triggered ends: all its attempts together are bounded by four for each trigger, and while a
  call is under way its next attempt can be made as soon as its delay is over and brings that bound closer.\<close>

theorem triggered_tasks_end:
  assumes "sched_path zone (world_new now cfg) evs w"
  shows "attempts evs + tries_left w \<le> 4 * triggers evs \<and> (tries_left w = 0 \<longleftrightarrow> wd_runs w = []) \<and>
    (\<forall>r\<in>set (wd_runs w). \<forall>a. tr_ready r \<le> at_time a \<longrightarrow>
       (\<exists>w'. sched_step zone w (Attempted (tr_task r) a) w' \<and> tries_left w' < tries_left w))"
proof (intro conjI ballI allI impI)
  note i = sched_path_inv [OF assms sched_inv_new(1)]
  show "attempts evs + tries_left w \<le> 4 * triggers evs" using i(2) by (simp add: sched_inv_new(2) max_retries_def)
  show "tries_left w = 0 \<longleftrightarrow> wd_runs w = []"
    using i(1) by (cases "wd_runs w") (auto simp: tries_left_def sched_inv_def)
  show "\<exists>w'. sched_step zone w (Attempted (tr_task r) a) w' \<and> tries_left w' < tries_left w"
    if "r \<in> set (wd_runs w)" "tr_ready r \<le> at_time a" for r a
    by (rule due_attempt [OF i(1) that])
qed

lemma triggered_tasks_end_witness:
  "\<exists>w :: world. tries_left w = 3 \<and> 1 + tries_left w \<le> 4 * triggers [Triggered Task_Reindex 5, Triggered Task_Reindex 7,
     Attempted Task_Reindex demo_failed]"
proof -
  let ?evs = "[Triggered Task_Reindex 5, Triggered Task_Reindex 7, Attempted Task_Reindex demo_failed]"
  obtain w where w: "sched_path (\<lambda>u. 0) (world_new 0 demo_cfg) ?evs w"
    and r: "map tr_tries (wd_runs w) = [1]" "map tr_task (wd_runs w) = [Task_Reindex]" by (rule demo_path)
  have "attempts ?evs = 1" by (simp add: attempts_def)
  moreover have "tries_left w = 3" using r by (auto simp: tries_left_def max_retries_def)
  ultimately show ?thesis using triggered_tasks_end [OF w] by (intro exI [of _ w]) simp
qed

text \<open>C23: What a trigger reports: success when the task is already running (it is then not run), success when one of its at
  most four attempts succeeded, and otherwise the error of the last attempt, whatever others do in between.\<close>

theorem trigger_reports_last_error:
  "fst (run_task te k s) =
     (if begin_task (task_name k) (sy_sched s) = None \<or> (\<exists>j\<le>3. attempt_ok k (te_attempt te j)) then None
      else at_answer (te_attempt te 3)) \<and>
   (begin_task (task_name k) (sy_sched s) = None \<longrightarrow> snd (run_task te k s) = s)"
proof (cases "begin_task (task_name k) (sy_sched s)")
  case (Some sd)
  obtain e s1 where r: "run_attempt (te_zone te) k (te_attempt te 0) (te_others te 0 (s\<lparr>sy_sched := sd\<rparr>)) = (e, s1)" by fastforce
  have e: "e = (if attempt_ok k (te_attempt te 0) then None else at_answer (te_attempt te 0))"
    using run_attempt_answer [of "te_zone te" k "te_attempt te 0"] r by (metis fst_conv)
  have j: "(\<exists>j\<le>3. P j) \<longleftrightarrow> P 0 \<or> (\<exists>j\<in>{1..3}. P j)" for P :: "nat \<Rightarrow> bool"
    by (metis One_nat_def Suc_leI atLeastAtMost_iff gr0I le0)
  show ?thesis
    using retry_answer [of te k max_retries 1 None s1]
    by (cases e) (use e in \<open>auto simp: run_task_def Some r Let_def case_prod_beta j max_retries_def attempt_ok_def split: if_splits\<close>)
qed (simp add: run_task_def)

lemma trigger_reports_last_error_witness:
  "fst (run_task \<lparr>te_zone = (\<lambda>u. 0), te_attempt = (\<lambda>i. demo_failed), te_others = (\<lambda>i s. s)\<rparr> Task_Embed
      \<lparr>sy_sched = sched_new, sy_orch = orch_new 0 demo_cfg\<rparr>) = Some (plain_err ''exit status 1'')"
  by (subst trigger_reports_last_error [THEN conjunct1])
     (simp add: begin_task_def sched_new_def attempt_ok_def demo_failed_def)

text \<open>C24: After an index refresh a version-aware cache serves nothing that was stored under an earlier second of local time: the
  version of every entry it still serves is the second of the refresh.\<close>

theorem refresh_hides_older_entries:
  assumes "c_version_aware (or_cache (sy_orch s))" and "orch_inv (sy_orch s)"
    and "run_attempt zone Task_Reindex a s = (None, s')"
    and "fst (cache_get now key (or_cache (sy_orch s'))) = Some e" and "en_index_version e = format_stamp zone t"
    and "four_digit_year (local_second zone t)" and "four_digit_year (local_second zone (at_time a))"
  shows "local_second zone t = local_second zone (at_time a)"
proof -
  have "cache_inv (or_cache (sy_orch s))" using assms(2) by (simp add: orch_inv_def)
  with reindex_get [OF assms(1,3) _ assms(4)] assms(5) have "format_stamp zone t = format_stamp zone (at_time a)" by simp
  then show ?thesis using format_stamp_inject [OF assms(6,7)] by blast
qed

text \<open>Two refreshes within one second: what was stored between them is still served after the second.\<close>

lemma demo_refreshes:
  obtains s s' e where "c_version_aware (or_cache (sy_orch s))" and "orch_inv (sy_orch s)"
    and "run_attempt (\<lambda>u. 0) Task_Reindex \<lparr>at_answer = None, at_time = 7\<rparr> s = (None, s')"
    and "fst (cache_get 8 ''k'' (or_cache (sy_orch s'))) = Some e" and "en_index_version e = format_stamp (\<lambda>u. 0) 5"
proof -
  let ?z = "\<lambda>u. 0 :: int"
  let ?st = "cache_results 6 ''k'' [] ''search'' [] False False [] (reindexed ?z 5 (orch_new 0 demo_cfg))"
  let ?s = "\<lparr>sy_sched = sched_new, sy_orch = ?st\<rparr> :: sched_sys"
  let ?c = "or_cache ?st"
  have v: "format_stamp ?z 7 = format_stamp ?z 5" by (simp add: format_stamp_def local_second_def)
  have inv: "orch_inv ?st"
    using orch_inv_new reindexed_step cache_results_step unfolding orch_step_def by fastforce
  have c: "?c = cache_put 6 ''k'' \<lparr>en_results = [], en_index_version = [], en_created_at = 0, en_query = ''k'', en_mode = ''search'',
      en_collection = [], en_fallback_triggered = False, en_degraded = False, en_degrade_reason = []\<rparr>
      (cache_set_version (format_stamp ?z 5) (cache_new (cf_cache demo_cfg)))"
    by (simp add: cache_results_def reindexed_def run_attempt_def task_reindex_def Let_def orch_new_def)
  obtain s' where s': "run_attempt ?z Task_Reindex \<lparr>at_answer = None, at_time = 7\<rparr> ?s = (None, s')"
    "or_cache (sy_orch s') = cache_set_version (format_stamp ?z 5) ?c"
    by (simp add: run_attempt_def task_reindex_def Let_def v)
  have "\<exists>e. fst (cache_get 8 ''k'' (or_cache (sy_orch s'))) = Some e \<and> en_index_version e = format_stamp ?z 5"
    unfolding s'(2) c
    by (simp add: cache_put_def cache_set_version_def cache_new_def demo_cfg_def cache_get_def Let_def stamp_def
        entry_expired_def version_mismatch_def)
  then obtain e where "fst (cache_get 8 ''k'' (or_cache (sy_orch s'))) = Some e" "en_index_version e = format_stamp ?z 5" by blast
  moreover have "c_version_aware ?c"
    unfolding c by (simp add: cache_put_def cache_set_version_def cache_new_def demo_cfg_def Let_def)
  ultimately show ?thesis using inv s'(1) by (intro that [of ?s s' e]) simp_all
qed

lemma refresh_hides_older_entries_witness: "local_second (\<lambda>u. 0) 5 = local_second (\<lambda>u. 0) 7"
proof -
  obtain s :: sched_sys and s' e where r: "c_version_aware (or_cache (sy_orch s))" "orch_inv (sy_orch s)"
    "run_attempt (\<lambda>u. 0) Task_Reindex \<lparr>at_answer = None, at_time = 7\<rparr> s = (None, s')"
    "fst (cache_get 8 ''k'' (or_cache (sy_orch s'))) = Some e" "en_index_version e = format_stamp (\<lambda>u. 0) 5"
    by (rule demo_refreshes)
  show ?thesis
    using refresh_hides_older_entries [OF r] by (simp add: four_digit_year_def local_second_def)
qed

text \<open>A search that was under way during an index refresh stores what it found before it under the version after it: the
  repetition of the search is answered with the old hits, although the cache is version aware.\<close>

theorem stale_hits_survive_refresh:
  assumes "orch_inv st" and "c_enabled (or_cache st)"
    and "\<And>i x. ev_others env i x = (if i = 2 then reindexed zone t x else x)"
    and "fst (search env cfg ctx params st) = Inr res" and "\<not> sm_cache_hit (out_meta res)"
    and "ck_get (ev_clock env') - ck_put (ev_clock env) \<le> c_ttl (or_cache st)"
  shows "\<exists>res'. fst (search env' cfg ctx' params (snd (search env cfg ctx params st))) = Inr res' \<and>
    out_results res' = out_results res \<and> sm_cache_hit (out_meta res') \<and>
    c_version (or_cache (reindexed zone t st)) = format_stamp zone t"
proof -
  have ok: "others_ok env" using reindexed_step [of _ zone t] by (simp add: others_ok_def assms(3) orch_step_def)
  from search_stores [OF assms(1) ok _ assms(2,4-6)] obtain e where
    e: "fst (cache_get (ck_get (ev_clock env')) (params_key (effective_params cfg params))
        (or_cache (snd (search env cfg ctx params st)))) = Some e" "en_results e = out_results res"
    by (auto simp: assms(3))
  show ?thesis using search_hit [OF e(1)] e(2) by (auto simp: cached_outcome_def build_meta_def reindexed_version)
qed

definition demo_refresh_env :: env where
  "demo_refresh_env = (demo_env demo_exec 5)\<lparr>ev_others := (\<lambda>i x. if i = 2 then reindexed (\<lambda>u. 0) (946684800 * second) x else x)\<rparr>"

lemma stale_hits_survive_refresh_witness:
  "\<exists>res' :: search_outcome. sm_cache_hit (out_meta res') \<and> map sr_docid (out_results res') = [''#1'']"
proof -
  have "(case fst (search demo_refresh_env demo_cfg demo_ctx (demo_params [] False) (orch_new 0 demo_cfg)) of
     Inl e \<Rightarrow> False | Inr r \<Rightarrow> map sr_docid (out_results r) = [''#1''] \<and> \<not> sm_cache_hit (out_meta r))"
    by code_simp
  then obtain r where r: "fst (search demo_refresh_env demo_cfg demo_ctx (demo_params [] False) (orch_new 0 demo_cfg)) = Inr r"
    "map sr_docid (out_results r) = [''#1'']" "\<not> sm_cache_hit (out_meta r)" by (auto split: sum.splits)
  have o: "ev_others demo_refresh_env i x = (if i = 2 then reindexed (\<lambda>u. 0) (946684800 * second) x else x)" for i x
    by (simp add: demo_refresh_env_def)
  have t: "ck_get (ev_clock (demo_env broken_exec 9)) - ck_put (ev_clock demo_refresh_env) \<le> c_ttl (or_cache (orch_new 0 demo_cfg))"
    by (simp add: demo_enabled) (simp add: demo_refresh_env_def demo_env_def demo_clock_def)
  from stale_hits_survive_refresh [OF orch_inv_new demo_enabled(1) o r(1,3) t, of demo_ctx] r(2) show ?thesis by metis
qed

text \<open>The version text of a refresh reads back as the second of local time at which it was taken.\<close>

theorem version_tells_the_second:
  assumes "run_attempt zone Task_Reindex a s = (None, s')" and "four_digit_year (local_second zone (at_time a))"
  shows "read_stamp (c_version (or_cache (sy_orch s'))) = local_second zone (at_time a)"
proof -
  have "c_version (or_cache (sy_orch s')) = format_stamp zone (at_time a)"
    using assms(1) by (auto simp: run_attempt_def task_reindex_def Let_def cache_set_version_def split: option.splits)
  then show ?thesis using read_format_stamp [OF assms(2)] by simp
qed

lemma version_tells_the_second_witness:
  "read_stamp (format_stamp (\<lambda>u. 3600) (1700000000 * second)) = 1700003600"
proof -
  let ?s = "\<lparr>sy_sched = sched_new, sy_orch = orch_new 0 demo_cfg\<rparr> :: sched_sys"
  obtain s' where s': "run_attempt (\<lambda>u. 3600) Task_Reindex \<lparr>at_answer = None, at_time = 1700000000 * second\<rparr> ?s = (None, s')"
    "c_version (or_cache (sy_orch s')) = format_stamp (\<lambda>u. 3600) (1700000000 * second)"
    by (simp add: run_attempt_def task_reindex_def Let_def cache_set_version_def)
  from version_tells_the_second [OF s'(1)] s'(2) show ?thesis by (simp add: four_digit_year_def local_second_def)
qed

end
