(* ===== verification/Go_Decode.thy ===== *)
theory Go_Decode
  imports Go_Json Go_Time
begin

text \<open>
  What the program reads with the standard library: \<open>strconv.ParseFloat\<close>, a record of \<open>encoding/csv\<close>, a time
  in RFC 3339, and JSON values into Go values with \<open>json.Unmarshal\<close>. A decoder takes the old value and the JSON
  value; \<open>None\<close> is an error (the library goes on after a value of the wrong type and reports it in the end; the
  program never looks at what was decoded in that case).
\<close>

subsection \<open>Rounding to binary64\<close>

fun bit_len :: "nat \<Rightarrow> nat" where
  "bit_len n = (if n = 0 then 0 else Suc (bit_len (n div 2)))"

declare bit_len.simps [simp del]

definition pow2 :: "int \<Rightarrow> rat" where
  "pow2 e = (if 0 \<le> e then 2 ^ nat e else 1 / 2 ^ nat (- e))"

text \<open>The exponent of the last bit: 53 bits of mantissa, no smaller than that of the subnormal numbers.\<close>

definition ulp_exp :: "rat \<Rightarrow> int" where
  "ulp_exp r =
     (let (a, b) = quotient_of \<bar>r\<bar>; e = int (bit_len (nat a)) - int (bit_len (nat b)) - 53;
          e = (if 2 ^ 53 \<le> \<bar>r\<bar> / pow2 e then e + 1 else e)
      in max e (- 1074))"

definition round64 :: "rat \<Rightarrow> f64 option" where
  "round64 r =
     (if r = 0 then Some (Fin 0)
      else let e = ulp_exp r; v = of_int (round_half_even (\<bar>r\<bar> / pow2 e)) * pow2 e
           in if 2 ^ 1024 \<le> v then None else Some (Fin (if r < 0 then - v else v)))"

subsection \<open>ParseFloat\<close>

definition lower_byte :: "char \<Rightarrow> nat" where
  "lower_byte c = (let b = byte_of c in if 65 \<le> b \<and> b \<le> 90 then b + 32 else b)"

fun common_fold :: "string \<Rightarrow> string \<Rightarrow> nat" where
  "common_fold (c # cs) (p # ps) = (if lower_byte c = byte_of p then Suc (common_fold cs ps) else 0)"
| "common_fold _ _ = 0"

definition special_float :: "string \<Rightarrow> f64 option" where
  "special_float s =
     (let inf = (\<lambda>x t. let n = common_fold t ''infinity'' in
            if (if 3 < n \<and> n < 8 then 3 else n) = length t \<and> (n = 8 \<or> 3 \<le> n) then Some x else None)
      in case s of
           [] \<Rightarrow> None
         | c # cs \<Rightarrow>
             if c = CHR ''+'' then inf PosInf cs
             else if c = CHR ''-'' then inf NegInf cs
             else if lower_byte c = 105 then inf PosInf s
             else if lower_byte c = 110 \<and> common_fold s ''nan'' = 3 \<and> length s = 3 then Some NaN
             else None)"

datatype underscore_saw = Saw_Begin | Saw_Digit | Saw_Under | Saw_Other

definition digit_in :: "bool \<Rightarrow> char \<Rightarrow> bool" where
  "digit_in hex c \<longleftrightarrow> is_digit c \<or> hex \<and> 97 \<le> lower_byte c \<and> lower_byte c \<le> 102"

definition digit_val :: "char \<Rightarrow> nat" where
  "digit_val c = (if is_digit c then byte_of c - 48 else lower_byte c - 87)"

fun underscore_from :: "bool \<Rightarrow> underscore_saw \<Rightarrow> string \<Rightarrow> bool" where
  "underscore_from hex saw [] = (saw \<noteq> Saw_Under)"
| "underscore_from hex saw (c # cs) =
     (if digit_in hex c then underscore_from hex Saw_Digit cs
      else if c = CHR ''_'' then (saw = Saw_Digit \<and> underscore_from hex Saw_Under cs)
      else if saw = Saw_Under then False
      else underscore_from hex Saw_Other cs)"

definition drop_sign :: "string \<Rightarrow> bool \<times> string" where
  "drop_sign s = (case s of c # cs \<Rightarrow> if c = CHR ''+'' then (False, cs) else if c = CHR ''-'' then (True, cs) else (False, s)
                  | [] \<Rightarrow> (False, []))"

definition underscore_ok :: "string \<Rightarrow> bool" where
  "underscore_ok s =
     (let t = snd (drop_sign s) in
      case t of
        z # p # r \<Rightarrow>
          if z = CHR ''0'' \<and> lower_byte p \<in> {98, 111, 120} then underscore_from (lower_byte p = 120) Saw_Digit r
          else underscore_from False Saw_Begin t
      | _ \<Rightarrow> underscore_from False Saw_Begin t)"

text \<open>The mantissa: its digits as a number, how many of them follow the point, whether there were any, and the rest.\<close>

fun scan_mantissa :: "bool \<Rightarrow> bool \<Rightarrow> bool \<Rightarrow> nat \<Rightarrow> nat \<Rightarrow> string \<Rightarrow> bool \<times> nat \<times> nat \<times> string" where
  "scan_mantissa hex pt any m k [] = (any, m, k, [])"
| "scan_mantissa hex pt any m k (c # cs) =
     (if c = CHR ''_'' then scan_mantissa hex pt any m k cs
      else if c = CHR ''.'' then (if pt then (any, m, k, c # cs) else scan_mantissa hex True any m k cs)
      else if digit_in hex c then
        scan_mantissa hex pt True ((if hex then 16 else 10) * m + digit_val c) (if pt then Suc k else k) cs
      else (any, m, k, c # cs))"

fun scan_exponent :: "int \<Rightarrow> string \<Rightarrow> int \<times> string" where
  "scan_exponent e [] = (e, [])"
| "scan_exponent e (c # cs) =
     (if is_digit c then scan_exponent (if e < 10000 then 10 * e + int (byte_of c - 48) else e) cs
      else if c = CHR ''_'' then scan_exponent e cs
      else (e, c # cs))"

definition pow10 :: "int \<Rightarrow> rat" where
  "pow10 e = (if 0 \<le> e then 10 ^ nat e else 1 / 10 ^ nat (- e))"

definition parse_float :: "string \<Rightarrow> f64 option" where
  "parse_float s =
     (case special_float s of
        Some x \<Rightarrow> Some x
      | None \<Rightarrow>
          let (neg, t) = drop_sign s;
              hex = (case t of z # p # d # r \<Rightarrow> z = CHR ''0'' \<and> lower_byte p = 120 | _ \<Rightarrow> False);
              (any, m, k, u) = scan_mantissa hex False False 0 0 (if hex then drop 2 t else t);
              (ok, e, rest) =
                (case u of
                   c # v \<Rightarrow>
                     if lower_byte c = (if hex then 112 else 101) then
                       (let (eneg, w) = drop_sign v in
                        case w of
                          d # _ \<Rightarrow> if is_digit d then (let (e, r) = scan_exponent 0 w in (True, if eneg then - e else e, r))
                                   else (False, 0, u)
                        | [] \<Rightarrow> (False, 0, u))
                     else (\<not> hex, 0, u)
                 | [] \<Rightarrow> (\<not> hex, 0, []));
              r = (if hex then of_nat m * pow2 (e - 4 * int k) else of_nat m * pow10 (e - int k))
          in if any \<and> ok \<and> rest = [] \<and> (CHR ''_'' \<in> set s \<longrightarrow> underscore_ok s)
             then round64 (if neg then - r else r) else None)"

subsection \<open>A record of comma separated values\<close>

text \<open>One nonempty line without line break, with the default settings of \<open>csv.Reader\<close>. \<open>csv_quoted\<close> reads on
  inside quotes, where \<open>f\<close> is what the field has so far.\<close>

fun csv_quoted :: "string \<Rightarrow> string \<Rightarrow> (string \<times> string option) option" where
  "csv_quoted f [] = None"
| "csv_quoted f (c # cs) =
     (if byte_of c \<noteq> 34 then csv_quoted (f @ [c]) cs
      else case cs of
             [] \<Rightarrow> Some (f, None)
           | d # ds \<Rightarrow> if byte_of d = 34 then csv_quoted (f @ [d]) ds
                     else if d = CHR '','' then Some (f, Some ds)
                     else None)"

lemma csv_quoted_shorter: "csv_quoted f s = Some (x, Some r) \<Longrightarrow> length r < length s"
  by (induction f s rule: csv_quoted.induct) (fastforce split: if_splits list.splits)+

lemma dropWhile_Cons_shorter: "dropWhile P s = x # r \<Longrightarrow> length r < length s"
  using length_dropWhile_le [of P s] by simp

function csv_fields :: "string \<Rightarrow> string list option" where
  "csv_fields s =
     (case s of
        c # cs \<Rightarrow>
          if byte_of c = 34 then
            (case csv_quoted [] cs of
               None \<Rightarrow> None
             | Some (f, None) \<Rightarrow> Some [f]
             | Some (f, Some r) \<Rightarrow> map_option (Cons f) (csv_fields r))
          else
            let f = takeWhile (\<lambda>c. c \<noteq> CHR '','') s; r = dropWhile (\<lambda>c. c \<noteq> CHR '','') s
            in if list_ex (\<lambda>c. byte_of c = 34) f then None
               else (case r of [] \<Rightarrow> Some [f] | x # r \<Rightarrow> map_option (Cons f) (csv_fields r))
      | [] \<Rightarrow> Some [[]])"
  by pat_completeness auto
termination
  by (relation "measure length") (auto split: if_splits dest: csv_quoted_shorter dest!: dropWhile_Cons_shorter [OF sym])

declare csv_fields.simps [simp del]

subsection \<open>RFC 3339\<close>

definition digits_in :: "nat \<Rightarrow> nat \<Rightarrow> string \<Rightarrow> nat option" where
  "digits_in lo hi s =
     (if list_all is_digit s \<and> lo \<le> digits_value s \<and> digits_value s \<le> hi then Some (digits_value s) else None)"

definition month_days :: "nat \<Rightarrow> nat \<Rightarrow> nat" where
  "month_days y m = month_lens y ! (m - 1)"

definition nanoseconds :: "string \<Rightarrow> int" where
  "nanoseconds ds = int (digits_value (take 9 (ds @ replicate 9 (CHR ''0''))))"

definition zone_offset :: "string \<Rightarrow> int option" where
  "zone_offset z =
     (if z = ''Z'' then Some 0
      else if length z \<noteq> 6 then None
      else case (digits_in 0 23 (take 2 (drop 1 z)), digits_in 0 59 (drop 4 z)) of
             (Some h, Some m) \<Rightarrow>
               if (z ! 0 = CHR ''-'' \<or> z ! 0 = CHR ''+'') \<and> z ! 3 = CHR '':''
               then Some ((if z ! 0 = CHR ''-'' then - 1 else 1) * (int h * 3600 + int m * 60)) else None
           | _ \<Rightarrow> None)"

definition parse_rfc3339 :: "string \<Rightarrow> time option" where
  "parse_rfc3339 s =
     (if length s < 19 then None
      else if \<not> (s ! 4 = CHR ''-'' \<and> s ! 7 = CHR ''-'' \<and> s ! 10 = CHR ''T'' \<and> s ! 13 = CHR '':'' \<and> s ! 16 = CHR '':'') then None
      else case (digits_in 0 9999 (take 4 s), digits_in 1 12 (take 2 (drop 5 s))) of
             (Some y, Some mo) \<Rightarrow>
               (case (digits_in 1 (month_days y mo) (take 2 (drop 8 s)), digits_in 0 23 (take 2 (drop 11 s)),
                      digits_in 0 59 (take 2 (drop 14 s)), digits_in 0 59 (take 2 (drop 17 s))) of
                  (Some d, Some h, Some mi, Some sec) \<Rightarrow>
                    let t = drop 19 s;
                        frac = (case t of p # ds \<Rightarrow> if p = CHR ''.'' then takeWhile is_digit ds else [] | [] \<Rightarrow> []);
                        t = (if frac = [] then t else drop (Suc (length frac)) t);
                        secs = 86400 * day_of_civil (int y, mo, d) + int (h * 3600 + mi * 60 + sec)
                    in map_option (\<lambda>off. (secs - off) * second + nanoseconds frac) (zone_offset t)
                | _ \<Rightarrow> None)
           | _ \<Rightarrow> None)"

subsection \<open>Decoding JSON\<close>

type_synonym 'a decoder = "'a \<Rightarrow> json \<Rightarrow> 'a option"

definition decode_string :: "string decoder" where
  "decode_string old j = (case j of JStr raw \<Rightarrow> Some (unquote raw) | JNull \<Rightarrow> Some old | _ \<Rightarrow> None)"

definition decode_int :: "int decoder" where
  "decode_int old j = (case j of JNum t \<Rightarrow> atoi t | JNull \<Rightarrow> Some old | _ \<Rightarrow> None)"

definition decode_f64 :: "f64 decoder" where
  "decode_f64 old j = (case j of JNum t \<Rightarrow> parse_float t | JNull \<Rightarrow> Some old | _ \<Rightarrow> None)"

definition decode_time :: "time decoder" where
  "decode_time old j = (case j of JStr raw \<Rightarrow> parse_rfc3339 raw | JNull \<Rightarrow> Some old | _ \<Rightarrow> None)"

text \<open>A slice is \<open>None\<close> when it is nil. Decoding an array goes over the elements that are there already.\<close>

fun decode_elems :: "'a decoder \<Rightarrow> 'a \<Rightarrow> 'a list \<Rightarrow> json list \<Rightarrow> 'a list option" where
  "decode_elems dec zero olds [] = Some []"
| "decode_elems dec zero olds (j # js) =
     (case dec (case olds of [] \<Rightarrow> zero | x # _ \<Rightarrow> x) j of
        None \<Rightarrow> None
      | Some y \<Rightarrow> map_option (Cons y) (decode_elems dec zero (tl olds) js))"

definition decode_slice :: "'a decoder \<Rightarrow> 'a \<Rightarrow> 'a list option decoder" where
  "decode_slice dec zero old j =
     (case j of
        JNull \<Rightarrow> Some None
      | JArr js \<Rightarrow> map_option Some (decode_elems dec zero (case old of None \<Rightarrow> [] | Some xs \<Rightarrow> xs) js)
      | _ \<Rightarrow> None)"

definition decode_pointer :: "'a decoder \<Rightarrow> 'a \<Rightarrow> 'a option decoder" where
  "decode_pointer dec zero old j =
     (case j of JNull \<Rightarrow> Some None | _ \<Rightarrow> map_option Some (dec (case old of None \<Rightarrow> zero | Some x \<Rightarrow> x) j))"

text \<open>The fields of a struct by name: the exact name first, else the name up to case.\<close>

definition find_field :: "string \<Rightarrow> (string \<times> 'r decoder) list \<Rightarrow> 'r decoder option" where
  "find_field key fds =
     (case map_of fds key of
        Some dec \<Rightarrow> Some dec
      | None \<Rightarrow> map_option snd (find (\<lambda>(name, dec). equal_fold key name) fds))"

fun decode_members :: "(string \<times> 'r decoder) list \<Rightarrow> 'r \<Rightarrow> (string \<times> json) list \<Rightarrow> 'r option" where
  "decode_members fds r [] = Some r"
| "decode_members fds r ((raw, j) # ms) =
     (case find_field (unquote raw) fds of
        None \<Rightarrow> decode_members fds r ms
      | Some dec \<Rightarrow> (case dec r j of None \<Rightarrow> None | Some r \<Rightarrow> decode_members fds r ms))"

definition decode_struct :: "(string \<times> 'r decoder) list \<Rightarrow> 'r decoder" where
  "decode_struct fds old j =
     (case j of JObj ms \<Rightarrow> decode_members fds old ms | JNull \<Rightarrow> Some old | _ \<Rightarrow> None)"

text \<open>Any value, as \<open>interface{}\<close>: the numbers have to be in the range of a float64.\<close>

fun numbers_ok :: "json \<Rightarrow> bool" where
  "numbers_ok (JNum t) = (parse_float t \<noteq> None)"
| "numbers_ok (JArr js) = list_all numbers_ok js"
| "numbers_ok (JObj ms) = list_all (\<lambda>p. numbers_ok (snd p)) ms"
| "numbers_ok _ = True"

fun last_member :: "string \<Rightarrow> (string \<times> json) list \<Rightarrow> json option" where
  "last_member key [] = None"
| "last_member key ((raw, j) # ms) =
     (case last_member key ms of Some x \<Rightarrow> Some x | None \<Rightarrow> if unquote raw = key then Some j else None)"

definition unmarshal :: "'a decoder \<Rightarrow> 'a \<Rightarrow> string \<Rightarrow> 'a option" where
  "unmarshal dec zero s = (case json_parse s of None \<Rightarrow> None | Some j \<Rightarrow> dec zero j)"

end
