(* ===== verification/Cli_Parse.thy ===== *)
theory Cli_Parse
  imports Go_Decode Go_Path
begin

text \<open>
  Reading what the qmd command prints (\<open>executor/parse.go\<close> and the end of \<open>executor/cli.go\<close>): search results as
  JSON or as comma separated lines, the list of collections and the index status as JSON or as text.
  Of an error only its message is kept, and the messages of the library's parsers are not.
\<close>

subsection \<open>The structs\<close>

definition hit_zero :: search_result where
  "hit_zero = \<lparr>sr_title = [], sr_file = [], sr_collection = [], sr_score = Fin 0, sr_snippet = [], sr_docid = []\<rparr>"

definition decode_hit :: "search_result decoder" where
  "decode_hit = decode_struct
     [(''title'', \<lambda>r j. map_option (\<lambda>x. r\<lparr>sr_title := x\<rparr>) (decode_string (sr_title r) j)),
      (''file'', \<lambda>r j. map_option (\<lambda>x. r\<lparr>sr_file := x\<rparr>) (decode_string (sr_file r) j)),
      (''collection'', \<lambda>r j. map_option (\<lambda>x. r\<lparr>sr_collection := x\<rparr>) (decode_string (sr_collection r) j)),
      (''score'', \<lambda>r j. map_option (\<lambda>x. r\<lparr>sr_score := x\<rparr>) (decode_f64 (sr_score r) j)),
      (''snippet'', \<lambda>r j. map_option (\<lambda>x. r\<lparr>sr_snippet := x\<rparr>) (decode_string (sr_snippet r) j)),
      (''docid'', \<lambda>r j. map_option (\<lambda>x. r\<lparr>sr_docid := x\<rparr>) (decode_string (sr_docid r) j))]"

definition doc_zero :: document where
  "doc_zero = \<lparr>doc_file = [], doc_content = []\<rparr>"

definition decode_document :: "document decoder" where
  "decode_document = decode_struct
     [(''file'', \<lambda>r j. map_option (\<lambda>x. r\<lparr>doc_file := x\<rparr>) (decode_string (doc_file r) j)),
      (''content'', \<lambda>r j. map_option (\<lambda>x. r\<lparr>doc_content := x\<rparr>) (decode_string (doc_content r) j))]"

definition collection_zero :: collection_info where
  "collection_zero = \<lparr>ci_name = [], ci_path = [], ci_mask = [], ci_files = 0\<rparr>"

definition decode_collection :: "collection_info decoder" where
  "decode_collection = decode_struct
     [(''name'', \<lambda>r j. map_option (\<lambda>x. r\<lparr>ci_name := x\<rparr>) (decode_string (ci_name r) j)),
      (''path'', \<lambda>r j. map_option (\<lambda>x. r\<lparr>ci_path := x\<rparr>) (decode_string (ci_path r) j)),
      (''mask'', \<lambda>r j. map_option (\<lambda>x. r\<lparr>ci_mask := x\<rparr>) (decode_string (ci_mask r) j)),
      (''files'', \<lambda>r j. map_option (\<lambda>x. r\<lparr>ci_files := x\<rparr>) (decode_int (ci_files r) j))]"

definition path_context_zero :: path_context where
  "path_context_zero = \<lparr>pc_path = [], pc_description = []\<rparr>"

definition decode_path_context :: "path_context decoder" where
  "decode_path_context = decode_struct
     [(''path'', \<lambda>r j. map_option (\<lambda>x. r\<lparr>pc_path := x\<rparr>) (decode_string (pc_path r) j)),
      (''description'', \<lambda>r j. map_option (\<lambda>x. r\<lparr>pc_description := x\<rparr>) (decode_string (pc_description r) j))]"

definition status_zero :: index_status where
  "status_zero = \<lparr>ix_collections = [], ix_vectors = 0, ix_last_update = 0, ix_raw = []\<rparr>"

definition the_slice :: "'a list option \<Rightarrow> 'a list" where
  "the_slice s = (case s of None \<Rightarrow> [] | Some xs \<Rightarrow> xs)"

definition decode_status :: "index_status decoder" where
  "decode_status = decode_struct
     [(''collections'', \<lambda>r j. map_option (\<lambda>x. r\<lparr>ix_collections := the_slice x\<rparr>)
         (decode_slice decode_collection collection_zero (Some (ix_collections r)) j)),
      (''vectors'', \<lambda>r j. map_option (\<lambda>x. r\<lparr>ix_vectors := x\<rparr>) (decode_int (ix_vectors r) j)),
      (''last_update'', \<lambda>r j. map_option (\<lambda>x. r\<lparr>ix_last_update := x\<rparr>) (decode_time (ix_last_update r) j)),
      (''raw'', \<lambda>r j. map_option (\<lambda>x. r\<lparr>ix_raw := x\<rparr>) (decode_string (ix_raw r) j))]"

text \<open>A slice of values read from a text, nil read as empty.\<close>

definition unmarshal_slice :: "'a decoder \<Rightarrow> 'a \<Rightarrow> string \<Rightarrow> 'a list option" where
  "unmarshal_slice dec zero s = map_option the_slice (unmarshal (decode_slice dec zero) None s)"

subsection \<open>Search results\<close>

definition uri_prefix :: string where
  "uri_prefix = ''qmd://''"

definition extract_collection_from_uri :: "string \<Rightarrow> string" where
  "extract_collection_from_uri uri =
     (if \<not> has_prefix uri uri_prefix then []
      else let rest = trim_prefix uri uri_prefix in
           if rest = [] then []
           else case index_of rest ''/'' of
                  Some i \<Rightarrow> if 0 < i then take i rest else rest
                | None \<Rightarrow> rest)"

definition files_row :: "string list \<Rightarrow> search_result result" where
  "files_row fields_of_line =
     (if length fields_of_line < 3 then Inl (plain_err ''invalid files row'')
      else case parse_float (trim_space (fields_of_line ! 1)) of
             None \<Rightarrow> Inl (plain_err ''invalid score'')
           | Some score \<Rightarrow>
               let fl = trim_space (fields_of_line ! 2)
               in Inr \<lparr>sr_title = path_base fl, sr_file = fl, sr_collection = extract_collection_from_uri fl,
                    sr_score = score, sr_snippet = [], sr_docid = fields_of_line ! 0\<rparr>)"

fun files_rows :: "string list \<Rightarrow> search_result list result" where
  "files_rows [] = Inr []"
| "files_rows (l # ls) =
     (let line = trim_space l in
      if line = [] then files_rows ls
      else if \<not> str_contains line '','' then files_rows ls
      else case csv_fields line of
             None \<Rightarrow> Inl (plain_err ''malformed record'')
           | Some fields_of_line \<Rightarrow>
               (case files_row fields_of_line of
                  Inl e \<Rightarrow> Inl e
                | Inr r \<Rightarrow> (case files_rows ls of Inl e \<Rightarrow> Inl e | Inr rs \<Rightarrow> Inr (r # rs))))"

definition newline :: char where
  "newline = CHR 0x0A"

definition parse_files_csv_output :: "string \<Rightarrow> search_result list result" where
  "parse_files_csv_output out =
     (case files_rows (split_on newline (trim_space out)) of
        Inl e \<Rightarrow> Inl e
      | Inr [] \<Rightarrow> Inl (plain_err ''no files rows'')
      | Inr rs \<Rightarrow> Inr rs)"

definition after_warnings :: "string \<Rightarrow> search_result list option" where
  "after_warnings trimmed =
     (case index_of trimmed ''['' of
        Some i \<Rightarrow> if 0 < i then unmarshal_slice decode_hit hit_zero (drop i trimmed) else None
      | None \<Rightarrow> None)"

definition parse_search_output :: "string \<Rightarrow> search_result list result" where
  "parse_search_output out =
     (let trimmed = trim_space out in
      if trimmed = [] then Inr []
      else case unmarshal_slice decode_hit hit_zero trimmed of
             Some rs \<Rightarrow> Inr rs
           | None \<Rightarrow>
               if str_contains trimmed ''No results found.'' then Inr []
               else (case after_warnings trimmed of
                       Some rs \<Rightarrow> Inr rs
                     | None \<Rightarrow>
                         (case parse_files_csv_output trimmed of
                            Inr rs \<Rightarrow> Inr rs
                          | Inl _ \<Rightarrow> Inl (plain_err ''invalid search output''))))"

subsection \<open>The list of collections\<close>

text \<open>The wrapper struct has the one field \<open>collections\<close>.\<close>

definition wrapped_collections :: "collection_info list option decoder" where
  "wrapped_collections = decode_struct [(''collections'', decode_slice decode_collection collection_zero)]"

definition parse_collection_list_json :: "string \<Rightarrow> collection_info list result" where
  "parse_collection_list_json out =
     (let trimmed = trim_space out in
      if trimmed = [] then Inr []
      else case unmarshal_slice decode_collection collection_zero trimmed of
             Some cols \<Rightarrow> Inr cols
           | None \<Rightarrow>
               (case unmarshal wrapped_collections None trimmed of
                  Some (Some cols) \<Rightarrow> Inr cols
                | _ \<Rightarrow> Inl (plain_err ''invalid json output'')))"

definition collection_mark :: string where
  "collection_mark = '' (qmd://''"

definition has_collection :: "string \<Rightarrow> collection_info list \<Rightarrow> bool" where
  "has_collection name cols \<longleftrightarrow> name \<in> ci_name ` set cols"

definition add_named :: "string \<Rightarrow> collection_info list \<Rightarrow> collection_info list" where
  "add_named name cols =
     (if name = [] then cols else if has_collection name cols then cols
      else cols @ [collection_zero\<lparr>ci_name := name\<rparr>])"

definition update_last :: "('a \<Rightarrow> 'a) \<Rightarrow> 'a list \<Rightarrow> 'a list" where
  "update_last f xs = (if xs = [] then [] else butlast xs @ [f (last xs)])"

definition leading_int :: "string \<Rightarrow> string \<Rightarrow> int option" where
  "leading_int line label =
     (case str_fields (trim_space (trim_prefix line label)) of [] \<Rightarrow> None | x # _ \<Rightarrow> atoi x)"

definition set_files :: "string \<Rightarrow> collection_info list \<Rightarrow> collection_info list" where
  "set_files line cols =
     (case leading_int line ''Files:'' of None \<Rightarrow> cols | Some n \<Rightarrow> update_last (\<lambda>c. c\<lparr>ci_files := n\<rparr>) cols)"

definition collection_line :: "string \<Rightarrow> collection_info list \<Rightarrow> collection_info list" where
  "collection_line l cols =
     (let line = trim_space l in
      if line = [] \<or> has_prefix line ''Collections'' then cols
      else if str_contains line collection_mark \<and> has_suffix line '')''
      then add_named (trim_space (split_first line collection_mark)) cols
      else if has_prefix line uri_prefix \<and> str_contains line ''/''
      then add_named (trim_space (split_first (trim_prefix line uri_prefix) ''/'')) cols
      else if has_prefix line ''Pattern:''
      then update_last (\<lambda>c. c\<lparr>ci_mask := trim_space (trim_prefix line ''Pattern:'')\<rparr>) cols
      else if has_prefix line ''Files:'' then set_files line cols
      else cols)"

definition parse_collection_list_text :: "string \<Rightarrow> collection_info list result" where
  "parse_collection_list_text out =
     (let cols = fold collection_line (split_on newline out) []
      in if cols = [] then Inl (plain_err ''no collections parsed'') else Inr cols)"

subsection \<open>The index status\<close>

definition wrapped_status :: "index_status option decoder" where
  "wrapped_status = decode_struct [(''status'', decode_pointer decode_status status_zero)]"

text \<open>\<open>int(x)\<close> of a float64 drops the fraction; out of range it is the smallest integer, as on amd64.\<close>

definition go_int_of_float :: "f64 \<Rightarrow> int" where
  "go_int_of_float x =
     (case x of
        Fin r \<Rightarrow> let i = (if r < 0 then \<lceil>r\<rceil> else \<lfloor>r\<rfloor>) in if - (2 ^ 63) \<le> i \<and> i < 2 ^ 63 then i else - (2 ^ 63)
      | _ \<Rightarrow> - (2 ^ 63))"

definition int_from_any :: "json option \<Rightarrow> int option" where
  "int_from_any v =
     (case v of
        Some (JNum t) \<Rightarrow> map_option go_int_of_float (parse_float t)
      | Some (JStr raw) \<Rightarrow> atoi (trim_space (unquote raw))
      | _ \<Rightarrow> None)"

definition generic_status :: "json \<Rightarrow> index_status result" where
  "generic_status j =
     (case j of
        JObj ms \<Rightarrow>
          (case int_from_any (last_member ''vectors'' ms) of
             Some v \<Rightarrow> Inr (status_zero\<lparr>ix_vectors := v\<rparr>)
           | None \<Rightarrow>
               (case last_member ''documents'' ms of
                  Some (JObj ds) \<Rightarrow>
                    (case int_from_any (last_member ''vectors'' ds) of
                       Some v \<Rightarrow> Inr (status_zero\<lparr>ix_vectors := v\<rparr>)
                     | None \<Rightarrow> Inl (plain_err ''vectors field not found''))
                | _ \<Rightarrow> Inl (plain_err ''vectors field not found'')))
      | _ \<Rightarrow> Inl (plain_err ''vectors field not found''))"

definition generic_object :: "string \<Rightarrow> json option" where
  "generic_object s =
     (case json_parse s of
        Some j \<Rightarrow> (case j of JObj ms \<Rightarrow> if numbers_ok j then Some j else None | JNull \<Rightarrow> Some j | _ \<Rightarrow> None)
      | None \<Rightarrow> None)"

definition parse_status_json :: "string \<Rightarrow> index_status result" where
  "parse_status_json out =
     (let trimmed = trim_space out in
      if trimmed = [] then Inl (plain_err ''empty status output'')
      else case unmarshal decode_status status_zero trimmed of
             Some st \<Rightarrow> Inr st
           | None \<Rightarrow>
               (case unmarshal wrapped_status None trimmed of
                  Some (Some st) \<Rightarrow> Inr st
                | _ \<Rightarrow>
                    (case generic_object trimmed of
                       None \<Rightarrow> Inl (plain_err ''invalid json output'')
                     | Some j \<Rightarrow> generic_status j)))"

definition status_line :: "string \<Rightarrow> bool \<times> index_status \<Rightarrow> bool \<times> index_status" where
  "status_line l acc =
     (let line = trim_space l; (parsed, st) = acc in
      if line = [] then acc
      else if has_prefix line ''Vectors:''
      then (case leading_int line ''Vectors:'' of None \<Rightarrow> acc | Some v \<Rightarrow> (True, st\<lparr>ix_vectors := v\<rparr>))
      else if str_contains line collection_mark \<and> has_suffix line '')''
      then (parsed, st\<lparr>ix_collections := add_named (trim_space (split_first line collection_mark)) (ix_collections st)\<rparr>)
      else if has_prefix line ''Files:'' then (parsed, st\<lparr>ix_collections := set_files line (ix_collections st)\<rparr>)
      else acc)"

definition parse_status_text :: "string \<Rightarrow> index_status result" where
  "parse_status_text out =
     (let (parsed, st) = fold status_line (split_on newline out) (False, status_zero)
      in if parsed then Inr st else Inl (plain_err ''vectors line not found''))"

end
