(* ===== verification/Cli_Exec.thy ===== *)
theory Cli_Exec
  imports Cli_Parse Orchestrator
begin

text \<open>
  The executor (\<open>executor/cli.go\<close>): each operation as the arguments it passes to the qmd command and what it makes
  of the outcome. Running the command is \<open>qe_run\<close>: given the number of the run within the operation, the context, whether
  the graphics card is switched off in the environment, and the arguments, it says what the command printed and how it ended. \<open>qe_now\<close> are the
  times at which the operation reads the clock, \<open>qe_slot\<close> how the waiting for a query slot ends, \<open>qe_json_error\<close> the message
  of the JSON library about a text it refuses.
  Starting and killing the process is the subject of \<open>Process\<close>. The record \<open>cli\<close> is the executor; \<open>ContextRemove\<close> is the one operation
  that changes it after \<open>NewCLI\<close>.
\<close>

datatype run_end =
    Start_Failed goerr
  | Exited_Ok
  | Exited_With goerr string
  | Context_Done goerr string

record run_outcome =
  ro_stdout :: string
  ro_end :: run_end

record qmd_env =
  qe_now :: "nat \<Rightarrow> time"
  qe_run :: "nat \<Rightarrow> ctx \<Rightarrow> bool \<Rightarrow> string list \<Rightarrow> run_outcome"
  qe_slot :: "ctx \<Rightarrow> goerr option"
  qe_json_error :: "string \<Rightarrow> string"

record capabilities =
  cp_vector :: bool
  cp_deep_query :: bool
  cp_mcp :: bool
  cp_status :: bool

record get_opts =
  go_full :: bool
  go_line_numbers :: bool

record cli =
  ce_caps :: capabilities
  ce_low_resource :: bool
  ce_cpu_deep :: bool
  ce_cpu_vsearch :: bool
  ce_query_timeout :: duration
  ce_context_remove_cmd :: string

definition default_timeout :: duration where
  "default_timeout = 30 * second"

subsection \<open>Running the command\<close>

definition should_disable_vulkan :: "cli \<Rightarrow> string list \<Rightarrow> bool" where
  "should_disable_vulkan e args =
     (if \<not> ce_low_resource e \<or> args = [] then False
      else let a = hd args in
           if a = ''query'' then ce_cpu_deep e
           else if a = ''vsearch'' then ce_cpu_vsearch e
           else if a = ''embed'' \<or> a = ''mcp'' then ce_cpu_deep e \<or> ce_cpu_vsearch e
           else False)"

definition run_err :: "string list \<Rightarrow> goerr \<Rightarrow> string \<Rightarrow> goerr" where
  "run_err args e tail = e\<lparr>err_msg := ''qmd '' @ join '' '' args @ '': '' @ err_msg e @ tail\<rparr>"

definition cli_run :: "qmd_env \<Rightarrow> nat \<Rightarrow> cli \<Rightarrow> ctx \<Rightarrow> string list \<Rightarrow> string \<times> goerr option" where
  "cli_run qe i e c args =
     (let out = qe_run qe i c (should_disable_vulkan e args) args in
      (ro_stdout out,
       case ro_end out of
         Exited_Ok \<Rightarrow> None
       | Start_Failed err \<Rightarrow> Some (run_err args err [])
       | Exited_With err stderr \<Rightarrow> Some (run_err args err ('': '' @ stderr))
       | Context_Done err stderr \<Rightarrow> Some (run_err args err ('': '' @ stderr))))"

text \<open>The operations that only need the text, only the success, or neither.\<close>

definition run_text :: "qmd_env \<Rightarrow> nat \<Rightarrow> cli \<Rightarrow> ctx \<Rightarrow> string list \<Rightarrow> string result" where
  "run_text qe i e c args =
     (let (out, err) = cli_run qe i e c args in case err of None \<Rightarrow> Inr out | Some x \<Rightarrow> Inl x)"

definition run_ok :: "qmd_env \<Rightarrow> nat \<Rightarrow> cli \<Rightarrow> ctx \<Rightarrow> string list \<Rightarrow> bool" where
  "run_ok qe i e c args \<longleftrightarrow> snd (cli_run qe i e c args) = None"

definition in_time :: "qmd_env \<Rightarrow> nat \<Rightarrow> duration \<Rightarrow> ctx \<Rightarrow> ctx" where
  "in_time qe i d c = with_timeout (qe_now qe i) d c"

subsection \<open>Finding out what the command can do\<close>

definition probe_context_remove :: "qmd_env \<Rightarrow> nat \<Rightarrow> cli \<Rightarrow> ctx \<Rightarrow> string" where
  "probe_context_remove qe i e c =
     (let (out, err) = cli_run qe i e c [''context'', ''--help''] in
      case err of
        Some x \<Rightarrow> []
      | None \<Rightarrow>
          let l = to_lower out in
          if str_contains l ''context rm'' then ''rm''
          else if str_contains l ''context remove'' then ''remove''
          else if str_contains l '' rm '' then ''rm''
          else if str_contains l '' remove '' then ''remove''
          else [])"

definition limited_caps :: "cli \<Rightarrow> capabilities \<Rightarrow> capabilities" where
  "limited_caps e caps =
     (if ce_low_resource e then
        let caps = (if ce_cpu_vsearch e then caps else caps\<lparr>cp_vector := False\<rparr>)
        in (if ce_cpu_deep e then caps else caps\<lparr>cp_deep_query := False\<rparr>)
      else caps)"

definition cli_probe :: "qmd_env \<Rightarrow> cli \<Rightarrow> ctx \<Rightarrow> cli result" where
  "cli_probe qe e c0 =
     (let c = in_time qe 0 (10 * second) c0;
          (out, err) = cli_run qe 0 e c [''--version''];
          (help_out, help_err) = cli_run qe 1 e c [''--help'']
      in case (err, help_err) of
           (Some x, Some h) \<Rightarrow>
             Inl (h\<lparr>err_msg := ''qmd not available (version check failed: '' @ err_msg x @
                    ''; help check failed: '' @ err_msg h @ '')''\<rparr>)
         | _ \<Rightarrow>
             let caps = \<lparr>cp_vector = run_ok qe 2 e c [''vsearch'', ''--help''],
                         cp_deep_query = run_ok qe 3 e c [''query'', ''--help''],
                         cp_mcp = run_ok qe 4 e c [''mcp'', ''--help''],
                         cp_status = run_ok qe 5 e c [''status'', ''--help'']\<rparr>
             in Inr (e\<lparr>ce_caps := limited_caps e caps, ce_context_remove_cmd := probe_context_remove qe 6 e c\<rparr>))"

definition no_caps :: capabilities where
  "no_caps = \<lparr>cp_vector = False, cp_deep_query = False, cp_mcp = False, cp_status = False\<rparr>"

definition background_ctx :: ctx where
  "background_ctx = \<lparr>ctx_deadline = None\<rparr>"

definition new_cli :: "qmd_env \<Rightarrow> config \<Rightarrow> cli result" where
  "new_cli qe cfg =
     (let rt = cf_runtime cfg in
      cli_probe qe \<lparr>ce_caps = no_caps, ce_low_resource = rt_low_resource_mode rt, ce_cpu_deep = rt_allow_cpu_deep_query rt,
        ce_cpu_vsearch = rt_allow_cpu_vsearch rt, ce_query_timeout = rt_query_timeout rt, ce_context_remove_cmd = []\<rparr>
        background_ctx)"

definition has_capability :: "cli \<Rightarrow> string \<Rightarrow> bool" where
  "has_capability e cap =
     (if cap = ''vector'' then cp_vector (ce_caps e)
      else if cap = ''deep_query'' then cp_deep_query (ce_caps e)
      else if cap = ''mcp'' then cp_mcp (ce_caps e)
      else if cap = ''status'' then cp_status (ce_caps e)
      else False)"

subsection \<open>Searching\<close>

definition append_search_args :: "string list \<Rightarrow> search_opts \<Rightarrow> string list" where
  "append_search_args args opts =
     (let args = (if op_collection opts \<noteq> [] then args @ [''--collection'', op_collection opts] else args);
          args = (if op_files_only opts
                  then (let args = args @ [''--files''] in if op_all opts then args @ [''--all''] else args) else args);
          args = (if 0 < op_n opts \<and> \<not> op_all opts then args @ [''-n'', itoa (op_n opts)] else args);
          args = (if f64_lt (Fin 0) (op_min_score opts) then args @ [''--min-score'', format_fixed 2 (op_min_score opts)]
                  else args)
      in if op_full opts then args @ [''--full''] else args)"

definition first_runes :: "nat \<Rightarrow> string \<Rightarrow> string" where
  "first_runes n s = concat (map snd (take n (rune_chunks s)))"

definition exec_search_args :: "qmd_env \<Rightarrow> cli \<Rightarrow> ctx \<Rightarrow> string list \<Rightarrow> duration \<Rightarrow> search_result list result" where
  "exec_search_args qe e c args timeout =
     (case run_text qe 0 e (in_time qe 1 timeout c) args of
        Inl x \<Rightarrow> Inl x
      | Inr out \<Rightarrow>
          (case parse_search_output out of
             Inl x \<Rightarrow> Inl (x\<lparr>err_msg := ''parse search results: '' @ err_msg x @ '' (output: '' @ first_runes 200 out @ '')''\<rparr>)
           | Inr rs \<Rightarrow> Inr rs))"

definition cli_search :: "qmd_env \<Rightarrow> cli \<Rightarrow> ctx \<Rightarrow> string \<Rightarrow> search_opts \<Rightarrow> search_result list result" where
  "cli_search qe e c query opts =
     exec_search_args qe e c (append_search_args [''search'', query, ''--json''] opts) default_timeout"

definition cli_vsearch :: "qmd_env \<Rightarrow> cli \<Rightarrow> ctx \<Rightarrow> string \<Rightarrow> search_opts \<Rightarrow> search_result list result" where
  "cli_vsearch qe e c query opts =
     (if \<not> cp_vector (ce_caps e) then Inl (plain_err ''vsearch not available'')
      else exec_search_args qe e c (append_search_args [''vsearch'', query, ''--json''] opts) default_timeout)"

definition query_timeout :: "cli \<Rightarrow> duration" where
  "query_timeout e = (if ce_query_timeout e \<le> 0 then 120 * second else ce_query_timeout e)"

definition cli_query :: "qmd_env \<Rightarrow> cli \<Rightarrow> ctx \<Rightarrow> string \<Rightarrow> search_opts \<Rightarrow> search_result list result" where
  "cli_query qe e c query opts =
     (if \<not> cp_deep_query (ce_caps e) then Inl (plain_err ''query not available'')
      else
        let c = (if ctx_deadline c = None then in_time qe 0 (query_timeout e) c else c) in
        case qe_slot qe c of
          Some x \<Rightarrow> Inl (wrap_err ''query queue busy: '' x)
        | None \<Rightarrow>
            exec_search_args qe e c (append_search_args [''query'', query, ''--json''] opts) (query_timeout e))"

subsection \<open>Documents, collections, contexts\<close>

definition cli_get :: "qmd_env \<Rightarrow> cli \<Rightarrow> ctx \<Rightarrow> string \<Rightarrow> get_opts \<Rightarrow> string \<times> goerr option" where
  "cli_get qe e c doc_ref opts =
     (let args = [''get'', doc_ref];
          args = (if go_full opts then args @ [''--full''] else args);
          args = (if go_line_numbers opts then args @ [''--line-numbers''] else args)
      in cli_run qe 0 e (in_time qe 0 default_timeout c) args)"

definition cli_multi_get :: "qmd_env \<Rightarrow> cli \<Rightarrow> ctx \<Rightarrow> string \<Rightarrow> int \<Rightarrow> document list result" where
  "cli_multi_get qe e c pattern max_bytes =
     (let args = [''multi-get'', pattern, ''--json''];
          args = (if 0 < max_bytes then args @ [''--max-bytes'', itoa max_bytes] else args)
      in case run_text qe 0 e (in_time qe 0 default_timeout c) args of
           Inl x \<Rightarrow> Inl x
         | Inr out \<Rightarrow>
             (case unmarshal_slice decode_document doc_zero out of
                Some docs \<Rightarrow> Inr docs
              | None \<Rightarrow> Inl (plain_err (''parse multi-get output: '' @ qe_json_error qe out))))"

definition cli_collection_add :: "qmd_env \<Rightarrow> cli \<Rightarrow> ctx \<Rightarrow> string \<Rightarrow> string \<Rightarrow> string \<Rightarrow> goerr option" where
  "cli_collection_add qe e c path name path_mask =
     (let args = [''collection'', ''add'', path, ''--name'', name];
          args = (if path_mask \<noteq> [] then args @ [''--mask'', path_mask] else args)
      in snd (cli_run qe 0 e (in_time qe 0 default_timeout c) args))"

definition cli_collection_list :: "qmd_env \<Rightarrow> cli \<Rightarrow> ctx \<Rightarrow> collection_info list result" where
  "cli_collection_list qe e c =
     (case run_text qe 0 e (in_time qe 0 default_timeout c) [''collection'', ''list'', ''--json''] of
        Inl x \<Rightarrow> Inl x
      | Inr out \<Rightarrow>
          (case parse_collection_list_json out of
             Inr cols \<Rightarrow> Inr cols
           | Inl x \<Rightarrow>
               (case parse_collection_list_text out of
                  Inr cols \<Rightarrow> Inr cols
                | Inl t \<Rightarrow> Inl (t\<lparr>err_msg := ''parse collection list: json parse failed: '' @ err_msg x @
                             ''; text parse failed: '' @ err_msg t\<rparr>))))"

definition cli_update :: "qmd_env \<Rightarrow> cli \<Rightarrow> ctx \<Rightarrow> goerr option" where
  "cli_update qe e c = snd (cli_run qe 0 e (in_time qe 0 (5 * minute) c) [''update''])"

definition cli_embed :: "qmd_env \<Rightarrow> cli \<Rightarrow> ctx \<Rightarrow> bool \<Rightarrow> goerr option" where
  "cli_embed qe e c force =
     snd (cli_run qe 0 e (in_time qe 0 (30 * minute) c) ([''embed''] @ (if force then [''-f''] else [])))"

definition cli_context_add :: "qmd_env \<Rightarrow> cli \<Rightarrow> ctx \<Rightarrow> string \<Rightarrow> string \<Rightarrow> goerr option" where
  "cli_context_add qe e c path description =
     snd (cli_run qe 0 e (in_time qe 0 default_timeout c) [''context'', ''add'', path, description])"

definition cli_context_list :: "qmd_env \<Rightarrow> cli \<Rightarrow> ctx \<Rightarrow> path_context list result" where
  "cli_context_list qe e c =
     (case run_text qe 0 e (in_time qe 0 default_timeout c) [''context'', ''list'', ''--json''] of
        Inl x \<Rightarrow> Inl x
      | Inr out \<Rightarrow>
          (case unmarshal_slice decode_path_context path_context_zero out of
             Some cs \<Rightarrow> Inr cs
           | None \<Rightarrow> Inl (plain_err (''parse context list: '' @ qe_json_error qe out))))"

definition cli_context_remove :: "qmd_env \<Rightarrow> cli \<Rightarrow> ctx \<Rightarrow> string \<Rightarrow> goerr option \<times> cli" where
  "cli_context_remove qe e c0 path =
     (let c = in_time qe 0 default_timeout c0; cmd = ce_context_remove_cmd e in
      if cmd \<noteq> [] \<and> run_ok qe 0 e c [''context'', cmd, path] then (None, e)
      else if run_ok qe 1 e c [''context'', ''rm'', path] then (None, e\<lparr>ce_context_remove_cmd := ''rm''\<rparr>)
      else (case snd (cli_run qe 2 e c [''context'', ''remove'', path]) of
              None \<Rightarrow> (None, e\<lparr>ce_context_remove_cmd := ''remove''\<rparr>)
            | Some x \<Rightarrow> (Some x, e)))"

subsection \<open>Status, daemon, version\<close>

definition raw_status :: "string \<Rightarrow> index_status" where
  "raw_status out = status_zero\<lparr>ix_raw := out\<rparr>"

definition cli_status :: "qmd_env \<Rightarrow> cli \<Rightarrow> ctx \<Rightarrow> index_status option \<times> goerr option" where
  "cli_status qe e c =
     (if \<not> cp_status (ce_caps e) then (None, Some (plain_err ''status not available''))
      else
        let (out, err) = cli_run qe 0 e (in_time qe 0 default_timeout c) [''status'', ''--json''] in
        case err of
          Some x \<Rightarrow> (Some (raw_status out), Some x)
        | None \<Rightarrow>
            (case parse_status_json out of
               Inr st \<Rightarrow> (Some (st\<lparr>ix_raw := out\<rparr>), None)
             | Inl x \<Rightarrow>
                 (case parse_status_text out of
                    Inr st \<Rightarrow> (Some (st\<lparr>ix_raw := out\<rparr>), None)
                  | Inl t \<Rightarrow>
                      (Some (raw_status out),
                       Some (t\<lparr>err_msg := ''parse status: json parse failed: '' @ err_msg x @ ''; text parse failed: '' @
                               err_msg t\<rparr>)))))"

definition with_mcp :: "qmd_env \<Rightarrow> cli \<Rightarrow> ctx \<Rightarrow> duration \<Rightarrow> string list \<Rightarrow> goerr option" where
  "with_mcp qe e c timeout args =
     (if \<not> cp_mcp (ce_caps e) then Some (plain_err ''mcp not available'')
      else snd (cli_run qe 0 e (in_time qe 0 timeout c) args))"

definition cli_mcp_start :: "qmd_env \<Rightarrow> cli \<Rightarrow> ctx \<Rightarrow> goerr option" where
  "cli_mcp_start qe e c = with_mcp qe e c default_timeout [''mcp'', ''--http'', ''--daemon'']"

definition cli_mcp_stop :: "qmd_env \<Rightarrow> cli \<Rightarrow> ctx \<Rightarrow> goerr option" where
  "cli_mcp_stop qe e c = with_mcp qe e c default_timeout [''mcp'', ''stop'']"

definition cli_mcp_health :: "qmd_env \<Rightarrow> cli \<Rightarrow> ctx \<Rightarrow> goerr option" where
  "cli_mcp_health qe e c = with_mcp qe e c (5 * second) [''mcp'', ''health'']"

definition cli_version :: "qmd_env \<Rightarrow> cli \<Rightarrow> ctx \<Rightarrow> string result" where
  "cli_version qe e c0 =
     (let c = in_time qe 0 (5 * second) c0; (out, err) = cli_run qe 0 e c [''--version''] in
      case err of
        None \<Rightarrow> Inr (trim_space out)
      | Some x \<Rightarrow>
          (case snd (cli_run qe 1 e c [''--help'']) of
             Some h \<Rightarrow> Inl (h\<lparr>err_msg := ''qmd version check failed: '' @ err_msg x @ ''; help check failed: '' @ err_msg h\<rparr>)
           | None \<Rightarrow> Inr ''unknown''))"

subsection \<open>The executor as the orchestrator sees it\<close>

definition cli_executor :: "qmd_env \<Rightarrow> cli \<Rightarrow> executor" where
  "cli_executor qe e =
     \<lparr>ex_search = cli_search qe e, ex_vsearch = cli_vsearch qe e, ex_query = cli_query qe e,
      ex_has_capability = has_capability e\<rparr>"

end
