(* ===== verification/Json_Print.thy ===== *)
theory Json_Print
  imports Go_Json
begin

text \<open>
  The inverse of the JSON parser: printing without white space. Every value whose strings and numbers are well formed and which is
  not nested too deep is read back from its text, whatever follows the text.
\<close>

definition dquote :: char where
  "dquote = CHR 0x22"

fun show_json :: "json \<Rightarrow> string" where
  "show_json JNull = ''null''"
| "show_json (JBool b) = (if b then ''true'' else ''false'')"
| "show_json (JNum t) = t"
| "show_json (JStr raw) = dquote # raw @ [dquote]"
| "show_json (JArr js) = ''['' @ join '','' (map show_json js) @ '']''"
| "show_json (JObj ms) = ''{'' @ join '','' (map (\<lambda>(k, j). (dquote # k @ [dquote]) @ '':'' @ show_json j) ms) @ ''}''"

definition string_text :: "string \<Rightarrow> bool" where
  "string_text raw \<longleftrightarrow> scan_string (raw @ [dquote]) = Some (raw, [])"

fun json_ok :: "nat \<Rightarrow> json \<Rightarrow> bool" where
  "json_ok d (JNum t) = (scan_number t = Some (t, []))"
| "json_ok d (JStr raw) = string_text raw"
| "json_ok d (JArr js) = (0 < d \<and> list_all (json_ok (d - 1)) js)"
| "json_ok d (JObj ms) = (0 < d \<and> list_all (\<lambda>(k, j). string_text k \<and> json_ok (d - 1) j) ms)"
| "json_ok d _ = True"

text \<open>A text after which a number is complete.\<close>

definition stops :: "string \<Rightarrow> bool" where
  "stops r \<longleftrightarrow> (case r of [] \<Rightarrow> True | c # _ \<Rightarrow> c = CHR '','' \<or> c = CHR '']'' \<or> c = CHR ''}'')"

lemma stops_simps [simp]: "stops []" "stops (CHR '','' # r)" "stops (CHR '']'' # r)" "stops (CHR ''}'' # r)"
  by (simp_all add: stops_def)

lemma stops_takeWhile: "stops r \<Longrightarrow> takeWhile is_digit r = []" "stops r \<Longrightarrow> dropWhile is_digit r = r"
  by (auto simp: stops_def is_digit_def byte_of_def split: list.splits)

lemma digits_append:
  "stops r \<Longrightarrow> takeWhile is_digit (s @ r) = takeWhile is_digit s"
  "stops r \<Longrightarrow> dropWhile is_digit (s @ r) = dropWhile is_digit s @ r"
  using stops_takeWhile [of r] by (induction s) auto

lemma scan_int_append: "stops r \<Longrightarrow> scan_int s = Some (a, b) \<Longrightarrow> scan_int (s @ r) = Some (a, b @ r)"
  using digits_append [of r s] by (cases s) (auto simp: scan_int_def split: if_splits)

lemma scan_frac_append: "stops r \<Longrightarrow> scan_frac s = Some (a, b) \<Longrightarrow> scan_frac (s @ r) = Some (a, b @ r)"
  by (cases s) (auto simp: scan_frac_def digits_append stops_def split: list.splits if_splits)

lemma scan_exp_append: "stops r \<Longrightarrow> scan_exp s = Some (a, b) \<Longrightarrow> scan_exp (s @ r) = Some (a, b @ r)"
  by (cases s) (auto simp: scan_exp_def digits_append stops_def Let_def split: list.splits if_splits)

lemma scan_number_append:
  assumes "stops r" and "scan_number t = Some (a, b)"
  shows "scan_number (t @ r) = Some (a, b @ r)"
proof -
  obtain sg s1 where sg: "scan_sign t = (sg, s1)" by fastforce
  obtain i s2 f s3 e s4 where p: "scan_int s1 = Some (i, s2)" "scan_frac s2 = Some (f, s3)" "scan_exp s3 = Some (e, s4)"
    and ab: "a = sg @ i @ f @ e" "b = s4"
    using assms(2) by (auto simp: scan_number_def sg split: option.splits)
  have "s1 \<noteq> []" using p(1) by (auto simp: scan_int_def)
  then have "scan_sign (t @ r) = (sg, s1 @ r)" using sg by (cases t) (auto simp: scan_sign_def split: if_splits)
  then show ?thesis
    using scan_int_append [OF assms(1) p(1)] scan_frac_append [OF assms(1) p(2)] scan_exp_append [OF assms(1) p(3)] ab
    by (simp add: scan_number_def)
qed

lemma scan_string_append: "scan_string s = Some (a, b) \<Longrightarrow> scan_string (s @ r) = Some (a, b @ r)"
proof (induction s arbitrary: a b rule: measure_induct_rule [of length])
  case (less s)
  then obtain c cs where s: "s = c # cs" by (cases s) auto
  note 2 = less.prems [unfolded s] and IH = less.IH [unfolded s]
  consider "byte_of c = 34" | "byte_of c = 92" "byte_of c \<noteq> 34" | "32 \<le> byte_of c" "byte_of c \<noteq> 92" "byte_of c \<noteq> 34"
    using 2 by (cases "byte_of c < 32") (auto split: if_splits)
  then show ?case
  proof cases
    case 1
    then show ?thesis using 2 s by simp
  next
    case esc: 2
    then obtain e cs' where cs: "cs = e # cs'" using 2 by (cases cs) auto
    show ?thesis
    proof (cases "e = CHR ''u''")
      case True
      obtain h1 h2 h3 h4 x where cs': "cs' = h1 # h2 # h3 # h4 # x" and h: "is_hex h1 \<and> is_hex h2 \<and> is_hex h3 \<and> is_hex h4"
        using 2 esc cs True by (auto split: list.splits if_splits)
      obtain a' where a': "scan_string x = Some (a', b)" "a = c # e # h1 # h2 # h3 # h4 # a'"
        using 2 esc cs True cs' h by auto
      have "scan_string (x @ r) = Some (a', b @ r)" using IH [OF _ a'(1)] cs cs' by simp
      then show ?thesis using esc s cs True cs' h a'(2) by simp
    next
      case False
      have m: "byte_of e \<in> {98, 102, 110, 114, 116, 92, 47, 34}" using 2 esc cs False by (auto split: if_splits)
      obtain a' where a': "scan_string cs' = Some (a', b)" "a = c # e # a'" using 2 esc cs False m by (auto split: if_splits)
      have "scan_string (cs' @ r) = Some (a', b @ r)" using IH [OF _ a'(1)] cs by simp
      then show ?thesis using esc s cs False m a'(2) by simp
    qed
  next
    case 3
    then obtain a' where a': "scan_string cs = Some (a', b)" "a = c # a'" using 2 by auto
    then show ?thesis using IH [OF _ a'(1)] 3 s by simp
  qed
qed

lemma scan_string_text:
  assumes "string_text raw" shows "scan_string (raw @ dquote # r) = Some (raw, r)"
  using scan_string_append [of "raw @ [dquote]" raw "[]" r] assms by (simp add: string_text_def)

text \<open>How a text begins.\<close>

lemma show_json_hd:
  assumes "json_ok d j"
  obtains c cs where "show_json j = c # cs" and "\<not> json_space c" and "c \<noteq> CHR '']''" and "c \<noteq> CHR ''}''"
proof (cases j)
  case (JNum t)
  have "scan_number t = Some (t, [])" using assms JNum by simp
  then obtain c cs where t: "t = c # cs" by (cases t) (auto simp: scan_number_def scan_sign_def scan_int_def)
  with \<open>scan_number t = Some (t, [])\<close> have "c = CHR ''-'' \<or> is_digit c"
    by (auto simp: scan_number_def scan_sign_def scan_int_def is_digit_def byte_of_def split: if_splits option.splits)
  then have "\<not> json_space c \<and> c \<noteq> CHR '']'' \<and> c \<noteq> CHR ''}''" by (auto simp: json_space_def is_digit_def byte_of_def)
  then show ?thesis using that t JNum by simp
next
  case (JBool b)
  then show ?thesis by (cases b) (simp_all add: that json_space_def byte_of_def)
qed (simp_all add: that json_space_def byte_of_def dquote_def)

lemma skip_ws_id: "\<not> json_space c \<Longrightarrow> skip_ws (c # cs) = c # cs"
  by (simp add: skip_ws_def)

lemma join_map_Cons: "join '','' (map f (x # xs)) = (if xs = [] then f x else f x @ CHR '','' # join '','' (map f xs))"
  by (cases xs) simp_all

lemma show_json_not_Nil: "json_ok d j \<Longrightarrow> show_json j \<noteq> []"
  by (rule show_json_hd) auto

text \<open>What the parser of values is to do on the elements of an array or an object.\<close>

definition reads :: "nat \<Rightarrow> json \<Rightarrow> bool" where
  "reads d j \<longleftrightarrow> (\<forall>f r. stops r \<longrightarrow> 2 * length (show_json j @ r) + 1 \<le> f \<longrightarrow> parse_value f d (show_json j @ r) = Some (j, r))"

lemma readsD: "reads d j \<Longrightarrow> stops r \<Longrightarrow> 2 * length (show_json j @ r) + 1 \<le> f \<Longrightarrow> parse_value f d (show_json j @ r) = Some (j, r)"
  by (simp add: reads_def)

lemma parse_elems_show:
  assumes "js \<noteq> []" and "\<And>j. j \<in> set js \<Longrightarrow> reads d j"
    and "2 * length (join '','' (map show_json js) @ CHR '']'' # r) + 2 \<le> f"
  shows "parse_elems f d (join '','' (map show_json js) @ CHR '']'' # r) = Some (js, r)"
  using assms
proof (induction js arbitrary: f)
  case (Cons j js)
  obtain g where f: "f = Suc g" using Cons.prems(3) by (cases f) auto
  have j: "reads d j" using Cons.prems(2) by simp
  show ?case
  proof (cases "js = []")
    case True
    have "parse_value g d (show_json j @ CHR '']'' # r) = Some (j, CHR '']'' # r)"
      by (rule readsD [OF j]) (use Cons.prems(3) f True in simp_all)
    then show ?thesis by (simp add: f True skip_ws_id json_space_def byte_of_def)
  next
    case False
    let ?r = "join '','' (map show_json js) @ CHR '']'' # r"
    have "parse_value g d (show_json j @ CHR '','' # ?r) = Some (j, CHR '','' # ?r)"
      by (rule readsD [OF j]) (use Cons.prems(3) f False in \<open>simp_all add: join_map_Cons del: list.map\<close>)
    moreover have "parse_elems g d ?r = Some (js, r)"
      by (rule Cons.IH [OF False]) (use Cons.prems f False in \<open>simp_all add: join_map_Cons del: list.map\<close>)
    ultimately show ?thesis
      by (simp add: f False join_map_Cons skip_ws_id json_space_def byte_of_def del: list.map)
  qed
qed simp

abbreviation show_member :: "string \<times> json \<Rightarrow> string" where
  "show_member \<equiv> \<lambda>(k, j). (dquote # k @ [dquote]) @ '':'' @ show_json j"

lemma parse_members_show:
  assumes "ms \<noteq> []" and "\<And>k j. (k, j) \<in> set ms \<Longrightarrow> string_text k \<and> reads d j"
    and "2 * length (join '','' (map show_member ms) @ CHR ''}'' # r) + 2 \<le> f"
  shows "parse_members f d (join '','' (map show_member ms) @ CHR ''}'' # r) = Some (ms, r)"
  using assms
proof (induction ms arbitrary: f)
  case (Cons m ms)
  obtain k j where m: "m = (k, j)" by (cases m)
  obtain g where f: "f = Suc g" using Cons.prems(3) by (cases f) auto
  have kj: "string_text k" "reads d j" using Cons.prems(2) [of k j] by (simp_all add: m)
  have sc: "scan_string (k @ dquote # x) = Some (k, x)" for x by (rule scan_string_text [OF kj(1)])
  show ?case
  proof (cases "ms = []")
    case True
    have "parse_value g d (show_json j @ CHR ''}'' # r) = Some (j, CHR ''}'' # r)"
      by (rule readsD [OF kj(2)]) (use Cons.prems(3) f True m in simp_all)
    then show ?thesis
      using sc [of "CHR '':'' # show_json j @ CHR ''}'' # r"]
      by (simp add: f True m skip_ws_id json_space_def byte_of_def dquote_def)
  next
    case False
    let ?r = "join '','' (map show_member ms) @ CHR ''}'' # r"
    have "parse_value g d (show_json j @ CHR '','' # ?r) = Some (j, CHR '','' # ?r)"
      by (rule readsD [OF kj(2)]) (use Cons.prems(3) f False m in \<open>simp_all add: join_map_Cons del: list.map\<close>)
    moreover have "parse_members g d ?r = Some (ms, r)"
    proof (rule Cons.IH [OF False])
      show "string_text k \<and> reads d j" if "(k, j) \<in> set ms" for k j using Cons.prems(2) [of k j] that by simp
    qed (use Cons.prems(3) f False m in \<open>simp add: join_map_Cons del: list.map\<close>)
    ultimately show ?thesis
      using sc [of "CHR '':'' # show_json j @ CHR '','' # ?r"]
      by (simp add: f False m join_map_Cons skip_ws_id json_space_def byte_of_def dquote_def del: list.map)
  qed
qed simp

lemma json_ok_reads: "json_ok d j \<Longrightarrow> reads d j"
proof (induction j arbitrary: d)
  case JNull
  show ?case
    unfolding reads_def by (auto simp: after_prefix_def skip_ws_id json_space_def byte_of_def elim!: Suc_le_D [THEN exE] dest!: Suc_le_D)
next
  case (JBool b)
  show ?case
    unfolding reads_def by (cases b) (auto simp: after_prefix_def skip_ws_id json_space_def byte_of_def dest!: Suc_le_D)
next
  case (JNum t)
  obtain c cs where "show_json (JNum t) = c # cs" and c: "\<not> json_space c" by (rule show_json_hd [OF JNum])
  then have t: "t = c # cs" by simp
  have sn: "scan_number t = Some (t, [])" using JNum by simp
  have "c = CHR ''-'' \<or> is_digit c"
    using sn by (auto simp: t scan_number_def scan_sign_def scan_int_def is_digit_def byte_of_def split: if_splits option.splits)
  then have n: "c \<noteq> CHR ''{''" "c \<noteq> CHR ''[''" "byte_of c \<noteq> 34" "c \<noteq> CHR ''t''" "c \<noteq> CHR ''f''" "c \<noteq> CHR ''n''"
    by (auto simp: is_digit_def byte_of_def)
  show ?case unfolding reads_def
  proof (intro allI impI)
    fix f r assume r: "stops r" and f: "2 * length (show_json (JNum t) @ r) + 1 \<le> f"
    obtain g where "f = Suc g" using f by (cases f) auto
    then show "parse_value f d (show_json (JNum t) @ r) = Some (JNum t, r)"
      using scan_number_append [OF r sn] n c by (simp add: t skip_ws_id)
  qed
next
  case (JStr raw)
  show ?case unfolding reads_def
  proof (intro allI impI)
    fix f r assume f: "2 * length (show_json (JStr raw) @ r) + 1 \<le> f"
    obtain g where "f = Suc g" using f by (cases f) auto
    then show "parse_value f d (show_json (JStr raw) @ r) = Some (JStr raw, r)"
      using scan_string_text [of raw r] JStr by (simp add: skip_ws_id json_space_def byte_of_def dquote_def)
  qed
next
  case (JArr js)
  then obtain d' where d: "d = Suc d'" by (cases d) auto
  have rd: "reads d' j" if "j \<in> set js" for j using JArr that d by (simp add: list_all_iff)
  show ?case unfolding reads_def
  proof (intro allI impI)
    fix f r assume f: "2 * length (show_json (JArr js) @ r) + 1 \<le> f"
    obtain g where g: "f = Suc g" using f by (cases f) auto
    show "parse_value f d (show_json (JArr js) @ r) = Some (JArr js, r)"
    proof (cases js)
      case Nil
      then show ?thesis by (simp add: g d skip_ws_id json_space_def byte_of_def)
    next
      case (Cons x xs)
      have p: "parse_elems g d' (join '','' (map show_json js) @ CHR '']'' # r) = Some (js, r)"
        by (rule parse_elems_show) (use Cons rd f g in simp_all)
      have "json_ok d' x" using JArr.prems Cons d by simp
      then obtain c cs where c: "show_json x = c # cs" "\<not> json_space c" "c \<noteq> CHR '']''" by (rule show_json_hd)
      then obtain cs' where "join '','' (map show_json js) @ CHR '']'' # r = c # cs'"
        by (cases "xs = []") (simp_all add: Cons join_map_Cons del: list.map)
      then show ?thesis
        using p c by (simp add: g d skip_ws_id [of "CHR ''[''"] skip_ws_id [of c] json_space_def [of "CHR ''[''"] byte_of_def)
    qed
  qed
next
  case (JObj ms)
  then obtain d' where d: "d = Suc d'" by (cases d) auto
  have rd: "string_text k \<and> reads d' j" if "(k, j) \<in> set ms" for k j
    using JObj.prems JObj.IH [of "(k, j)" j d'] that d by (auto simp: list_all_iff)
  show ?case unfolding reads_def
  proof (intro allI impI)
    fix f r assume f: "2 * length (show_json (JObj ms) @ r) + 1 \<le> f"
    obtain g where g: "f = Suc g" using f by (cases f) auto
    show "parse_value f d (show_json (JObj ms) @ r) = Some (JObj ms, r)"
    proof (cases ms)
      case Nil
      then show ?thesis by (simp add: g d skip_ws_id json_space_def byte_of_def)
    next
      case (Cons x xs)
      have p: "parse_members g d' (join '','' (map show_member ms) @ CHR ''}'' # r) = Some (ms, r)"
        by (rule parse_members_show) (use Cons rd f g in simp_all)
      obtain cs' where c: "join '','' (map show_member ms) @ CHR ''}'' # r = dquote # cs'"
        by (cases x; cases "xs = []") (simp_all add: Cons join_map_Cons del: list.map)
      have "\<not> json_space dquote" "dquote \<noteq> CHR ''}''" by (simp_all add: json_space_def byte_of_def dquote_def)
      then show ?thesis
        using p c by (simp add: g d skip_ws_id [of "CHR ''{''"] skip_ws_id [of dquote] json_space_def [of "CHR ''{''"] byte_of_def)
    qed
  qed
qed

text \<open>The round trip.\<close>

lemma json_parse_show: "json_ok max_nesting j \<Longrightarrow> json_parse (show_json j) = Some j"
  using readsD [OF json_ok_reads, of max_nesting j "[]" "json_fuel (show_json j)"]
  by (simp add: json_parse_def json_fuel_def skip_ws_def)

end
