(* ===== verification/Slots.thy ===== *)
theory Slots
  imports Orchestrator
begin

text \<open>
  Limited concurrency: the tokens for searches under overload (\<open>orchestrator/orchestrator.go\<close>) and the slots for deep
  queries (\<open>executor/cli.go\<close>). Both are a buffered channel used as a semaphore; the interface \<open>slots\<close> is what the
  limit needs of them, and it is proved once for both. An acquisition that would block is \<open>None\<close>: it
  waits until a slot is released or its context is done.
\<close>

subsection \<open>A buffered channel\<close>

record chan =
  ch_cap :: nat
  ch_len :: nat

definition chan_send :: "chan \<Rightarrow> chan option" where
  "chan_send ch = (if ch_len ch < ch_cap ch then Some (ch\<lparr>ch_len := ch_len ch + 1\<rparr>) else None)"

definition chan_poll :: "chan \<Rightarrow> chan" where
  "chan_poll ch = (if 0 < ch_len ch then ch\<lparr>ch_len := ch_len ch - 1\<rparr> else ch)"

definition make_chan :: "int \<Rightarrow> chan" where
  "make_chan n = \<lparr>ch_cap = nat n, ch_len = 0\<rparr>"

subsection \<open>The two semaphores\<close>

definition query_tokens :: "runtime_config \<Rightarrow> chan option" where
  "query_tokens rt = (if 0 < rt_query_max_concurrency rt then Some (make_chan (rt_query_max_concurrency rt)) else None)"

definition acquire_query_slot :: "chan option \<Rightarrow> chan option option" where
  "acquire_query_slot tokens = (case tokens of None \<Rightarrow> Some None | Some ch \<Rightarrow> map_option Some (chan_send ch))"

definition query_slot_error :: "goerr \<Rightarrow> goerr" where
  "query_slot_error e = wrap_err ''query queue busy: '' e"

definition release_query_slot :: "chan option \<Rightarrow> chan option" where
  "release_query_slot tokens = map_option chan_poll tokens"

definition search_tokens :: "runtime_config \<Rightarrow> chan option" where
  "search_tokens rt = Some (make_chan (max_concurrent_search rt))"

text \<open>Whether a token was taken, and the tokens then.\<close>

definition acquire_overload_token :: "bool \<Rightarrow> chan option \<Rightarrow> (bool \<times> chan option) option" where
  "acquire_overload_token overloaded tokens =
     (if \<not> overloaded then Some (False, tokens)
      else case tokens of
             None \<Rightarrow> Some (False, None)
           | Some ch \<Rightarrow> map_option (\<lambda>ch. (True, Some ch)) (chan_send ch))"

definition overload_token_error :: "goerr \<Rightarrow> goerr" where
  "overload_token_error e = wrap_err ''overload search queue busy: '' e"

definition release_overload_token :: "bool \<Rightarrow> chan option \<Rightarrow> chan option" where
  "release_overload_token held tokens = (if held then map_option chan_poll tokens else tokens)"

subsection \<open>The interface\<close>

text \<open>Runs of holders that take and give back: the state of the semaphore and who holds a slot.\<close>

inductive slot_run :: "('s \<Rightarrow> 's option) \<Rightarrow> ('s \<Rightarrow> 's) \<Rightarrow> 's \<Rightarrow> 's \<times> nat list \<Rightarrow> bool" for acquire release s0 where
  nobody: "slot_run acquire release s0 (s0, [])"
| takes: "slot_run acquire release s0 (s, hs) \<Longrightarrow> acquire s = Some s' \<Longrightarrow> slot_run acquire release s0 (s', h # hs)"
| gives: "slot_run acquire release s0 (s, hs) \<Longrightarrow> h \<in> set hs \<Longrightarrow> slot_run acquire release s0 (release s, remove1 h hs)"

locale slots =
  fixes acquire :: "'s \<Rightarrow> 's option"
    and release :: "'s \<Rightarrow> 's"
    and used :: "'s \<Rightarrow> nat"
    and limit :: "'s \<Rightarrow> nat"
    and limited :: "'s \<Rightarrow> bool"
  assumes acquire_takes: "limited s \<Longrightarrow> acquire s = Some s' \<Longrightarrow>
      limited s' \<and> used s < limit s \<and> used s' = Suc (used s) \<and> limit s' = limit s"
    and acquire_free: "limited s \<Longrightarrow> used s < limit s \<Longrightarrow> acquire s \<noteq> None"
    and release_gives: "limited s \<Longrightarrow> limited (release s) \<and> used (release s) = used s - 1 \<and> limit (release s) = limit s"
begin

lemma holders_counted:
  assumes "slot_run acquire release s0 c" and "limited s0" and "used s0 = 0"
  shows "limited (fst c) \<and> used (fst c) = length (snd c) \<and> limit (fst c) = limit s0 \<and> length (snd c) \<le> limit s0"
  using assms
proof induction
  case (takes s hs s' h)
  then show ?case using acquire_takes [of s s'] by auto
next
  case (gives s hs h)
  then show ?case using release_gives [of s] by (auto simp: length_remove1)
qed simp

lemma holders_limited:
  assumes "slot_run acquire release s0 (s, hs)" and "limited s0" and "used s0 = 0"
  shows "length hs \<le> limit s0" and "acquire s \<noteq> None \<longleftrightarrow> length hs < limit s0"
proof -
  note c = holders_counted [OF assms]
  show "length hs \<le> limit s0" using c by simp
  show "acquire s \<noteq> None \<longleftrightarrow> length hs < limit s0"
    using c acquire_takes [of s] acquire_free [of s] by force
qed

end

definition tokens_used :: "chan option \<Rightarrow> nat" where
  "tokens_used t = (case t of None \<Rightarrow> 0 | Some ch \<Rightarrow> ch_len ch)"

definition tokens_limit :: "chan option \<Rightarrow> nat" where
  "tokens_limit t = (case t of None \<Rightarrow> 0 | Some ch \<Rightarrow> ch_cap ch)"

lemmas chan_defs = tokens_used_def tokens_limit_def chan_send_def chan_poll_def

interpretation query_slots: slots acquire_query_slot release_query_slot tokens_used tokens_limit "\<lambda>t. t \<noteq> None"
  by unfold_locales (auto simp: acquire_query_slot_def release_query_slot_def chan_defs split: option.splits if_splits)

interpretation overload_slots: slots "\<lambda>t. map_option snd (acquire_overload_token True t)" "release_overload_token True"
  tokens_used tokens_limit "\<lambda>t. t \<noteq> None"
  by unfold_locales (auto simp: acquire_overload_token_def release_overload_token_def chan_defs split: option.splits if_splits)

subsection \<open>Properties\<close>



text \<open>The same for keyword searches under overload and \<open>overload_max_concurrent_search\<close> (two when it is not
  positive); a search that is not overloaded takes no token and gives none back.\<close>

theorem overload_searches_are_limited:
  assumes "slot_run (\<lambda>t. map_option snd (acquire_overload_token True t)) (release_overload_token True) (search_tokens rt)
      (tokens, running)"
  shows "int (length running) \<le> max_concurrent_search rt \<and>
    (acquire_overload_token True tokens = None \<longleftrightarrow> int (length running) = max_concurrent_search rt) \<and>
    acquire_overload_token False tokens = Some (False, tokens) \<and> release_overload_token False tokens = tokens"
proof -
  have q: "search_tokens rt \<noteq> None" "tokens_used (search_tokens rt) = 0"
    "int (tokens_limit (search_tokens rt)) = max_concurrent_search rt"
    by (simp_all add: search_tokens_def make_chan_def tokens_used_def tokens_limit_def max_concurrent_search_def)
  have "(acquire_overload_token True tokens = None) = (\<not> length running < tokens_limit (search_tokens rt))"
    using overload_slots.holders_limited(2) [OF assms q(1,2)] by (metis map_option_is_None)
  then have "acquire_overload_token True tokens = None \<longleftrightarrow> int (length running) = max_concurrent_search rt"
    using overload_slots.holders_limited(1) [OF assms q(1,2)] q(3) by linarith
  moreover have "int (length running) \<le> max_concurrent_search rt"
    using overload_slots.holders_limited(1) [OF assms q(1,2)] q(3) by linarith
  ultimately show ?thesis by (simp add: acquire_overload_token_def release_overload_token_def)
qed

lemma overload_searches_are_limited_witness:
  "acquire_overload_token True (Some \<lparr>ch_cap = 1, ch_len = 1\<rparr>) = None"
proof -
  let ?rt = "runtime_defaults sample_runtime\<lparr>rt_overload_max_concurrent_search := 1\<rparr>"
  have a: "map_option snd (acquire_overload_token True (search_tokens ?rt)) = Some (Some \<lparr>ch_cap = 1, ch_len = 1\<rparr>)"
    by (simp add: search_tokens_def acquire_overload_token_def chan_send_def make_chan_def max_concurrent_search_def)
  have "slot_run (\<lambda>t. map_option snd (acquire_overload_token True t)) (release_overload_token True) (search_tokens ?rt)
      (Some \<lparr>ch_cap = 1, ch_len = 1\<rparr>, [7])"
    by (rule slot_run.takes [where hs = "[]"], rule slot_run.nobody, rule a)
  from overload_searches_are_limited [OF this] show ?thesis by (simp add: max_concurrent_search_def)
qed

end
