(* ===== verification/Cli_Promises.thy ===== *)
theory Cli_Promises
  imports Cli_Exec Json_Print Api_Convert Slots
begin

text \<open>The properties of the executor: what it passes to the command, what it reads back, and how its errors reach the client.\<close>

subsection \<open>Reading search results\<close>

lemma index_of_fresh: "c \<notin> set w \<Longrightarrow> index_of (w @ c # s) [c] = Some (length w)"
  by (induction w) auto

lemma json_parse_arr: "json_ok max_nesting (JArr js) \<Longrightarrow> json_parse (show_json (JArr js)) = Some (JArr js)"
  by (rule json_parse_show)


definition demo_hit_json :: json where
  "demo_hit_json = JObj [(''docid'', JStr ''#1''), (''score'', JNum ''0.5''), (''file'', JStr ''a.md'')]"

definition demo_hit :: search_result where
  "demo_hit = hit_zero\<lparr>sr_docid := ''#1'', sr_score := Fin (1/2), sr_file := ''a.md''\<rparr>"

lemma demo_score: "parse_float ''0.5'' = Some (Fin (1/2))"
proof -
  have q: "quotient_of (1/2) = (1, 2)" by code_simp
  have bl: "bit_len (Suc 0) = 1" "bit_len 2 = 2" by code_simp+
  have "ulp_exp (1/2) = - 53" by (simp add: ulp_exp_def q bl pow2_def)
  then have r: "round64 (1/2) = Some (Fin (1/2))" by (simp add: round64_def pow2_def round_half_even_def)
  have "special_float ''0.5'' = None" "drop_sign ''0.5'' = (False, ''0.5'')" "lower_byte (CHR ''.'') \<noteq> 120"
    "scan_mantissa False False False 0 0 ''0.5'' = (True, 5, 1, [])" by code_simp+
  then show ?thesis by (simp add: parse_float_def pow10_def r del: scan_mantissa.simps)
qed

lemma demo_texts: "unquote ''docid'' = ''docid''" "unquote ''score'' = ''score''" "unquote ''file'' = ''file''"
  "unquote ''#1'' = ''#1''" "unquote ''a.md'' = ''a.md''"
  by code_simp+

lemma demo_hit_decoded: "json_ok max_nesting (JArr [demo_hit_json])" "decode_elems decode_hit hit_zero [] [demo_hit_json] = Some [demo_hit]"
proof -
  show "json_ok max_nesting (JArr [demo_hit_json])" by code_simp
  show "decode_elems decode_hit hit_zero [] [demo_hit_json] = Some [demo_hit]"
    by (simp add: demo_hit_json_def demo_hit_def decode_hit_def decode_struct_def find_field_def demo_texts demo_score
        decode_string_def decode_f64_def del: unquote.simps)
qed


text \<open>When there is anything before the JSON, one hit whose text contains "No results found." makes the whole
  answer empty.\<close>

theorem quoted_no_results_drops_all_hits:
  assumes "json_parse (trim_space out) = None" and "str_contains (trim_space out) ''No results found.''"
  shows "parse_search_output out = Inr []"
proof -
  have "trim_space out \<noteq> []" using assms(2) by (auto simp: str_contains_def)
  then show ?thesis using assms by (simp add: parse_search_output_def unmarshal_slice_def unmarshal_def Let_def)
qed

definition demo_quoting_json :: json where
  "demo_quoting_json = JObj [(''docid'', JStr ''#1''), (''snippet'', JStr ''No results found.'')]"

lemma quoted_no_results_drops_all_hits_witness:
  "parse_search_output (''Warning: '' @ show_json (JArr [demo_quoting_json])) = Inr []"
proof (rule quoted_no_results_drops_all_hits)
  let ?out = "''Warning: '' @ show_json (JArr [demo_quoting_json])"
  have t: "trim_space ?out = ?out" by code_simp
  have "json_parse ?out = None" "str_contains ?out ''No results found.''" by code_simp+
  then show "json_parse (trim_space ?out) = None" "str_contains (trim_space ?out) ''No results found.''" unfolding t by simp_all
qed

subsection \<open>The text of the list of collections\<close>

definition named_cols :: "collection_info list \<Rightarrow> bool" where
  "named_cols cols \<longleftrightarrow> distinct (map ci_name cols) \<and> (\<forall>c\<in>set cols. ci_name c \<noteq> [] \<and> ci_path c = [])"

lemma named_add: "named_cols cols \<Longrightarrow> named_cols (add_named name cols)"
  by (auto simp: named_cols_def add_named_def has_collection_def collection_zero_def)

lemma named_update_last:
  assumes "named_cols cols" and "\<And>c. ci_name (f c) = ci_name c \<and> ci_path (f c) = ci_path c"
  shows "named_cols (update_last f cols)"
proof (cases cols rule: rev_cases)
  case (snoc xs x)
  then show ?thesis using assms by (auto simp: named_cols_def update_last_def)
qed (simp add: named_cols_def update_last_def)

lemma named_set_files: "named_cols cols \<Longrightarrow> named_cols (set_files line cols)"
  by (auto simp: set_files_def split: option.split intro: named_update_last)

lemma named_collection_line: "named_cols cols \<Longrightarrow> named_cols (collection_line l cols)"
  unfolding collection_line_def Let_def
  by (auto intro!: named_add named_set_files named_update_last)

lemma named_status_line: "named_cols (ix_collections (snd acc)) \<Longrightarrow> named_cols (ix_collections (snd (status_line l acc)))"
  by (cases acc) (auto simp: status_line_def Let_def intro!: named_add named_set_files split: option.split)

text \<open>What is read from a text listing is a list of collections with different, nonempty names, and never an empty one; the
  same holds of the collections in a status read from text.\<close>

theorem listed_collections_are_named:
  "(\<forall>cols. parse_collection_list_text out = Inr cols \<longrightarrow> cols \<noteq> [] \<and> named_cols cols) \<and>
   (\<forall>st. parse_status_text out = Inr st \<longrightarrow> named_cols (ix_collections st))"
proof (intro conjI allI impI)
  have "named_cols (fold collection_line ls cols)" if "named_cols cols" for ls cols
    using that by (induction ls arbitrary: cols) (simp_all add: named_collection_line)
  from this [of "[]"] show "cols \<noteq> []" "named_cols cols" if "parse_collection_list_text out = Inr cols" for cols
    using that by (auto simp: parse_collection_list_text_def Let_def named_cols_def split: if_splits)
  have s: "named_cols (ix_collections (snd (fold status_line ls acc)))" if "named_cols (ix_collections (snd acc))" for ls acc
    using that by (induction ls arbitrary: acc) (simp_all add: named_status_line)
  have "named_cols (ix_collections (snd (False, status_zero)))" by (simp add: status_zero_def named_cols_def)
  from s [OF this, of "split_on newline out"] show "named_cols (ix_collections st)" if "parse_status_text out = Inr st" for st
    using that by (auto simp: parse_status_text_def Let_def case_prod_beta split: if_splits)
qed

lemma listed_collections_are_named_witness:
  "\<exists>cols. parse_collection_list_text (''notes (qmd://notes/)'' @ newline # ''  Files:    12'') = Inr cols \<and> named_cols cols \<and>
     map ci_files cols = [12]"
proof -
  let ?out = "''notes (qmd://notes/)'' @ newline # ''  Files:    12''"
  have "parse_collection_list_text ?out = Inr [collection_zero\<lparr>ci_name := ''notes'', ci_files := 12\<rparr>]" by code_simp
  with listed_collections_are_named [of ?out] show ?thesis by (intro exI) (auto simp: collection_zero_def)
qed


subsection \<open>The graphics card\<close>

lemma hd_append_search_args: "args \<noteq> [] \<Longrightarrow> append_search_args args opts \<noteq> [] \<and> hd (append_search_args args opts) = hd args"
  by (simp add: append_search_args_def Let_def)

lemma new_cli_fields:
  assumes "new_cli qe cfg = Inr e"
  shows "ce_low_resource e = rt_low_resource_mode (cf_runtime cfg)" "ce_cpu_deep e = rt_allow_cpu_deep_query (cf_runtime cfg)"
    "ce_cpu_vsearch e = rt_allow_cpu_vsearch (cf_runtime cfg)"
    "rt_low_resource_mode (cf_runtime cfg) \<Longrightarrow> cp_vector (ce_caps e) \<Longrightarrow> ce_cpu_vsearch e"
    "rt_low_resource_mode (cf_runtime cfg) \<Longrightarrow> cp_deep_query (ce_caps e) \<Longrightarrow> ce_cpu_deep e"
  using assms
  by (auto simp: new_cli_def cli_probe_def limited_caps_def Let_def case_prod_beta split: option.splits if_splits)

definition same_without_gpu :: "qmd_env \<Rightarrow> qmd_env \<Rightarrow> bool" where
  "same_without_gpu a b \<longleftrightarrow>
     qe_now a = qe_now b \<and> qe_slot a = qe_slot b \<and> (\<lambda>i c. qe_run a i c True) = (\<lambda>i c. qe_run b i c True)"

lemma exec_search_gpu_off:
  assumes "same_without_gpu a b" and "should_disable_vulkan e args"
  shows "exec_search_args a e c args t = exec_search_args b e c args t"
proof -
  have "qe_run a i c True args = qe_run b i c True args" for i c
    using assms(1) by (simp add: same_without_gpu_def fun_eq_iff)
  then have "run_text a 0 e (in_time a 1 t c) args = run_text b 0 e (in_time b 1 t c) args"
    using assms by (simp add: run_text_def cli_run_def in_time_def same_without_gpu_def)
  then show ?thesis by (simp add: exec_search_args_def)
qed

text \<open>C29: In low resource mode a vector search and a deep query never run the command with the graphics card switched on: what
  such a run would have printed makes no difference.\<close>

theorem low_resource_searches_without_gpu:
  assumes "new_cli qe cfg = Inr e" and "rt_low_resource_mode (cf_runtime cfg)" and "same_without_gpu a b"
  shows "cli_vsearch a e c query opts = cli_vsearch b e c query opts \<and> cli_query a e c query opts = cli_query b e c query opts"
proof
  note f = new_cli_fields [OF assms(1)]
  let ?args = "\<lambda>op. append_search_args [op, query, ''--json''] opts"
  have hd: "?args op \<noteq> []" "hd (?args op) = op" for op using hd_append_search_args [of "[op, query, ''--json'']" opts] by auto
  have v: "should_disable_vulkan e (?args ''vsearch'')" if "cp_vector (ce_caps e)"
    using that f(1,4) assms(2) by (simp add: should_disable_vulkan_def hd)
  have q: "should_disable_vulkan e (?args ''query'')" if "cp_deep_query (ce_caps e)"
    using that f(1,5) assms(2) by (simp add: should_disable_vulkan_def hd)
  show "cli_vsearch a e c query opts = cli_vsearch b e c query opts"
    using exec_search_gpu_off [OF assms(3) v] by (simp add: cli_vsearch_def)
  have "qe_now a = qe_now b" "qe_slot a = qe_slot b" using assms(3) by (simp_all add: same_without_gpu_def)
  then show "cli_query a e c query opts = cli_query b e c query opts"
    using exec_search_gpu_off [OF assms(3) q] by (simp add: cli_query_def in_time_def Let_def cong: option.case_cong)
qed

definition demo_qmd :: "bool \<Rightarrow> qmd_env" where
  "demo_qmd gpu =
     \<lparr>qe_now = (\<lambda>i. int i),
      qe_run = (\<lambda>i c off args. \<lparr>ro_stdout = (if off \<or> \<not> gpu then [] else ''crash''), ro_end = Exited_Ok\<rparr>),
      qe_slot = (\<lambda>c. None), qe_json_error = (\<lambda>s. [])\<rparr>"

definition demo_opts :: search_opts where
  "demo_opts = \<lparr>op_collection = ''notes'', op_n = 5, op_min_score = Fin 0, op_full = False, op_files_only = False, op_all = False\<rparr>"

lemma low_resource_searches_without_gpu_witness:
  "\<exists>e. new_cli (demo_qmd False) sample_cfg = Inr e \<and> has_capability e ''deep_query'' \<and>
     cli_query (demo_qmd True) e background_ctx ''a'' demo_opts = cli_query (demo_qmd False) e background_ctx ''a'' demo_opts"
proof -
  have "isl (new_cli (demo_qmd False) sample_cfg) = False" by code_simp
  then obtain e where e: "new_cli (demo_qmd False) sample_cfg = Inr e" by (cases "new_cli (demo_qmd False) sample_cfg") auto
  have "case_sum (\<lambda>_. False) (\<lambda>e. has_capability e ''deep_query'') (new_cli (demo_qmd False) sample_cfg)" by code_simp
  then have h: "has_capability e ''deep_query''" by (simp add: e)
  have "same_without_gpu (demo_qmd True) (demo_qmd False)" by (simp add: same_without_gpu_def demo_qmd_def)
  moreover have "rt_low_resource_mode (cf_runtime sample_cfg)" by (simp add: sample_cfg_def sample_runtime_def)
  ultimately show ?thesis using low_resource_searches_without_gpu [OF e] e h by blast
qed

subsection \<open>Errors on their way to the client\<close>

lemma run_err_is: "err_is (run_err args x tail) k = err_is x k"
  by (simp add: run_err_def err_is_def)

lemma exec_search_interrupted:
  assumes "ro_end (qe_run qe 0 (in_time qe 1 t c) (should_disable_vulkan e args) args) = Context_Done x stderr"
  shows "exec_search_args qe e c args t = Inl (run_err args x ('': '' @ stderr))"
  using assms by (simp add: exec_search_args_def run_text_def cli_run_def Let_def)


definition demo_cli :: cli where
  "demo_cli =
     \<lparr>ce_caps = no_caps, ce_low_resource = False, ce_cpu_deep = False, ce_cpu_vsearch = False,
      ce_query_timeout = 0, ce_context_remove_cmd = []\<rparr>"

definition demo_late :: qmd_env where
  "demo_late = (demo_qmd False)\<lparr>qe_run := (\<lambda>i c off args. \<lparr>ro_stdout = [],
     ro_end = Context_Done \<lparr>err_msg = ''context deadline exceeded'', err_chain = [DeadlineExceeded]\<rparr> ''error: model not found''\<rparr>)\<rparr>"


lemma to_lower_ascii_append: "ascii_string a \<Longrightarrow> to_lower (a @ b) = to_lower a @ to_lower b"
  by (simp add: to_lower_def runes_ascii_append runes_ascii encode_runes_def)

text \<open>Output of the command that cannot be read as hits is reported to the client as one of its own errors, never as an internal
  one.\<close>

theorem unreadable_output_blames_client:
  assumes "exec_search_args qe e c args t = Inl y" and "run_text qe 0 e (in_time qe 1 t c) args = Inr out"
  shows "fst (map_search_error y) \<noteq> Code_Internal"
proof -
  have inv: "\<exists>x. parse_search_output out = Inl x \<and> err_msg x = ''invalid search output'' \<and>
      err_msg y = ''parse search results: '' @ err_msg x @ '' (output: '' @ first_runes 200 out @ '')''"
    using assms by (auto simp: exec_search_args_def parse_search_output_def Let_def plain_err_def split: sum.splits option.splits if_splits)
  let ?m = "''parse search results: invalid search output (output: ''"
  obtain x :: goerr where "err_msg x = ''invalid search output''"
    "err_msg y = ''parse search results: '' @ err_msg x @ '' (output: '' @ first_runes 200 out @ '')''"
    using inv by blast
  then have m: "err_msg y = ?m @ first_runes 200 out @ '')''" by simp
  have "to_lower (err_msg y) = to_lower ?m @ to_lower (first_runes 200 out @ '')'')"
    unfolding m by (rule to_lower_ascii_append) (simp add: ascii_string_def byte_of_def)
  moreover have "to_lower ?m = ''parse search results: '' @ ''invalid'' @ '' search output (output: ''" by code_simp
  ultimately have "str_contains (to_lower (err_msg y)) ''invalid''"
    by (simp only: append_assoc str_containsI)
  then show ?thesis by (simp add: map_search_error_def Let_def)
qed

lemma unreadable_output_blames_client_witness:
  "\<exists>y. exec_search_args (demo_qmd True) demo_cli background_ctx [''search'', ''a'', ''--json''] 1 = Inl y \<and>
     fst (map_search_error y) \<noteq> Code_Internal"
proof -
  let ?args = "[''search'', ''a'', ''--json'']"
  have "isl (exec_search_args (demo_qmd True) demo_cli background_ctx ?args 1)" by code_simp
  then obtain y where y: "exec_search_args (demo_qmd True) demo_cli background_ctx ?args 1 = Inl y"
    by (cases "exec_search_args (demo_qmd True) demo_cli background_ctx ?args 1") auto
  have "run_text (demo_qmd True) 0 demo_cli (in_time (demo_qmd True) 1 1 background_ctx) ?args = Inr ''crash''" by code_simp
  from unreadable_output_blames_client [OF y this] y show ?thesis by blast
qed

end
