(* ===== verification/Grpc_Server.thy ===== *)
theory Grpc_Server
  imports Api_Core Cli_Exec Scheduler Guardian Heartbeat
begin

text \<open>
  The gRPC services (\<open>api/grpc.go\<close>, \<open>api/admin_core.go\<close>, the answers to Health and Status of \<open>api/core.go\<close>): every
  handler from the decoded request message to the reply message or the status error. The messages are records with
  the fields of the generated structs, 32-bit integers as words. What a handler draws or measures
  (\<open>genRequestID\<close>, the time since its start) is in \<open>rpc_env\<close>; \<open>incoming\<close> is the context of a call with the values
  of the header \<open>x-trace-id\<close>, if there is any metadata. Listening, serving and logging are left out.
\<close>

type_synonym int32 = "32 word"

record incoming =
  in_ctx :: ctx
  in_trace_ids :: "string list option"

record rpc_env =
  re_request_id :: string
  re_latency_ms :: int

type_synonym 'a reply = "grpc_status + 'a"

subsection \<open>Request ids\<close>

definition gen_request_id :: "8 word list \<Rightarrow> string" where
  "gen_request_id b = concat (map (\<lambda>w. hex_digits 2 (unat w)) (take 6 b))"

definition trace_id_from_context :: "string \<Rightarrow> incoming \<Rightarrow> string" where
  "trace_id_from_context drawn c =
     (case in_trace_ids c of
        Some (v # vs) \<Rightarrow> let trace = trim_space v in if trace \<noteq> [] then trace else drawn
      | _ \<Rightarrow> drawn)"

definition normalize_trace_id :: "string \<Rightarrow> string \<Rightarrow> string" where
  "normalize_trace_id drawn trace_id = (let t = trim_space trace_id in if t = [] then drawn else t)"

subsection \<open>Messages\<close>

record hit_msg =
  hm_uri :: string
  hm_title :: string
  hm_snippet :: string
  hm_score :: f64
  hm_collection :: string

record doc_msg =
  dm_file :: string
  dm_content :: string

record search_msg =
  pq_query :: string
  pq_requested_mode :: proto_mode
  pq_collections :: "string list"
  pq_allow_fallback :: bool
  pq_timeout_ms :: int32
  pq_top_k :: int32
  pq_min_score :: f64
  pq_explain :: bool
  pq_files_only :: bool
  pq_files_all :: bool
  pq_confirm :: bool

record search_reply =
  rp_hits :: "hit_msg list"
  rp_served_mode :: served_mode
  rp_degraded :: bool
  rp_degrade_reason :: string
  rp_latency_ms :: int
  rp_trace_id :: string
  rp_route_log :: "string list"
  rp_formatted_text :: string

record search_and_get_msg =
  sq_query :: string
  sq_requested_mode :: proto_mode
  sq_collections :: "string list"
  sq_top_k :: int32
  sq_min_score :: f64
  sq_max_get_docs :: int32
  sq_max_get_bytes :: int32
  sq_allow_fallback :: bool
  sq_confirm :: bool

record search_and_get_reply =
  ar_file_hits :: "hit_msg list"
  ar_documents :: "doc_msg list"
  ar_formatted_text :: string
  ar_served_mode :: served_mode
  ar_degraded :: bool
  ar_degrade_reason :: string
  ar_latency_ms :: int
  ar_trace_id :: string

record get_msg =
  gm_doc_ref :: string
  gm_full :: bool
  gm_line_numbers :: bool

record get_reply =
  gr_content :: string
  gr_trace_id :: string
  gr_latency_ms :: int

record multi_get_msg =
  mg_pattern :: string
  mg_max_bytes :: int32

record multi_get_reply =
  mr_documents :: "doc_msg list"
  mr_trace_id :: string
  mr_latency_ms :: int

subsection \<open>Replies\<close>

definition to_proto_hit :: "search_result \<Rightarrow> hit_msg" where
  "to_proto_hit r = \<lparr>hm_uri = sr_file r, hm_title = sr_title r, hm_snippet = sr_snippet r, hm_score = sr_score r,
     hm_collection = sr_collection r\<rparr>"

definition to_proto_hits :: "search_result list \<Rightarrow> hit_msg list" where
  "to_proto_hits results = map to_proto_hit results"

definition to_proto_doc :: "document \<Rightarrow> doc_msg" where
  "to_proto_doc d = \<lparr>dm_file = doc_file d, dm_content = doc_content d\<rparr>"

definition to_proto_search_response :: "search_response \<Rightarrow> string list \<Rightarrow> search_reply" where
  "to_proto_search_response resp route_log =
     (let meta = rs_meta resp in
      \<lparr>rp_hits = to_proto_hits (rs_results resp), rp_served_mode = served_mode_to_proto (sm_served_mode meta),
       rp_degraded = sm_degraded meta, rp_degrade_reason = to_upper (sm_degrade_reason meta),
       rp_latency_ms = sm_latency_ms meta, rp_trace_id = sm_trace_id meta, rp_route_log = route_log,
       rp_formatted_text = rs_formatted_text resp\<rparr>)"

definition to_proto_search_and_get_response :: "search_and_get_response \<Rightarrow> search_and_get_reply" where
  "to_proto_search_and_get_response resp =
     (let meta = sg_meta resp in
      \<lparr>ar_file_hits = to_proto_hits (sg_file_hits resp), ar_documents = map to_proto_doc (sg_documents resp),
       ar_formatted_text = sg_formatted_text resp, ar_served_mode = served_mode_to_proto (sm_served_mode meta),
       ar_degraded = sm_degraded meta, ar_degrade_reason = to_upper (sm_degrade_reason meta),
       ar_latency_ms = sm_latency_ms meta, ar_trace_id = sm_trace_id meta\<rparr>)"

subsection \<open>The query service\<close>

definition search_core_request_of :: "config \<Rightarrow> string \<Rightarrow> search_msg \<Rightarrow> search_core_request" where
  "search_core_request_of cfg trace_id req =
     (let requested = requested_mode_from_proto (pq_requested_mode req) in
      \<lparr>rq_query = pq_query req, rq_requested_mode = requested, rq_collections = pq_collections req,
       rq_allow_fallback = allow_fallback_from_proto (pq_allow_fallback req) requested (sc_fallback_enabled (cf_search cfg)),
       rq_timeout_ms = sint (pq_timeout_ms req), rq_top_k = sint (pq_top_k req), rq_min_score = pq_min_score req,
       rq_explain = pq_explain req, rq_files_only = pq_files_only req, rq_files_all = pq_files_all req,
       rq_trace_id = trace_id, rq_confirm = pq_confirm req\<rparr>)"

definition search_rpc :: "api_env \<Rightarrow> config \<Rightarrow> incoming \<Rightarrow> search_msg \<Rightarrow> orch \<Rightarrow> search_reply reply \<times> orch" where
  "search_rpc av cfg c req st =
     (let (r, st) = execute_search_core av cfg (in_ctx c)
            (search_core_request_of cfg (trace_id_from_context (av_request_id av) c) req) st
      in (case r of
            Inl e \<Rightarrow> Inl (map_search_error e)
          | Inr res \<Rightarrow> Inr (to_proto_search_response (cr_response res) (cr_route_log res)), st))"

definition get_allow_fallback :: "bool \<Rightarrow> string \<Rightarrow> bool \<Rightarrow> bool" where
  "get_allow_fallback allow requested fallback_default =
     (if \<not> allow then
        (if requested = ''deep'' \<or> requested = ''broad'' then True
         else if requested = ''core'' then False
         else fallback_default)
      else allow)"

definition get_core_request_of :: "config \<Rightarrow> string \<Rightarrow> search_and_get_msg \<Rightarrow> search_and_get_core_request" where
  "get_core_request_of cfg trace_id req =
     (let requested = requested_mode_from_proto (sq_requested_mode req) in
      \<lparr>gq_query = sq_query req, gq_requested_mode = requested, gq_collections = sq_collections req,
       gq_allow_fallback = get_allow_fallback (sq_allow_fallback req) requested (sc_fallback_enabled (cf_search cfg)),
       gq_top_k = sint (sq_top_k req), gq_min_score = sq_min_score req, gq_max_get_docs = sint (sq_max_get_docs req),
       gq_max_get_bytes = sint (sq_max_get_bytes req), gq_trace_id = trace_id, gq_confirm = sq_confirm req\<rparr>)"

definition search_and_get_rpc :: "api_env \<Rightarrow> config \<Rightarrow> incoming \<Rightarrow> search_and_get_msg \<Rightarrow> orch \<Rightarrow>
    search_and_get_reply reply \<times> orch" where
  "search_and_get_rpc av cfg c req st =
     (let (r, st) = execute_search_and_get_core av cfg (in_ctx c)
            (get_core_request_of cfg (trace_id_from_context (av_request_id av) c) req) st
      in (case r of
            Inl e \<Rightarrow> Inl (map_search_error e)
          | Inr res \<Rightarrow> Inr (to_proto_search_and_get_response res), st))"

definition get_rpc :: "(ctx \<Rightarrow> string \<Rightarrow> get_opts \<Rightarrow> string \<times> goerr option) \<Rightarrow> rpc_env \<Rightarrow> incoming \<Rightarrow> get_msg \<Rightarrow>
    get_reply reply" where
  "get_rpc exec_get rv c req =
     (let (content, err) = exec_get (in_ctx c) (gm_doc_ref req)
            \<lparr>go_full = gm_full req, go_line_numbers = gm_line_numbers req\<rparr>
      in case err of
           Some e \<Rightarrow> Inl (map_search_error e)
         | None \<Rightarrow> Inr \<lparr>gr_content = content, gr_trace_id = trace_id_from_context (re_request_id rv) c,
                        gr_latency_ms = re_latency_ms rv\<rparr>)"

definition multi_get_rpc :: "(ctx \<Rightarrow> string \<Rightarrow> int \<Rightarrow> document list result) \<Rightarrow> rpc_env \<Rightarrow> incoming \<Rightarrow> multi_get_msg \<Rightarrow>
    multi_get_reply reply" where
  "multi_get_rpc exec_multi_get rv c req =
     (case exec_multi_get (in_ctx c) (mg_pattern req) (sint (mg_max_bytes req)) of
        Inl e \<Rightarrow> Inl (map_search_error e)
      | Inr docs \<Rightarrow> Inr \<lparr>mr_documents = map to_proto_doc docs, mr_trace_id = trace_id_from_context (re_request_id rv) c,
                        mr_latency_ms = re_latency_ms rv\<rparr>)"

subsection \<open>Health and status\<close>

record component_msg =
  hc_name :: string
  hc_status :: string
  hc_message :: string

record health_reply =
  hr_status :: string
  hr_components :: "component_msg list"
  hr_mode :: string
  hr_uptime_sec :: int

definition component_of :: "system_health \<Rightarrow> string \<Rightarrow> component_msg list" where
  "component_of h name =
     (case mget (sh_components h) name of
        None \<Rightarrow> []
      | Some ch \<Rightarrow> [\<lparr>hc_name = name, hc_status = ch_level_str ch, hc_message = ch_message ch\<rparr>])"

definition guard_component :: "string \<Rightarrow> string \<Rightarrow> component_msg" where
  "guard_component status message = \<lparr>hc_name = ''cpu_guard'', hc_status = status, hc_message = message\<rparr>"

definition build_health_response :: "system_health \<Rightarrow> bool \<Rightarrow> bool \<Rightarrow> health_reply" where
  "build_health_response h critical overloaded =
     (let comps = concat (map (component_of h) (sort (mkeys (sh_components h))));
          resp = \<lparr>hr_status = sh_overall_str h, hr_components = comps,
                  hr_mode = (if sh_mode h = [] then ''normal'' else sh_mode h), hr_uptime_sec = sh_uptime_sec h\<rparr>
      in if critical then
           resp\<lparr>hr_mode := ''cpu_critical_overloaded'', hr_status := ''unhealthy'',
                hr_components := comps @ [guard_component ''critical'' ''critical overload shedding new uncached requests'']\<rparr>
         else if overloaded then
           resp\<lparr>hr_mode := ''cpu_overloaded'',
                hr_status := (if equal_fold (hr_status resp) ''healthy'' then ''degraded'' else hr_status resp),
                hr_components := comps @ [guard_component ''degraded''
                  ''overload protection active, forcing search mode and limiting concurrency'']\<rparr>
         else resp)"

record status_reply =
  tr_version :: string
  tr_commit :: string
  tr_low_resource_mode :: bool
  tr_allow_cpu_deep_query :: bool
  tr_deep_query_enabled :: bool
  tr_vector_enabled :: bool
  tr_query_max_concurrency :: int
  tr_query_timeout_ms :: int
  tr_deep_fail_timeout_ms :: int
  tr_deep_negative_ttl_sec :: int
  tr_trace_id :: string
  tr_cpu_overloaded :: bool
  tr_cpu_critical_overloaded :: bool
  tr_overload_max_concurrent_search :: int

definition build_status_response :: "string \<times> string \<Rightarrow> string \<Rightarrow> runtime_config \<Rightarrow> (string \<Rightarrow> bool) \<Rightarrow> bool \<Rightarrow> bool \<Rightarrow> string \<Rightarrow>
    status_reply" where
  "build_status_response build drawn rt has_cap overloaded critical trace_id =
     \<lparr>tr_version = fst build, tr_commit = snd build, tr_low_resource_mode = rt_low_resource_mode rt,
      tr_allow_cpu_deep_query = rt_allow_cpu_deep_query rt, tr_deep_query_enabled = has_cap ''deep_query'',
      tr_vector_enabled = has_cap ''vector'', tr_query_max_concurrency = go_int32 (rt_query_max_concurrency rt),
      tr_query_timeout_ms = duration_to_int32_ms (rt_query_timeout rt),
      tr_deep_fail_timeout_ms = duration_to_int32_ms (rt_deep_fail_timeout rt),
      tr_deep_negative_ttl_sec = duration_to_int32_sec (rt_deep_negative_ttl rt),
      tr_trace_id = (if trim_space trace_id = [] then drawn else trace_id),
      tr_cpu_overloaded = overloaded, tr_cpu_critical_overloaded = critical,
      tr_overload_max_concurrent_search = go_int32 (rt_overload_max_concurrent_search rt)\<rparr>"

subsection \<open>The admin service\<close>

record admin_op_result =
  ad_message :: string
  ad_trace_id :: string
  ad_latency_ms :: int

definition admin_done :: "rpc_env \<Rightarrow> string \<Rightarrow> string \<Rightarrow> admin_op_result" where
  "admin_done rv trace_id message =
     \<lparr>ad_message = message, ad_trace_id = normalize_trace_id (re_request_id rv) trace_id, ad_latency_ms = re_latency_ms rv\<rparr>"

definition admin_outcome :: "rpc_env \<Rightarrow> string \<Rightarrow> string \<Rightarrow> goerr option \<Rightarrow> admin_op_result result" where
  "admin_outcome rv trace_id message err =
     (case err of Some e \<Rightarrow> Inl e | None \<Rightarrow> Inr (admin_done rv trace_id message))"

definition execute_admin_reindex_core :: "rpc_env \<Rightarrow> task_env \<Rightarrow> string \<Rightarrow> sched_sys \<Rightarrow> admin_op_result result \<times> sched_sys" where
  "execute_admin_reindex_core rv te trace_id s =
     (let (err, s) = trigger_reindex te s in (admin_outcome rv trace_id ''reindex triggered'' err, s))"

definition execute_admin_embed_core :: "rpc_env \<Rightarrow> runtime_config \<Rightarrow> task_env \<Rightarrow> string \<Rightarrow> bool \<Rightarrow> sched_sys \<Rightarrow>
    admin_op_result result \<times> sched_sys" where
  "execute_admin_embed_core rv rt te trace_id force s =
     (let message = (if force then ''full embed triggered'' else ''embed triggered'') in
      if rt_low_resource_mode rt \<and> \<not> (rt_allow_cpu_vsearch rt \<or> rt_allow_cpu_deep_query rt)
      then (Inr (admin_done rv trace_id ''embed disabled in low_resource_mode''), s)
      else let (err, s) = trigger_embed rt te force s in (admin_outcome rv trace_id message err, s))"

definition execute_admin_cache_clear_core :: "rpc_env \<Rightarrow> string \<Rightarrow> orch \<Rightarrow> admin_op_result result \<times> orch" where
  "execute_admin_cache_clear_core rv trace_id st = (Inr (admin_done rv trace_id ''cache cleared''), clear_cache st)"

record admin_collections_result =
  cs_collections :: "collection_info list"
  cs_trace_id :: string
  cs_latency_ms :: int

definition execute_admin_collections_core :: "rpc_env \<Rightarrow> collection_info list result \<Rightarrow> string \<Rightarrow>
    admin_collections_result result" where
  "execute_admin_collections_core rv listed trace_id =
     (case listed of
        Inl e \<Rightarrow> Inl e
      | Inr cols \<Rightarrow> Inr \<lparr>cs_collections = cols, cs_trace_id = normalize_trace_id (re_request_id rv) trace_id,
                        cs_latency_ms = re_latency_ms rv\<rparr>)"

definition guardian_unavailable_err :: goerr where
  "guardian_unavailable_err = \<lparr>err_msg = ''guardian not available'', err_chain = [GuardianUnavailable]\<rparr>"

text \<open>The guardian is a pointer that may be nil; the restart ends with the given outcomes of its two executor calls.\<close>

definition execute_admin_mcp_restart_core :: "rpc_env \<Rightarrow> goerr option \<Rightarrow> goerr option \<Rightarrow> time \<Rightarrow> string \<Rightarrow> guardian option \<Rightarrow>
    admin_op_result result \<times> guardian option" where
  "execute_admin_mcp_restart_core rv start_err health_err now trace_id guard =
     (case guard of
        None \<Rightarrow> (Inl guardian_unavailable_err, None)
      | Some g \<Rightarrow>
          let (err, g) = restart_mcp start_err health_err now g
          in (admin_outcome rv trace_id ''mcp restart triggered'' err, Some g))"

record op_reply =
  pr_ok :: bool
  pr_message :: string
  pr_trace_id :: string
  pr_latency_ms :: int

definition to_proto_op_response :: "admin_op_result \<Rightarrow> op_reply" where
  "to_proto_op_response res =
     \<lparr>pr_ok = True, pr_message = ad_message res, pr_trace_id = ad_trace_id res, pr_latency_ms = ad_latency_ms res\<rparr>"

definition op_answer :: "admin_op_result result \<Rightarrow> op_reply reply" where
  "op_answer r = (case r of Inl e \<Rightarrow> Inl (map_admin_rpc_error e) | Inr res \<Rightarrow> Inr (to_proto_op_response res))"

definition reindex_rpc :: "rpc_env \<Rightarrow> task_env \<Rightarrow> incoming \<Rightarrow> sched_sys \<Rightarrow> op_reply reply \<times> sched_sys" where
  "reindex_rpc rv te c s =
     (let (r, s) = execute_admin_reindex_core rv te (trace_id_from_context (re_request_id rv) c) s in (op_answer r, s))"

definition embed_rpc :: "rpc_env \<Rightarrow> runtime_config \<Rightarrow> task_env \<Rightarrow> incoming \<Rightarrow> bool \<Rightarrow> sched_sys \<Rightarrow> op_reply reply \<times> sched_sys" where
  "embed_rpc rv rt te c force s =
     (let (r, s) = execute_admin_embed_core rv rt te (trace_id_from_context (re_request_id rv) c) force s in (op_answer r, s))"

definition cache_clear_rpc :: "rpc_env \<Rightarrow> incoming \<Rightarrow> orch \<Rightarrow> op_reply reply \<times> orch" where
  "cache_clear_rpc rv c st =
     (let (r, st) = execute_admin_cache_clear_core rv (trace_id_from_context (re_request_id rv) c) st in (op_answer r, st))"

definition mcp_restart_rpc :: "rpc_env \<Rightarrow> goerr option \<Rightarrow> goerr option \<Rightarrow> time \<Rightarrow> incoming \<Rightarrow> guardian option \<Rightarrow>
    op_reply reply \<times> guardian option" where
  "mcp_restart_rpc rv start_err health_err now c guard =
     (let (r, guard) = execute_admin_mcp_restart_core rv start_err health_err now
            (trace_id_from_context (re_request_id rv) c) guard
      in (op_answer r, guard))"

record collection_msg =
  cm_name :: string
  cm_path :: string
  cm_mask :: string
  cm_files :: int

record collections_reply =
  lr_collections :: "collection_msg list"
  lr_trace_id :: string
  lr_latency_ms :: int

definition to_proto_collection :: "collection_info \<Rightarrow> collection_msg" where
  "to_proto_collection col =
     \<lparr>cm_name = ci_name col, cm_path = ci_path col, cm_mask = ci_mask col, cm_files = int_to_int32 (ci_files col)\<rparr>"

definition collections_rpc :: "rpc_env \<Rightarrow> collection_info list result \<Rightarrow> incoming \<Rightarrow> collections_reply reply" where
  "collections_rpc rv listed c =
     (case execute_admin_collections_core rv listed (trace_id_from_context (re_request_id rv) c) of
        Inl e \<Rightarrow> Inl (map_admin_rpc_error e)
      | Inr res \<Rightarrow> Inr \<lparr>lr_collections = map to_proto_collection (cs_collections res), lr_trace_id = cs_trace_id res,
                        lr_latency_ms = cs_latency_ms res\<rparr>)"

end
