(* ===== verification/Grpc_Promises.thy ===== *)
theory Grpc_Promises
  imports Grpc_Server Api_Promises
begin

text \<open>The properties of the services as a client sees them: the replies, the status codes, health, and the admin operations.\<close>

subsection \<open>Request ids\<close>

lemma hex_digit_plain: "n < 16 \<Longrightarrow> byte_of (hex_digit n) < 128 \<and> \<not> rune_is_space (byte_of (hex_digit n))"
proof -
  have "list_all (\<lambda>n. byte_of (hex_digit n) < 128 \<and> \<not> rune_is_space (byte_of (hex_digit n))) [0 ..< 16]" by code_simp
  then show "n < 16 \<Longrightarrow> byte_of (hex_digit n) < 128 \<and> \<not> rune_is_space (byte_of (hex_digit n))" by (simp add: list_all_iff)
qed

lemma hex_digits_plain: "c \<in> set (hex_digits k n) \<Longrightarrow> byte_of c < 128 \<and> \<not> rune_is_space (byte_of c)"
  by (induction k n rule: hex_digits.induct) (auto simp: hex_digit_plain)

lemma gen_request_id_trim: "trim_space (gen_request_id b) = gen_request_id b"
proof (cases "gen_request_id b = []")
  case False
  have "byte_of c < 128 \<and> \<not> rune_is_space (byte_of c)" if "c \<in> set (gen_request_id b)" for c
    using that hex_digits_plain by (auto simp: gen_request_id_def)
  with False show ?thesis by (intro trim_space_ascii_id) (simp_all add: ascii_string_def)
qed simp

lemma core_trace_id_incoming:
  assumes "av_request_id av = gen_request_id b"
  shows "core_trace_id av (trace_id_from_context (av_request_id av) c) = trace_id_from_context (av_request_id av) c"
  using gen_request_id_trim [of b]
  by (auto simp: core_trace_id_def trace_id_from_context_def assms Let_def split: option.splits list.splits)

subsection \<open>Replies to searches\<close>

lemma encode_rune_not_Nil: "encode_rune r \<noteq> []"
  by (simp add: encode_rune_def length_encode_bytes)

lemma to_upper_Nil [simp]: "to_upper s = [] \<longleftrightarrow> s = []"
proof -
  have "runes s = [] \<longleftrightarrow> s = []" using concat_rune_chunks [of s] by (auto simp: runes_def)
  then show ?thesis by (auto simp: to_upper_def encode_runes_def encode_rune_not_Nil)
qed

lemma derived_mode_named: "served_mode_to_proto (derive_served_mode req used fb deg) \<noteq> Served_Unspecified"
proof -
  have "derive_served_mode req used fb deg \<in> {''deep'', ''broad'', ''core''}" by (simp add: derive_served_mode_def)
  moreover have "served_mode_to_proto ''deep'' = Served_Deep" "served_mode_to_proto ''broad'' = Served_Broad"
    "served_mode_to_proto ''core'' = Served_Core" by code_simp+
  ultimately show ?thesis by auto
qed

lemma core_answer_fields:
  assumes "fst (execute_search_core av cfg c req st) = Inr res"
  shows "\<exists>used fb deg. sm_served_mode (meta_of res) =
      derive_served_mode (normalize_requested_mode (rq_requested_mode req)) used fb deg"
    and "sm_trace_id (meta_of res) = core_trace_id av (rq_trace_id req)"
proof -
  have res: "res = finish_search av cfg req (normalize_requested_mode (rq_requested_mode req))
      (core_trace_id av (rq_trace_id req)) (core_plan av cfg req) (absorb_all (core_outcomes av cfg c req st) acc_new)"
    using assms unfolding execute_search_core_outcomes by (auto split: if_splits)
  show "\<exists>used fb deg. sm_served_mode (meta_of res) =
      derive_served_mode (normalize_requested_mode (rq_requested_mode req)) used fb deg"
    unfolding res finish_search_fields(1) served_of_def by blast
  show "sm_trace_id (meta_of res) = core_trace_id av (rq_trace_id req)" by (simp add: res finish_search_fields(4))
qed



definition demo_incoming :: incoming where
  "demo_incoming = \<lparr>in_ctx = demo_ctx, in_trace_ids = Some ['' t7 '']\<rparr>"

definition demo_msg :: "proto_mode \<Rightarrow> search_msg" where
  "demo_msg mode = \<lparr>pq_query = ''cache keys'', pq_requested_mode = mode, pq_collections = [], pq_allow_fallback = False,
     pq_timeout_ms = 0, pq_top_k = 5, pq_min_score = Fin (1/2), pq_explain = False, pq_files_only = False,
     pq_files_all = False, pq_confirm = False\<rparr>"

definition demo_rpc_api :: api_env where
  "demo_rpc_api = (demo_api demo_exec 5)\<lparr>av_request_id := gen_request_id [0, 255, 0, 255, 0, 255]\<rparr>"


subsection \<open>Status codes\<close>

lemma required_is_invalid_argument:
  "map_search_error (plain_err ''query is required'') = (Code_InvalidArgument, ''query is required'')"
  by code_simp

lemma shed_is_resource_exhausted:
  "map_search_error shed_err = (Code_ResourceExhausted, ''RESOURCE_EXHAUSTED: cpu critical overload shed'')"
  by (simp add: map_search_error_def shed_err_def err_is_def)

text \<open>What goes wrong before any search has a status code of its own: a blank query is an invalid argument for both
  services, whatever the load, and touches nothing; a search that critical overload sheds is an exhausted resource.\<close>

theorem search_status_codes:
  "(trim_space (pq_query req) = [] \<longrightarrow>
      search_rpc av cfg c req st = (Inl (Code_InvalidArgument, ''query is required''), st)) \<and>
   (trim_space (sq_query greq) = [] \<longrightarrow>
      search_and_get_rpc av cfg c greq st = (Inl (Code_InvalidArgument, ''query is required''), st)) \<and>
   (trim_space (pq_query req) \<noteq> [] \<and>
      \<not> fst (shed_check av cfg (search_core_request_of cfg (trace_id_from_context (av_request_id av) c) req) st) \<longrightarrow>
      fst (search_rpc av cfg c req st) = Inl (Code_ResourceExhausted, ''RESOURCE_EXHAUSTED: cpu critical overload shed''))"
  by (auto simp: search_rpc_def search_and_get_rpc_def execute_search_core_def execute_search_and_get_core_def
      search_core_request_of_def get_core_request_of_def shed_check_def Let_def case_prod_beta
      required_is_invalid_argument shed_is_resource_exhausted)

lemma search_status_codes_witness:
  "fst (search_rpc demo_rpc_api demo_cfg demo_incoming ((demo_msg Mode_Deep)\<lparr>pq_query := '' ''\<rparr>) (orch_new 0 demo_cfg)) =
     Inl (Code_InvalidArgument, ''query is required'') \<and>
   fst (search_rpc (demo_rpc_api\<lparr>av_critical := True\<rparr>) demo_cfg demo_incoming (demo_msg Mode_Core) (orch_new 0 demo_cfg)) =
     Inl (Code_ResourceExhausted, ''RESOURCE_EXHAUSTED: cpu critical overload shed'')"
proof -
  let ?av = "demo_rpc_api\<lparr>av_critical := True\<rparr>"
  have b: "trim_space '' '' = []" "trim_space (pq_query (demo_msg Mode_Core)) \<noteq> []" by code_simp+
  have "\<not> fst (shed_check ?av demo_cfg
      (search_core_request_of demo_cfg (trace_id_from_context (av_request_id ?av) demo_incoming) (demo_msg Mode_Core)) (orch_new 0 demo_cfg))"
    by code_simp
  with b search_status_codes [of "(demo_msg Mode_Deep)\<lparr>pq_query := '' ''\<rparr>" demo_rpc_api demo_cfg demo_incoming "orch_new 0 demo_cfg"]
    search_status_codes [of "demo_msg Mode_Core" ?av demo_cfg demo_incoming "orch_new 0 demo_cfg"]
  show ?thesis by simp
qed

subsection \<open>Health\<close>

lemma equal_fold_healthy: "equal_fold (level_str l) ''healthy'' \<longleftrightarrow> l = Healthy"
proof -
  have "list_all (\<lambda>l. equal_fold (level_str l) ''healthy'' = (l = Healthy)) [Healthy, Degraded, Unhealthy, Critical]" by code_simp
  then show ?thesis by (cases l) simp_all
qed

lemma level_str_healthy: "level_str l = ''healthy'' \<longleftrightarrow> l = Healthy"
  by (cases l) simp_all

lemma tracked_levels:
  "mwf (tk_components (tracked t0 rs)) \<and>
   (\<forall>name ch. mget (tk_components (tracked t0 rs)) name = Some ch \<longrightarrow> ch_level_str ch = level_str (ch_level ch))"
proof (induction rs rule: rev_induct)
  case (snoc r rs)
  obtain t n l m where r: "r = (t, n, l, m)" by (cases r) auto
  show ?case using snoc
    by (simp add: r tracked_snoc tracker_update_def component_report_def Let_def gm.get_put gm.wf_put split: option.split)
qed (simp add: tracked_def tracker_new_def mwf_def mget_def)

lemma component_msgs_named:
  assumes "set names \<subseteq> set (mkeys (sh_components h))"
  shows "map hc_name (concat (map (component_of h) names)) = names"
  using assms
proof (induction names)
  case (Cons a names)
  then obtain ch where "mget (sh_components h) a = Some ch" by (auto simp: gm.set_keys)
  with Cons show ?case by (simp add: component_of_def)
qed simp

text \<open>C27: A health reply tells the worst: after any history of reports it says healthy exactly when every component reported
  so last and the cpu guard is calm; it lists the components by name with what they reported last, and the guard when it
  is active. Critical overload makes it unhealthy whatever the components say, also when one of them is critical.\<close>

theorem health_reply_tells_the_worst:
  fixes now t0 :: time and rs :: "(time \<times> report) list" and critical busy :: bool
  defines "comps \<equiv> tk_components (tracked t0 rs)"
    and "rep \<equiv> build_health_response (get_health now (tracked t0 rs)) critical busy"
  shows "(hr_status rep = ''healthy'' \<longleftrightarrow>
      \<not> critical \<and> \<not> busy \<and> (\<forall>name ch. mget comps name = Some ch \<longrightarrow> ch_level ch = Healthy)) \<and>
    (critical \<longrightarrow> hr_status rep = ''unhealthy'' \<and> hr_mode rep = ''cpu_critical_overloaded'') \<and>
    map hc_name (hr_components rep) = sort (mkeys comps) @ (if critical \<or> busy then [''cpu_guard''] else []) \<and>
    (\<forall>name ch. mget comps name = Some ch \<longrightarrow>
       \<lparr>hc_name = name, hc_status = level_str (ch_level ch), hc_message = ch_message ch\<rparr> \<in> set (hr_components rep))"
proof -
  let ?h = "get_health now (tracked t0 rs)"
  let ?msgs = "concat (map (component_of ?h) (sort (mkeys comps)))"
  have wf: "mwf comps" and lv: "\<And>name ch. mget comps name = Some ch \<Longrightarrow> ch_level_str ch = level_str (ch_level ch)"
    using tracked_levels [of t0 rs] by (auto simp: comps_def)
  have h: "sh_components ?h = comps" "sh_overall_str ?h = level_str (sh_overall ?h)" by (simp_all add: get_health_def comps_def Let_def)
  have worst: "sh_overall ?h = Healthy \<longleftrightarrow> (\<forall>name ch. mget comps name = Some ch \<longrightarrow> ch_level ch = Healthy)"
    using get_health_worst [of "tracked t0 rs" now] wf Healthy_le
    by (metis comps_def order_antisym)
  have c: "hr_components rep = ?msgs @ (if critical then [guard_component ''critical'' ''critical overload shedding new uncached requests'']
      else if busy then [guard_component ''degraded'' ''overload protection active, forcing search mode and limiting concurrency''] else [])"
    by (simp add: rep_def build_health_response_def h Let_def)
  have "map hc_name ?msgs = sort (mkeys comps)" by (rule component_msgs_named) (simp add: h)
  then have names: "map hc_name (hr_components rep) = sort (mkeys comps) @ (if critical \<or> busy then [''cpu_guard''] else [])"
    by (simp add: c guard_component_def)
  have "\<lparr>hc_name = name, hc_status = level_str (ch_level ch), hc_message = ch_message ch\<rparr> \<in> set (hr_components rep)"
    if "mget comps name = Some ch" for name ch
  proof -
    have "name \<in> set (sort (mkeys comps))" using that by (simp add: gm.set_keys)
    moreover have "component_of ?h name = [\<lparr>hc_name = name, hc_status = level_str (ch_level ch), hc_message = ch_message ch\<rparr>]"
      using that lv by (simp add: component_of_def h)
    ultimately have "\<lparr>hc_name = name, hc_status = level_str (ch_level ch), hc_message = ch_message ch\<rparr> \<in> set ?msgs" by force
    then show ?thesis by (simp add: c)
  qed
  moreover have "hr_status rep = (if critical then ''unhealthy'' else if busy \<and> sh_overall ?h = Healthy then ''degraded''
      else level_str (sh_overall ?h))" "critical \<Longrightarrow> hr_mode rep = ''cpu_critical_overloaded''"
    by (simp_all add: rep_def build_health_response_def h(2) equal_fold_healthy equal_fold_healthy [of Healthy, simplified] Let_def)
  ultimately show ?thesis using names worst level_str_healthy by auto
qed

definition demo_reports :: "(time \<times> report) list" where
  "demo_reports = [(1, ''qmd_cli'', Healthy, []), (2, ''index_db'', Critical, ''index missing'')]"

lemma health_reply_tells_the_worst_witness:
  "hr_status (build_health_response (get_health 9 (tracked 0 demo_reports)) True True) = ''unhealthy'' \<and>
   sh_overall_str (get_health 9 (tracked 0 demo_reports)) = ''critical''"
proof
  show "hr_status (build_health_response (get_health 9 (tracked 0 demo_reports)) True True) = ''unhealthy''"
    using health_reply_tells_the_worst [where critical = True] by blast
  show "sh_overall_str (get_health 9 (tracked 0 demo_reports)) = ''critical''" by code_simp
qed

subsection \<open>Admin operations\<close>

text \<open>After the cache is cleared nothing that was cached before is served: whatever is asked, the orchestrator finds no
  cached result, and clearing reports success.\<close>

theorem cleared_cache_serves_nothing:
  "fst (has_cached_result t cfg params (snd (cache_clear_rpc rv c st))) = False \<and>
   (\<exists>rep :: op_reply. fst (cache_clear_rpc rv c st) = Inr rep \<and> pr_ok rep)"
  by (simp add: cache_clear_rpc_def execute_admin_cache_clear_core_def op_answer_def to_proto_op_response_def
      has_cached_result_def clear_cache_def cache_clear_def cache_get_def mget_def Let_def)

text \<open>Embedding is never started by the admin service in low resource mode when no model may run on the CPU: the call
  reports success with a message that it is disabled, and the scheduler and the index are as before.\<close>

theorem embed_rpc_respects_low_resource:
  assumes "rt_low_resource_mode rt" and "\<not> rt_allow_cpu_vsearch rt" and "\<not> rt_allow_cpu_deep_query rt"
  shows "embed_rpc rv rt te c force s =
    (Inr \<lparr>pr_ok = True, pr_message = ''embed disabled in low_resource_mode'',
       pr_trace_id = normalize_trace_id (re_request_id rv) (trace_id_from_context (re_request_id rv) c),
       pr_latency_ms = re_latency_ms rv\<rparr>, s)"
  using assms
  by (simp add: embed_rpc_def execute_admin_embed_core_def op_answer_def to_proto_op_response_def admin_done_def Let_def)

text \<open>The limits in a status reply are those of the configuration where these fit into 32 bits: a
  duration that is positive is told in whole units and never above the largest 32-bit integer; a number of
  concurrent calls is exact up to that integer, and the next one is told as a negative number.\<close>

theorem status_tells_limits:
  assumes "0 < rt_query_timeout rt" and "0 \<le> rt_query_max_concurrency rt"
    and "rep = build_status_response build drawn rt has_cap ov crit trace"
  shows "tr_query_timeout_ms rep = min (rt_query_timeout rt div millisecond) max_int32 \<and>
    (rt_query_max_concurrency rt \<le> max_int32 \<longrightarrow> tr_query_max_concurrency rep = rt_query_max_concurrency rt) \<and>
    (rt_query_max_concurrency rt = max_int32 + 1 \<longrightarrow> tr_query_max_concurrency rep = min_int32)"
proof -
  have "0 \<le> rt_query_timeout rt div millisecond" using assms(1) by (simp add: pos_imp_zdiv_nonneg_iff)
  then have "duration_to_int32_ms (rt_query_timeout rt) = min (rt_query_timeout rt div millisecond) max_int32"
    using assms(1) by (auto simp: duration_to_int32_ms_def min_def min_int32_def go_int32_id Let_def)
  moreover have "rt_query_max_concurrency rt \<le> max_int32 \<Longrightarrow> go_int32 (rt_query_max_concurrency rt) = rt_query_max_concurrency rt"
    using assms(2) by (simp add: go_int32_id min_int32_def)
  moreover have "go_int32 (max_int32 + 1) = min_int32" by code_simp
  ultimately show ?thesis by (simp add: assms(3) build_status_response_def)
qed

end
