(* ===== verification/Registry.thy ===== *)
theory Registry
  imports Cli_Exec
begin

text \<open>
  Registering the configured collections with qmd at startup (\<open>EnsureCollections\<close> and
  \<open>syncCollectionContexts\<close> in \<open>orchestrator/orchestrator.go\<close>). The five operations of the executor that these use
  are the record \<open>registry\<close>: each takes the state of qmd's own store and, where it writes, returns the state after it. What
  qmd documents of them is \<open>registry_works\<close>, in terms of the names that are registered and the
  context of each path.
\<close>

record 's registry =
  rg_collection_list :: "'s \<Rightarrow> collection_info list result"
  rg_collection_add :: "string \<Rightarrow> string \<Rightarrow> string \<Rightarrow> 's \<Rightarrow> goerr option \<times> 's"
  rg_context_list :: "'s \<Rightarrow> path_context list result"
  rg_context_add :: "string \<Rightarrow> string \<Rightarrow> 's \<Rightarrow> goerr option \<times> 's"
  rg_context_remove :: "string \<Rightarrow> 's \<Rightarrow> goerr option \<times> 's"

subsection \<open>The operations\<close>

definition default_mask :: string where
  "default_mask = ''**/*.md''"

definition ensure_one :: "'s registry \<Rightarrow> string list \<Rightarrow> collection_cfg \<Rightarrow> 's \<Rightarrow> 's" where
  "ensure_one rg existing col s =
     (if cl_name col \<in> set existing then s
      else
        let path_mask = (if cl_mask col = [] then default_mask else cl_mask col);
            (err, s) = rg_collection_add rg (cl_path col) (cl_name col) path_mask s
        in case err of
             Some e \<Rightarrow> s
           | None \<Rightarrow> if cl_context col \<noteq> [] then snd (rg_context_add rg (cl_path col) (cl_context col) s) else s)"

definition sync_one :: "'s registry \<Rightarrow> collection_cfg \<Rightarrow> (string, string) gomap \<times> 's \<Rightarrow> (string, string) gomap \<times> 's" where
  "sync_one rg col acc =
     (let (m, s) = acc in
      if trim_space (cl_context col) = [] then acc
      else
        let old = mget m (cl_path col) in
        if old = Some (cl_context col) then acc
        else
          let (removed, s) = (if old \<noteq> None then rg_context_remove rg (cl_path col) s else (None, s)) in
          case removed of
            Some e \<Rightarrow> (m, s)
          | None \<Rightarrow>
              let (added, s) = rg_context_add rg (cl_path col) (cl_context col) s in
              case added of
                Some e \<Rightarrow> (m, s)
              | None \<Rightarrow> (mput (cl_path col) (cl_context col) m, s))"

definition sync_collection_contexts :: "'s registry \<Rightarrow> config \<Rightarrow> 's \<Rightarrow> 's" where
  "sync_collection_contexts rg cfg s =
     (case rg_context_list rg s of
        Inl e \<Rightarrow> s
      | Inr contexts \<Rightarrow>
          snd (fold (sync_one rg) (cf_collections cfg)
                 (fold (\<lambda>c. mput (pc_path c) (pc_description c)) contexts [], s)))"

definition ensure_collections :: "'s registry \<Rightarrow> config \<Rightarrow> 's \<Rightarrow> 's" where
  "ensure_collections rg cfg s =
     (let existing = (case rg_collection_list rg s of Inl e \<Rightarrow> [] | Inr cols \<Rightarrow> map ci_name cols)
      in sync_collection_contexts rg cfg (fold (ensure_one rg existing) (cf_collections cfg) s))"

subsection \<open>A store that works\<close>

definition listed_contexts :: "path_context list \<Rightarrow> string \<Rightarrow> string option" where
  "listed_contexts cs = mget (fold (\<lambda>c. mput (pc_path c) (pc_description c)) cs [])"

definition registry_works :: "'s registry \<Rightarrow> ('s \<Rightarrow> string set) \<Rightarrow> ('s \<Rightarrow> string \<Rightarrow> string option) \<Rightarrow> bool" where
  "registry_works rg names ctxs \<longleftrightarrow>
     (\<forall>s. \<exists>cols. rg_collection_list rg s = Inr cols \<and> ci_name ` set cols = names s) \<and>
     (\<forall>s. \<exists>cs. rg_context_list rg s = Inr cs \<and> listed_contexts cs = ctxs s) \<and>
     (\<forall>p n k s. \<exists>s'. rg_collection_add rg p n k s = (None, s') \<and> names s' = insert n (names s) \<and> ctxs s' = ctxs s) \<and>
     (\<forall>p d s. \<exists>s'. rg_context_add rg p d s = (None, s') \<and> names s' = names s \<and> ctxs s' = (ctxs s)(p \<mapsto> d)) \<and>
     (\<forall>p s. \<exists>s'. ctxs s p \<noteq> None \<longrightarrow>
        rg_context_remove rg p s = (None, s') \<and> names s' = names s \<and> ctxs s' = (ctxs s)(p := None))"

lemma ensure_one_effect:
  assumes "registry_works rg names ctxs"
  shows "names (ensure_one rg existing col s) = (if cl_name col \<in> set existing then names s else insert (cl_name col) (names s)) \<and>
    ctxs (ensure_one rg existing col s) =
      (if cl_name col \<in> set existing \<or> cl_context col = [] then ctxs s else (ctxs s)(cl_path col \<mapsto> cl_context col))"
proof -
  let ?k = "if cl_mask col = [] then default_mask else cl_mask col"
  obtain s1 where s1: "rg_collection_add rg (cl_path col) (cl_name col) ?k s = (None, s1)"
      "names s1 = insert (cl_name col) (names s)" "ctxs s1 = ctxs s"
    using assms unfolding registry_works_def by blast
  obtain s2 where "rg_context_add rg (cl_path col) (cl_context col) s1 = (None, s2)" "names s2 = names s1"
      "ctxs s2 = (ctxs s1)(cl_path col \<mapsto> cl_context col)"
    using assms unfolding registry_works_def by blast
  with s1 show ?thesis by (simp add: ensure_one_def Let_def)
qed

lemma ensure_all_effect:
  assumes "registry_works rg names ctxs"
  shows "names (fold (ensure_one rg existing) cols s) = names s \<union> (cl_name ` set cols - set existing) \<and>
    (\<forall>p. p \<notin> cl_path ` set cols \<longrightarrow> ctxs (fold (ensure_one rg existing) cols s) p = ctxs s p)"
  by (induction cols arbitrary: s) (auto simp: ensure_one_effect [OF assms])

text \<open>One step of the synchronisation keeps the map in agreement with the store and settles its collection.\<close>

lemma sync_one_effect:
  assumes "registry_works rg names ctxs" and "mget m = ctxs s"
  shows "\<exists>m' s'. sync_one rg col (m, s) = (m', s') \<and> mget m' = ctxs s' \<and> names s' = names s \<and>
    ctxs s' = (if trim_space (cl_context col) = [] then ctxs s else (ctxs s)(cl_path col \<mapsto> cl_context col))"
proof -
  let ?p = "cl_path col" and ?d = "cl_context col"
  have add: "\<exists>s'. rg_context_add rg ?p ?d t = (None, s') \<and> names s' = names t \<and> ctxs s' = (ctxs t)(?p \<mapsto> ?d)" for t
    using assms(1) unfolding registry_works_def by blast
  have rem: "\<exists>s'. ctxs s ?p \<noteq> None \<longrightarrow> rg_context_remove rg ?p s = (None, s') \<and> names s' = names s \<and> ctxs s' = (ctxs s)(?p := None)"
    using assms(1) unfolding registry_works_def by blast
  have put: "mget (mput ?p ?d m) = (ctxs s)(?p \<mapsto> ?d)" using assms(2) by (simp add: fun_eq_iff gm.get_put)
  consider "trim_space ?d = []" | "trim_space ?d \<noteq> []" "ctxs s ?p = Some ?d"
    | "trim_space ?d \<noteq> []" "ctxs s ?p = None" | "trim_space ?d \<noteq> []" "ctxs s ?p \<noteq> None" "ctxs s ?p \<noteq> Some ?d"
    by blast
  then show ?thesis
  proof cases
    case 3
    obtain s' where "rg_context_add rg ?p ?d s = (None, s')" "names s' = names s" "ctxs s' = (ctxs s)(?p \<mapsto> ?d)"
      using add by blast
    then show ?thesis using 3 put assms(2) by (simp add: sync_one_def)
  next
    case 4
    then obtain s1 where s1: "rg_context_remove rg ?p s = (None, s1)" "names s1 = names s" "ctxs s1 = (ctxs s)(?p := None)"
      using rem by blast
    moreover obtain s2 where "rg_context_add rg ?p ?d s1 = (None, s2)" "names s2 = names s1" "ctxs s2 = (ctxs s1)(?p \<mapsto> ?d)"
      using add by blast
    ultimately show ?thesis using 4 put assms(2) by (simp add: sync_one_def)
  qed (use assms(2) in \<open>auto simp: sync_one_def fun_upd_idem\<close>)
qed

definition wanted_contexts :: "collection_cfg list \<Rightarrow> (string \<times> string) list" where
  "wanted_contexts cols = map (\<lambda>c. (cl_path c, cl_context c)) (filter (\<lambda>c. trim_space (cl_context c) \<noteq> []) cols)"

lemma sync_all_effect:
  assumes "registry_works rg names ctxs" and "mget m = ctxs s"
  shows "\<exists>m' s'. fold (sync_one rg) cols (m, s) = (m', s') \<and> names s' = names s \<and>
    ctxs s' = ctxs s ++ map_of (rev (wanted_contexts cols))"
  using assms(2)
proof (induction cols arbitrary: m s)
  case (Cons col cols)
  obtain m1 s1 where 1: "sync_one rg col (m, s) = (m1, s1)" "mget m1 = ctxs s1" "names s1 = names s"
    "ctxs s1 = (if trim_space (cl_context col) = [] then ctxs s else (ctxs s)(cl_path col \<mapsto> cl_context col))"
    using sync_one_effect [OF assms(1) Cons.prems] by blast
  from Cons.IH [OF 1(2)] 1 show ?case by (auto simp: wanted_contexts_def map_add_def fun_eq_iff split: option.split)
qed (simp add: wanted_contexts_def)

lemma settled_unchanged:
  assumes "registry_works rg names ctxs" and "\<And>col. col \<in> set (cf_collections cfg) \<Longrightarrow> cl_name col \<in> names s"
    and "\<And>col. col \<in> set (cf_collections cfg) \<Longrightarrow> trim_space (cl_context col) \<noteq> [] \<Longrightarrow> ctxs s (cl_path col) = Some (cl_context col)"
  shows "ensure_collections rg cfg s = s"
proof -
  obtain cols where l: "rg_collection_list rg s = Inr cols" "ci_name ` set cols = names s"
    using assms(1) unfolding registry_works_def by blast
  obtain cs where c: "rg_context_list rg s = Inr cs" "listed_contexts cs = ctxs s"
    using assms(1) unfolding registry_works_def by blast
  have "fold (ensure_one rg (map ci_name cols)) cs s = s" if "set cs \<subseteq> set (cf_collections cfg)" for cs
    using that assms(2) l(2) by (induction cs) (auto simp: ensure_one_def)
  moreover have "fold (sync_one rg) cs (m, s) = (m, s)" if "set cs \<subseteq> set (cf_collections cfg)" "mget m = ctxs s" for cs m
    using that(1) by (induction cs) (auto simp: sync_one_def that(2) assms(3))
  moreover have "mget (fold (\<lambda>c. mput (pc_path c) (pc_description c)) cs []) = ctxs s"
    using c(2) by (simp add: listed_contexts_def)
  ultimately show ?thesis using l c by (simp add: ensure_collections_def sync_collection_contexts_def)
qed

subsection \<open>Properties\<close>


text \<open>A store that keeps a list of names and a map of contexts.\<close>

definition list_registry :: "(string list \<times> (string, string) gomap) registry" where
  "list_registry =
     \<lparr>rg_collection_list = (\<lambda>(ns, cs). Inr (map (\<lambda>n. collection_zero\<lparr>ci_name := n\<rparr>) ns)),
      rg_collection_add = (\<lambda>p n k (ns, cs). (None, (n # ns, cs))),
      rg_context_list = (\<lambda>(ns, cs). Inr (map (\<lambda>(p, d). \<lparr>pc_path = p, pc_description = d\<rparr>) (rev cs))),
      rg_context_add = (\<lambda>p d (ns, cs). (None, (ns, (p, d) # cs))),
      rg_context_remove = (\<lambda>p (ns, cs). (None, (ns, filter (\<lambda>(q, d). q \<noteq> p) cs)))\<rparr>"

lemma list_registry_works: "registry_works list_registry (\<lambda>s. set (fst s)) (\<lambda>s. map_of (snd s))"
proof -
  have "mget (fold (\<lambda>c. mput (pc_path c) (pc_description c)) (map (\<lambda>(p, d). \<lparr>pc_path = p, pc_description = d\<rparr>) (rev cs)) m) p =
      (mget m ++ map_of cs) p" for cs p m
    by (induction cs) (auto simp: gm.get_put map_add_def)
  then have c: "listed_contexts (map (\<lambda>(p, d). \<lparr>pc_path = p, pc_description = d\<rparr>) (rev cs)) = map_of cs" for cs
    by (simp add: listed_contexts_def fun_eq_iff map_add_def mget_def split: option.split)
  have "map_of (filter (\<lambda>(q, d). q \<noteq> p) cs) = (map_of cs)(p := None)" for p and cs :: "(string, string) gomap"
    by (induction cs) (auto simp: fun_eq_iff)
  then show ?thesis
    by (auto simp: registry_works_def list_registry_def c collection_zero_def image_image)
qed


end
