(* ===== verification/Main_Program.thy ===== *)
theory Main_Program
  imports Grpc_Promises Registry Cli_Promises
begin

text \<open>
  The whole program (\<open>main.go\<close>): the start, which loads the configuration, creates every component and registers the checks, and
  the running system, where requests, admin calls, scheduler tasks, checks of the guardian and heartbeat rounds
  happen in any order. What the start meets outside is \<open>boot_env\<close>; qmd's own store is the state of the
  registry. The flags, the shutdown and the watchdog of the service manager are in \<open>Lifecycle\<close>.
\<close>

subsection \<open>Logging\<close>

datatype log_level = Level_Debug | Level_Info | Level_Warn | Level_Error

datatype log_sink = To_Stderr | To_File string

definition log_level_of :: "string \<Rightarrow> log_level" where
  "log_level_of s =
     (if s = ''debug'' then Level_Debug else if s = ''warn'' then Level_Warn else if s = ''error'' then Level_Error
      else Level_Info)"

definition setup_logger :: "(string \<Rightarrow> goerr option) \<Rightarrow> config \<Rightarrow> log_level \<times> log_sink" where
  "setup_logger open_file cfg =
     (let level = log_level_of (lg_level (cf_logging cfg)); name = lg_file (cf_logging cfg) in
      if name \<noteq> [] then
        (case open_file name of Some e \<Rightarrow> (level, To_Stderr) | None \<Rightarrow> (level, To_File name))
      else (level, To_Stderr))"

subsection \<open>The system and its start\<close>

record system =
  ys_cfg :: config
  ys_cli :: cli
  ys_world :: world
  ys_guarding :: bool
  ys_guard :: gsys
  ys_tracker :: tracker

record boot_env =
  bo_os :: os_env
  bo_yaml :: "string \<Rightarrow> config result"
  bo_config_path :: string
  bo_qmd :: qmd_env
  bo_mcp_initial :: "goerr option"
  bo_mcp_start :: "goerr option"
  bo_mcp_health :: "goerr option"
  bo_now :: time
  bo_listen :: "string \<Rightarrow> goerr option"

datatype exit = Exit_Config goerr | Exit_Executor goerr | Exit_Listen goerr

definition start_grpc :: "boot_env \<Rightarrow> config \<Rightarrow> goerr option" where
  "start_grpc be cfg = (if sv_grpc_listen (cf_server cfg) = [] then None else bo_listen be (sv_grpc_listen (cf_server cfg)))"

definition new_system :: "boot_env \<Rightarrow> config \<Rightarrow> cli \<Rightarrow> system" where
  "new_system be cfg e =
     (let (guarding, g) = guardian_start (has_capability e ''mcp'') (bo_mcp_initial be) (bo_mcp_start be) (bo_mcp_health be)
            (bo_now be) guardian_new
      in \<lparr>ys_cfg = cfg, ys_cli = e, ys_world = world_new (bo_now be) cfg, ys_guarding = guarding,
          ys_guard = \<lparr>gs_state = g, gs_waiting = 0, gs_restarting = 0\<rparr>, ys_tracker = tracker_new (bo_now be)\<rparr>)"

definition boot :: "boot_env \<Rightarrow> 's registry \<Rightarrow> 's \<Rightarrow> (exit + system) \<times> 's" where
  "boot be rg s =
     (case load_config (bo_os be) (bo_yaml be) (bo_config_path be) of
        Inl err \<Rightarrow> (Inl (Exit_Config err), s)
      | Inr cfg \<Rightarrow>
          (case new_cli (bo_qmd be) cfg of
             Inl err \<Rightarrow> (Inl (Exit_Executor err), s)
           | Inr e \<Rightarrow>
               let s = ensure_collections rg cfg s in
               (case start_grpc be cfg of
                  Some err \<Rightarrow> (Inl (Exit_Listen err), s)
                | None \<Rightarrow> (Inr (new_system be cfg e), s))))"

subsection \<open>The registered checks\<close>

definition check_cache :: "bool \<Rightarrow> health_level \<times> string" where
  "check_cache healthy = (if healthy then (Healthy, []) else (Unhealthy, ''cache unhealthy''))"

definition cache_healthy :: "cache \<Rightarrow> bool" where
  "cache_healthy c = True"

record probes =
  pb_version :: "string result"
  pb_stat :: "string \<Rightarrow> int option"
  pb_status :: "index_status result"

definition main_reports :: "system \<Rightarrow> probes \<Rightarrow> report list" where
  "main_reports sys pb =
     (let cfg = ys_cfg sys in
      [(''qmd_cli'', check_qmd_cli (cf_qmd cfg) (pb_version pb) (pb_stat pb)),
       (''index_db'', check_index_db (cf_qmd cfg) (pb_stat pb)),
       (''embeddings'', check_embeddings (cf_runtime cfg) (has_capability (ys_cli sys) ''status'') (pb_status pb)),
       (''cache'', check_cache (cache_healthy (or_cache (sy_orch (wd_sys (ys_world sys)))))),
       (''mcp_daemon'', guardian_health (gs_state (ys_guard sys)))])"

subsection \<open>The running system\<close>

definition sys_orch :: "system \<Rightarrow> orch" where
  "sys_orch sys = sy_orch (wd_sys (ys_world sys))"

definition with_orch :: "orch \<Rightarrow> system \<Rightarrow> system" where
  "with_orch st sys = sys\<lparr>ys_world := (ys_world sys)\<lparr>wd_sys := (wd_sys (ys_world sys))\<lparr>sy_orch := st\<rparr>\<rparr>\<rparr>"

datatype sys_event =
    Search_Call api_env incoming search_msg
  | Search_And_Get_Call api_env incoming search_and_get_msg
  | Cache_Clear_Call rpc_env incoming
  | Task_Event "int \<Rightarrow> int" sevent
  | Guard_Event gevent
  | Round time "report list"

text \<open>A round visits the registered checks in the order of a Go map, which is any order.\<close>

inductive sys_step :: "system \<Rightarrow> sys_event \<Rightarrow> system \<Rightarrow> bool" where
  search_call: "api_others_ok av \<Longrightarrow> search_rpc av (ys_cfg sys) c req (sys_orch sys) = (r, st) \<Longrightarrow>
    sys_step sys (Search_Call av c req) (with_orch st sys)"
| search_and_get_call: "api_others_ok av \<Longrightarrow> search_and_get_rpc av (ys_cfg sys) c greq (sys_orch sys) = (r, st) \<Longrightarrow>
    sys_step sys (Search_And_Get_Call av c greq) (with_orch st sys)"
| cache_clear_call: "cache_clear_rpc rv c (sys_orch sys) = (r, st) \<Longrightarrow>
    sys_step sys (Cache_Clear_Call rv c) (with_orch st sys)"
| task_event: "sched_step zone (ys_world sys) ev w \<Longrightarrow> sys_step sys (Task_Event zone ev) (sys\<lparr>ys_world := w\<rparr>)"
| guard_event: "guardian_step (cf_guardian (ys_cfg sys)) (ys_guard sys) ev g \<Longrightarrow>
    ys_guarding sys \<or> (\<nexists>err t. ev = Checked err t) \<Longrightarrow>
    sys_step sys (Guard_Event ev) (sys\<lparr>ys_guard := g\<rparr>)"
| round: "mset reports = mset (main_reports sys pb) \<Longrightarrow>
    sys_step sys (Round now reports) (sys\<lparr>ys_tracker := snd (run_checks now reports (ys_tracker sys))\<rparr>)"

inductive_cases sys_stepE: "sys_step sys ev sys'"

inductive sys_run :: "system \<Rightarrow> sys_event list \<Rightarrow> system \<Rightarrow> bool" where
  start: "sys_run sys [] sys"
| step: "sys_run sys evs sys' \<Longrightarrow> sys_step sys' ev sys'' \<Longrightarrow> sys_run sys (evs @ [ev]) sys''"

definition system_health_reply :: "time \<Rightarrow> bool \<Rightarrow> bool \<Rightarrow> system \<Rightarrow> health_reply" where
  "system_health_reply now critical busy sys = build_health_response (get_health now (ys_tracker sys)) critical busy"

subsection \<open>Invariants\<close>

definition check_names :: "string list" where
  "check_names = [''cache'', ''embeddings'', ''index_db'', ''mcp_daemon'', ''qmd_cli'']"

lemma main_reports_names: "set (map fst (main_reports sys pb)) = set check_names"
  by (auto simp: main_reports_def check_names_def Let_def)

text \<open>The history of the tracker: reports of the registered checks only, and of all of them once there was a round.\<close>

definition tracks_checks :: "bool \<Rightarrow> tracker \<Rightarrow> bool" where
  "tracks_checks rounded tr \<longleftrightarrow>
     (\<exists>t0 rs. tr = tracked t0 rs \<and> set (map (\<lambda>r. fst (snd r)) rs) = (if rounded then set check_names else {}))"

definition sys_inv :: "system \<Rightarrow> bool" where
  "sys_inv sys \<longleftrightarrow>
     orch_inv (sys_orch sys) \<and> sched_inv (ys_world sys) \<and> guardian_inv (cf_guardian (ys_cfg sys)) (gs_state (ys_guard sys)) \<and>
     (\<exists>rounded. tracks_checks rounded (ys_tracker sys))"

lemma run_checks_tracked:
  "snd (run_checks now reports (tracked t0 rs)) = tracked t0 (rs @ map (\<lambda>r. (now, r)) reports)"
proof -
  have "(\<lambda>r. (\<lambda>(t, n, l, m). tracker_update t n l m) (now, r)) = (\<lambda>(n, l, m). tracker_update now n l m)"
    by (simp add: fun_eq_iff)
  then show ?thesis unfolding run_checks_tracker tracked_def by (simp add: fold_map comp_def)
qed

lemma round_tracks:
  assumes "tracks_checks rounded tr" and "mset reports = mset (main_reports sys pb)"
  shows "tracks_checks True (snd (run_checks now reports tr))"
proof -
  obtain t0 rs where tr: "tr = tracked t0 rs" "set (map (\<lambda>r. fst (snd r)) rs) \<subseteq> set check_names"
    using assms(1) by (auto simp: tracks_checks_def split: if_splits)
  have "set (map fst reports) = set check_names"
    using mset_eq_setD [OF assms(2)] main_reports_names [of sys pb] by simp
  then show ?thesis
    using tr(2) unfolding tracks_checks_def tr(1) run_checks_tracked
    by (intro exI [of _ t0] exI [of _ "rs @ map (\<lambda>r. (now, r)) reports"]) (auto simp: image_image)
qed

lemma cache_clear_step: "orch_step st (snd (cache_clear_rpc rv c st))"
proof -
  have "cache_peek (cache_clear x) k = None" for x k by (simp add: cache_peek_def cache_clear_def mget_def)
  then show ?thesis
    by (auto simp: cache_clear_rpc_def execute_admin_cache_clear_core_def clear_cache_def orch_step_def orch_inv_def
        honest_cache_def Let_def intro: cache_inv_clear) (simp_all add: cache_clear_def)
qed

lemma search_rpc_step: "api_others_ok av \<Longrightarrow> orch_step st (snd (search_rpc av cfg c req st))"
  using execute_search_core_step by (auto simp: search_rpc_def case_prod_beta Let_def)

lemma search_and_get_rpc_step: "api_others_ok av \<Longrightarrow> orch_step st (snd (search_and_get_rpc av cfg c req st))"
  using execute_search_core_step
  by (auto simp: search_and_get_rpc_def execute_search_and_get_core_def case_prod_beta Let_def split: sum.splits)

lemma sched_step_orch:
  assumes "sched_step zone w ev w'"
  shows "orch_step (sy_orch (wd_sys w)) (sy_orch (wd_sys w'))"
  using assms
proof cases
  case (sleeps xs r ys k a e s r')
  then show ?thesis using run_attempt_orch [of "wd_sys w" zone k a] by simp
next
  case (ends xs r ys k a e s)
  then show ?thesis using run_attempt_orch [of "wd_sys w" zone k a] by simp
qed simp_all

lemma sched_inv_with_orch: "sched_inv (ys_world (with_orch st sys)) = sched_inv (ys_world sys)"
  by (simp add: with_orch_def sched_inv_def)

lemma with_orch_simps [simp]:
  "sys_orch (with_orch st sys) = st" "ys_cfg (with_orch st sys) = ys_cfg sys" "ys_cli (with_orch st sys) = ys_cli sys"
  "ys_guard (with_orch st sys) = ys_guard sys" "ys_tracker (with_orch st sys) = ys_tracker sys"
  by (simp_all add: with_orch_def sys_orch_def)

lemma sys_step_orch:
  assumes "sys_step sys ev sys'"
  shows "orch_step (sys_orch sys) (sys_orch sys')"
  using assms
proof cases
  case (search_call av c req r st)
  then show ?thesis using search_rpc_step [of av "sys_orch sys" "ys_cfg sys" c req] by simp
next
  case (search_and_get_call av c greq r st)
  then show ?thesis using search_and_get_rpc_step [of av "sys_orch sys" "ys_cfg sys" c greq] by simp
next
  case (cache_clear_call rv c r st)
  then show ?thesis using cache_clear_step [of "sys_orch sys" rv c] by simp
next
  case (task_event zone ev w)
  then show ?thesis using sched_step_orch by (simp add: sys_orch_def)
qed (simp_all add: sys_orch_def)

lemma sys_step_inv:
  assumes "sys_step sys ev sys'" and "sys_inv sys"
  shows "sys_inv sys' \<and> ys_cfg sys' = ys_cfg sys \<and> ys_cli sys' = ys_cli sys"
proof -
  have o: "orch_inv (sys_orch sys')" using sys_step_orch [OF assms(1)] assms(2) by (simp add: orch_step_def sys_inv_def)
  from assms(1) show ?thesis
  proof cases
    case (task_event zone ev w)
    then show ?thesis using o assms(2) sched_step_inv by (auto simp: sys_inv_def sys_orch_def)
  next
    case (guard_event ev g)
    then show ?thesis using o assms(2) guardian_step_inv by (auto simp: sys_inv_def sys_orch_def)
  next
    case (round reports pb now)
    obtain rounded where "tracks_checks rounded (ys_tracker sys)" using assms(2) by (auto simp: sys_inv_def)
    from round_tracks [OF this round(3)] have "tracks_checks True (ys_tracker sys')" by (simp add: round(2))
    then show ?thesis using o assms(2) round by (auto simp: sys_inv_def sys_orch_def)
  qed (use o assms(2) in \<open>simp_all add: sys_inv_def sched_inv_with_orch\<close>)
qed

lemma sys_run_inv:
  assumes "sys_run sys evs sys'" and "sys_inv sys"
  shows "sys_inv sys' \<and> ys_cfg sys' = ys_cfg sys \<and> ys_cli sys' = ys_cli sys"
  using assms by induction (auto dest: sys_step_inv)

lemma tracks_new: "tracks_checks False (tracker_new t)"
  unfolding tracks_checks_def by (intro exI [of _ t] exI [of _ "[]"]) (simp add: tracked_def)

lemma new_system_inv: "sys_inv (new_system be cfg e)" "ys_cfg (new_system be cfg e) = cfg" "ys_cli (new_system be cfg e) = e"
proof -
  have "orch_inv (orch_new t cfg)" "sched_inv (world_new t cfg)" for t by (rule orch_inv_new sched_inv_new)+
  then show "sys_inv (new_system be cfg e)"
    using guardian_start_inv tracks_new by (auto simp: new_system_def sys_inv_def sys_orch_def world_new_def case_prod_beta intro: exI [of _ False])
qed (simp_all add: new_system_def case_prod_beta)

subsection \<open>Properties\<close>

lemma booted:
  assumes "boot be rg s = (Inr sys, s')"
  obtains cfg e where "load_config (bo_os be) (bo_yaml be) (bo_config_path be) = Inr cfg" and "new_cli (bo_qmd be) cfg = Inr e"
    and "start_grpc be cfg = None" and "sys = new_system be cfg e" and "s' = ensure_collections rg cfg s"
  using assms by (auto simp: boot_def Let_def split: sum.splits option.splits)


definition demo_boot :: boot_env where
  "demo_boot =
     \<lparr>bo_os = sample_os, bo_yaml = (\<lambda>t. Inr sample_cfg), bo_config_path = ''/etc/qmdsr.yaml'',
      bo_qmd = demo_qmd False, bo_mcp_initial = None, bo_mcp_start = None, bo_mcp_health = None, bo_now = 5, bo_listen = (\<lambda>a. None)\<rparr>"

definition demo_round :: "system \<Rightarrow> report list" where
  "demo_round sys = main_reports sys \<lparr>pb_version = Inr ''1'', pb_stat = (\<lambda>p. Some 1), pb_status = Inr status_zero\<rparr>"

lemma demo_boots:
  obtains sys s where "boot demo_boot list_registry ([], []) = (Inr sys, s)"
proof -
  have "isl (fst (boot demo_boot list_registry ([], []))) = False" by code_simp
  then show ?thesis
    by (cases "boot demo_boot list_registry ([], [])"; cases "fst (boot demo_boot list_registry ([], []))") (auto intro: that)
qed

lemma demo_runs: "sys_run sys [Round 9 (demo_round sys)] (sys\<lparr>ys_tracker := snd (run_checks 9 (demo_round sys) (ys_tracker sys))\<rparr>)"
proof -
  have "sys_run sys ([] @ [Round 9 (demo_round sys)]) (sys\<lparr>ys_tracker := snd (run_checks 9 (demo_round sys) (ys_tracker sys))\<rparr>)"
    by (rule sys_run.step, rule sys_run.start, rule sys_step.round) (simp add: demo_round_def)
  then show ?thesis by simp
qed


text \<open>From the first round of checks on, a health reply lists exactly the five registered checks, by name, and the cpu guard when it is active.\<close>

theorem rounds_fill_health:
  assumes "boot be rg s = (Inr sys0, s')" and "sys_run sys0 evs sys" and "Round t reports \<in> set evs"
  shows "map hc_name (hr_components (system_health_reply now critical busy sys)) =
    [''cache'', ''embeddings'', ''index_db'', ''mcp_daemon'', ''qmd_cli''] @ (if critical \<or> busy then [''cpu_guard''] else [])"
proof -
  have tracks: "tracks_checks (\<exists>t r. Round t r \<in> set evs) (ys_tracker sys)"
    using assms(2,1)
  proof induction
    case (start sys)
    then obtain cfg e where "sys = new_system be cfg e" by (rule booted)
    then show ?case using tracks_new by (simp add: new_system_def case_prod_beta)
  next
    case (step sys evs sys' ev sys'')
    show ?case using step.hyps(2)
    proof cases
      case (round reports pb now)
      then have "\<exists>t r. Round t r \<in> set (evs @ [ev])" by auto
      then show ?thesis using round_tracks [OF step.IH [OF step.prems] round(3)] by (simp add: round(2) del: set_append)
    qed (use step.IH [OF step.prems] in auto)
  qed
  have "\<exists>t r. Round t r \<in> set evs" using assms(3) by blast
  then obtain t0 rs where tr: "ys_tracker sys = tracked t0 rs" "set (map (\<lambda>r. fst (snd r)) rs) = set check_names"
    using tracks by (auto simp: tracks_checks_def)
  let ?comps = "tk_components (tracked t0 rs)"
  have "mget ?comps name \<noteq> None \<longleftrightarrow> name \<in> set (map (\<lambda>r. fst (snd r)) rs)" for name
    using tracked_summary [of t0 rs name] by (force simp: summary_def reports_of_def filter_empty_conv)
  then have "set (mkeys ?comps) = set check_names" unfolding tr(2) by (auto simp: gm.set_keys)
  moreover have "distinct (mkeys ?comps)" using tracked_summary by (simp add: mkeys_def mwf_def)
  moreover have "sorted check_names" "distinct check_names" by code_simp+
  ultimately have "sort (mkeys ?comps) = check_names" by (intro sorted_distinct_set_unique) simp_all
  then show ?thesis
    using component_msgs_named [of check_names "get_health now (tracked t0 rs)"] \<open>set (mkeys ?comps) = set check_names\<close>
    by (auto simp: system_health_reply_def build_health_response_def tr(1) get_health_def guard_component_def check_names_def Let_def)
qed

lemma rounds_fill_health_witness:
  "\<exists>sys :: system. map hc_name (hr_components (system_health_reply 9 False True sys)) =
    [''cache'', ''embeddings'', ''index_db'', ''mcp_daemon'', ''qmd_cli'', ''cpu_guard'']"
proof -
  obtain sys s where b: "boot demo_boot list_registry ([], []) = (Inr sys, s)" by (rule demo_boots)
  have "Round 9 (demo_round sys) \<in> set [Round 9 (demo_round sys)]" by simp
  from rounds_fill_health [OF b demo_runs this, of 9 False True] show ?thesis by (intro exI) simp
qed

text \<open>A start that fails before it listens leaves qmd's store as it was, and one that comes as far as listening has
  registered the collections of the configuration, whether it can listen or not.\<close>

theorem failed_start_touches_nothing:
  "(case fst (boot be rg s) of
      Inl (Exit_Config e) \<Rightarrow> snd (boot be rg s) = s
    | Inl (Exit_Executor e) \<Rightarrow> snd (boot be rg s) = s
    | _ \<Rightarrow> \<exists>cfg. load_config (bo_os be) (bo_yaml be) (bo_config_path be) = Inr cfg \<and>
             snd (boot be rg s) = ensure_collections rg cfg s)"
  by (auto simp: boot_def Let_def split: sum.splits option.splits)

end
