(* ===== verification/Observation.thy ===== *)
theory Observation
  imports Orch_Properties Go_Decode
begin

text \<open>
  The record that \<open>observeSearchSample\<close> (\<open>orchestrator/orchestrator.go\<close>) writes from time to time: which samples write it,
  what it holds, and that its numbers fit together. The counters are atomic and are added to one by one; additions
  commute, so \<open>observe_search_sample\<close> takes those of a sample together, and the record is the one that is written when no other sample is under way.
\<close>

record search_observation =
  so_samples :: int
  so_avg_latency :: string
  so_avg_hits :: string
  so_hit_zero :: int
  so_hit_low :: int
  so_hit_mid :: int
  so_hit_high :: int
  so_degraded :: int
  so_deep_marks :: int
  so_deep_exact_hits :: int
  so_deep_scope_hits :: int

text \<open>\<open>float64(n)\<close>, and the quotient of two such numbers, for a divisor that is not zero; numbers of 64 bits never overflow.\<close>

definition float_of_int :: "int \<Rightarrow> rat" where
  "float_of_int n = (case round64 (of_int n) of Some (Fin r) \<Rightarrow> r | _ \<Rightarrow> 0)"

definition average :: "int \<Rightarrow> int \<Rightarrow> f64" where
  "average s n =
     (case round64 (float_of_int s / float_of_int n) of Some x \<Rightarrow> x | None \<Rightarrow> if 0 \<le> s then PosInf else NegInf)"

definition observation_record :: "orch \<Rightarrow> search_observation" where
  "observation_record st =
     (let ob = or_obs st; dn = or_neg st; total = ob_count ob in
      \<lparr>so_samples = total,
       so_avg_latency = format_fixed 2 (average (ob_latency_sum ob) total),
       so_avg_hits = format_fixed 2 (average (ob_hits_sum ob) total),
       so_hit_zero = ob_hit_zero ob, so_hit_low = ob_hit_low ob, so_hit_mid = ob_hit_mid ob, so_hit_high = ob_hit_high ob,
       so_degraded = ob_degraded ob,
       so_deep_marks = dn_mark_count dn, so_deep_exact_hits = dn_exact_hit_cnt dn, so_deep_scope_hits = dn_scope_hit_cnt dn\<rparr>)"

text \<open>\<open>observeSearchSample\<close> as a whole: the new state and the record it writes, if it writes one.\<close>

definition observe :: "time \<Rightarrow> int \<Rightarrow> int \<Rightarrow> bool \<Rightarrow> orch \<Rightarrow> search_observation option \<times> orch" where
  "observe now latency hits degraded st =
     (let (log, ob) = observe_search_sample now latency hits degraded (or_obs st); st = st\<lparr>or_obs := ob\<rparr>
      in (if log then Some (observation_record st) else None, st))"

lemma observe_counts:
  assumes "fst (observe now latency hits degraded st) = Some so"
  shows "so_samples so = ob_count (or_obs st) + 1"
  using assms by (auto simp: observe_def observation_record_def observe_search_sample_def Let_def split: if_splits)

text \<open>A record is about at least one sample, so that its averages exist, and its four classes add up to its samples.\<close>

theorem observation_adds_up:
  assumes "orch_inv st" and "0 \<le> hits" and "fst (observe now latency hits degraded st) = Some so"
  shows "1 \<le> so_samples so \<and> so_samples so = so_hit_zero so + so_hit_low so + so_hit_mid so + so_hit_high so \<and>
    0 \<le> so_degraded so \<and> so_degraded so \<le> so_samples so"
proof -
  have "obs_inv (or_obs (snd (observe now latency hits degraded st)))"
    using assms(1,2) by (auto simp: observe_def orch_inv_def case_prod_beta Let_def intro: obs_inv_observe)
  moreover have "so = observation_record (snd (observe now latency hits degraded st))"
    using assms(3) by (auto simp: observe_def case_prod_beta Let_def split: if_splits)
  moreover have "1 \<le> so_samples so"
    using observe_counts [OF assms(3)] assms(1) by (simp add: orch_inv_def obs_inv_def)
  ultimately show ?thesis by (simp add: observation_record_def Let_def obs_inv_def)
qed

text \<open>No fifty samples pass without a record.\<close>

lemma observe_every_fifty:
  assumes "(ob_count (or_obs st) + 1) mod 50 = 0"
  shows "fst (observe now latency hits degraded st) \<noteq> None"
proof -
  have "ob_count (snd (observe_search_sample now latency hits degraded ob)) = ob_count ob + 1" for ob
    by (simp add: observe_search_sample_def Let_def)
  with assms show ?thesis by (simp add: observe_def observe_search_sample_def Let_def)
qed

lemma observed_three:
  "observe_search_sample (30 * minute) 33 4 False
     (snd (observe_search_sample 1 10 0 False (snd (observe_search_sample 0 20 5 True
       \<lparr>ob_count = 0, ob_latency_sum = 0, ob_hits_sum = 0, ob_hit_zero = 0, ob_hit_low = 0,
        ob_hit_mid = 0, ob_hit_high = 0, ob_degraded = 0, ob_last_log_at = 0\<rparr>)))) =
   (True, \<lparr>ob_count = 3, ob_latency_sum = 63, ob_hits_sum = 9, ob_hit_zero = 1, ob_hit_low = 0,
        ob_hit_mid = 2, ob_hit_high = 0, ob_degraded = 1, ob_last_log_at = 30 * minute\<rparr>)"
  by code_simp

lemma observed_ulps: "ulp_exp 63 = - 47" "ulp_exp 21 = - 48" "ulp_exp 3 = - 51" "ulp_exp 9 = - 49"
  by code_simp+

lemma observed_floats: "float_of_int 63 = 63" "float_of_int 3 = 3" "float_of_int 9 = 9"
  by (simp_all add: float_of_int_def round64_def observed_ulps Let_def pow2_def round_half_even_def)

lemma average_of_three: "average 63 3 = Fin 21" "average 9 3 = Fin 3"
  by (simp_all add: average_def observed_floats round64_def observed_ulps Let_def pow2_def round_half_even_def)

lemma observed_averages: "format_fixed 2 (average 63 3) = ''21.00''" "format_fixed 2 (average 9 3) = ''3.00''"
  unfolding average_of_three by code_simp+

lemma observation_of_three:
  "observation_record
     \<lparr>or_cache = c, or_neg = deep_neg_new,
      or_obs = snd (observe_search_sample (30 * minute) 33 4 False
     (snd (observe_search_sample 1 10 0 False (snd (observe_search_sample 0 20 5 True
       \<lparr>ob_count = 0, ob_latency_sum = 0, ob_hits_sum = 0, ob_hit_zero = 0, ob_hit_low = 0,
        ob_hit_mid = 0, ob_hit_high = 0, ob_degraded = 0, ob_last_log_at = 0\<rparr>)))))\<rparr> =
   \<lparr>so_samples = 3, so_avg_latency = ''21.00'', so_avg_hits = ''3.00'', so_hit_zero = 1, so_hit_low = 0, so_hit_mid = 2,
       so_hit_high = 0, so_degraded = 1, so_deep_marks = 0, so_deep_exact_hits = 0, so_deep_scope_hits = 0\<rparr>"
  unfolding observed_three by (simp add: observation_record_def deep_neg_new_def observed_averages Let_def)

end
