(* ===== verification/Process.thy ===== *)
theory Process
  imports Cli_Exec
begin

text \<open>
  A run of the qmd command (\<open>run\<close> and \<open>killProcessGroup\<close> of \<open>executor/cli.go\<close>): the process is started in a group of its
  own and waited for; when the context is done first, the group is killed and the wait goes on for two seconds at most. The operating system
  is the records \<open>host\<close> (process groups and signals) and \<open>child\<close> (whether the process starts, when it has been waited for if it is left alone, or after
  it was killed, and what it has written by when). The time at which a context is done is that of its deadline or of its cancellation.
  When the process and the context end in the same moment, the choice of the \<open>select\<close> is an argument. A run that never returns is
  \<open>None\<close>. \<open>qmd_process\<close> turns this into the \<open>qe_run\<close> that the operations of \<open>Cli_Exec\<close> use.
\<close>

record host =
  ho_pgid :: "int \<Rightarrow> int result"
  ho_kill_group :: "int \<Rightarrow> goerr option"

record child =
  cd_start :: "goerr option"
  cd_pid :: int
  cd_exit :: "(time \<times> goerr option) option"
  cd_killed_exit :: "time \<Rightarrow> time option"
  cd_stdout :: "time \<Rightarrow> string"
  cd_stderr :: "time \<Rightarrow> string"

text \<open>The signals that are sent: to the group, and to the process alone.\<close>

datatype kill = Kill_Group int | Kill_Process int

definition kill_process_group :: "host \<Rightarrow> int option \<Rightarrow> kill list" where
  "kill_process_group ho proc =
     (case proc of
        None \<Rightarrow> []
      | Some pid \<Rightarrow>
          if pid \<le> 0 then []
          else
            case ho_pgid ho pid of
              Inr pgid \<Rightarrow>
                if 0 < pgid
                then (case ho_kill_group ho pgid of None \<Rightarrow> [Kill_Group pgid] | Some e \<Rightarrow> [Kill_Group pgid, Kill_Process pid])
                else [Kill_Process pid]
            | Inl e \<Rightarrow> [Kill_Process pid])"

definition deadline_err :: goerr where
  "deadline_err = \<lparr>err_msg = ''context deadline exceeded'', err_chain = [DeadlineExceeded]\<rparr>"

text \<open>When a context is done and what \<open>Err\<close> says then; \<open>cancel\<close> is when it, or one it derives from, is cancelled.\<close>

definition done_at :: "ctx \<Rightarrow> (time \<times> goerr) option \<Rightarrow> (time \<times> goerr) option" where
  "done_at c cancel =
     (case ctx_deadline c of
        None \<Rightarrow> cancel
      | Some d \<Rightarrow> (case cancel of Some (t, e) \<Rightarrow> if t < d then Some (t, e) else Some (d, deadline_err) | None \<Rightarrow> Some (d, deadline_err)))"

record run_result =
  rr_outcome :: run_outcome
  rr_at :: time
  rr_kills :: "kill list"
  rr_running :: bool

definition kill_patience :: duration where
  "kill_patience = 2 * second"

text \<open>When \<open>Wait\<close> has returned, for a process that is killed at \<open>t\<close>.\<close>

definition gone_after_kill :: "child \<Rightarrow> time \<Rightarrow> time option" where
  "gone_after_kill ch t =
     (case (cd_exit ch, cd_killed_exit ch t) of
        (Some (x, _), Some y) \<Rightarrow> Some (max t (min x y))
      | (Some (x, _), None) \<Rightarrow> Some (max t x)
      | (None, Some y) \<Rightarrow> Some (max t y)
      | (None, None) \<Rightarrow> None)"

text \<open>The two branches of the \<open>select\<close>.\<close>

definition waited :: "child \<Rightarrow> time \<Rightarrow> goerr option \<Rightarrow> run_result" where
  "waited ch t err =
     \<lparr>rr_outcome = \<lparr>ro_stdout = cd_stdout ch t, ro_end = (case err of None \<Rightarrow> Exited_Ok | Some e \<Rightarrow> Exited_With e (cd_stderr ch t))\<rparr>,
      rr_at = t, rr_kills = [], rr_running = False\<rparr>"

definition interrupted :: "host \<Rightarrow> child \<Rightarrow> time \<Rightarrow> goerr \<Rightarrow> run_result" where
  "interrupted ho ch t err =
     (let kills = kill_process_group ho (Some (cd_pid ch));
          (back, running) = (case gone_after_kill ch t of
             Some x \<Rightarrow> if x \<le> t + kill_patience then (x, False) else (t + kill_patience, True)
           | None \<Rightarrow> (t + kill_patience, True))
      in \<lparr>rr_outcome = \<lparr>ro_stdout = cd_stdout ch back, ro_end = Context_Done err (cd_stderr ch back)\<rparr>,
          rr_at = back, rr_kills = kills, rr_running = running\<rparr>)"

definition run_process :: "host \<Rightarrow> child \<Rightarrow> (time \<times> goerr) option \<Rightarrow> bool \<Rightarrow> time \<Rightarrow> run_result option" where
  "run_process ho ch ctx_done wait_first now =
     (case cd_start ch of
        Some e \<Rightarrow> Some \<lparr>rr_outcome = \<lparr>ro_stdout = [], ro_end = Start_Failed e\<rparr>, rr_at = now, rr_kills = [], rr_running = False\<rparr>
      | None \<Rightarrow>
          (case (cd_exit ch, ctx_done) of
             (None, None) \<Rightarrow> None
           | (Some (t, err), None) \<Rightarrow> Some (waited ch t err)
           | (None, Some (c, e)) \<Rightarrow> Some (interrupted ho ch (max now c) e)
           | (Some (t, err), Some (c, e)) \<Rightarrow>
               if t < max now c \<or> t = max now c \<and> wait_first then Some (waited ch t err)
               else Some (interrupted ho ch (max now c) e)))"

subsection \<open>The command as the executor uses it\<close>

text \<open>The runs of an operation: the process each starts, when it begins, how a tie is decided, and when the caller gives up.
  \<open>stuck\<close> stands for the answer of a run that never returns.\<close>

record process_env =
  pe_host :: host
  pe_child :: "nat \<Rightarrow> bool \<Rightarrow> string list \<Rightarrow> child"
  pe_begin :: "nat \<Rightarrow> time"
  pe_wait_first :: "nat \<Rightarrow> bool"
  pe_cancel :: "(time \<times> goerr) option"

definition process_run :: "process_env \<Rightarrow> nat \<Rightarrow> ctx \<Rightarrow> bool \<Rightarrow> string list \<Rightarrow> run_result option" where
  "process_run pe i c gpu_off args =
     run_process (pe_host pe) (pe_child pe i gpu_off args) (done_at c (pe_cancel pe)) (pe_wait_first pe i) (pe_begin pe i)"

definition qmd_process :: "process_env \<Rightarrow> run_outcome \<Rightarrow> qmd_env \<Rightarrow> qmd_env" where
  "qmd_process pe stuck qe =
     qe\<lparr>qe_run := (\<lambda>i c gpu_off args. case process_run pe i c gpu_off args of Some r \<Rightarrow> rr_outcome r | None \<Rightarrow> stuck)\<rparr>"

subsection \<open>A run returns\<close>

lemma done_at_deadline: "ctx_deadline c = Some d \<Longrightarrow> \<exists>t e. done_at c cancel = Some (t, e) \<and> t \<le> d"
  by (auto simp: done_at_def split: option.split)

lemma interrupted_at: "t \<le> rr_at (interrupted ho ch t e) \<and> rr_at (interrupted ho ch t e) \<le> t + kill_patience"
  by (auto simp: interrupted_def gone_after_kill_def kill_patience_def Let_def split: option.splits)

lemma run_process_returns:
  assumes "\<And>t err. cd_exit ch = Some (t, err) \<Longrightarrow> now \<le> t"
  shows "\<exists>r. run_process ho ch (Some (c, e)) first now = Some r \<and> now \<le> rr_at r \<and> rr_at r \<le> max now c + kill_patience"
proof -
  have i: "now \<le> rr_at (interrupted ho ch (max now c) e)" "rr_at (interrupted ho ch (max now c) e) \<le> max now c + kill_patience"
    using interrupted_at [of "max now c" ho ch e] by simp_all
  have p: "0 \<le> kill_patience" "now \<le> max now c + kill_patience" by (simp_all add: kill_patience_def)
  show ?thesis
  proof (cases "cd_exit ch")
    case None
    then show ?thesis using i p by (simp add: run_process_def split: option.split)
  next
    case (Some x)
    obtain t err where x: "x = (t, err)" by (cases x)
    have "now \<le> t" using assms Some x by simp
    then show ?thesis using i p by (auto simp: run_process_def waited_def Some x split: option.split)
  qed
qed

text \<open>Nothing but a process that ends by itself in time makes a run succeed, and such a process is not signalled.\<close>

lemma run_process_ok:
  assumes "run_process ho ch ctx_done first now = Some r" and "ro_end (rr_outcome r) = Exited_Ok"
  shows "cd_exit ch = Some (rr_at r, None) \<and> rr_kills r = [] \<and> ro_stdout (rr_outcome r) = cd_stdout ch (rr_at r)"
  using assms by (auto simp: run_process_def waited_def interrupted_def Let_def case_prod_beta split: option.splits if_splits)

lemma interrupted_kills:
  assumes "0 < cd_pid ch"
  shows "rr_kills (interrupted ho ch t e) \<noteq> []"
  using assms by (auto simp: interrupted_def kill_process_group_def Let_def case_prod_beta split: sum.splits option.splits)

lemma run_process_interrupted:
  assumes "run_process ho ch ctx_done first now = Some r" and "ro_end (rr_outcome r) = Context_Done e s" and "0 < cd_pid ch"
  shows "rr_kills r \<noteq> [] \<and> (\<exists>c. ctx_done = Some (c, e) \<and> c \<le> rr_at r)"
proof -
  obtain c e' where c: "ctx_done = Some (c, e')" and r: "r = interrupted ho ch (max now c) e'"
    using assms(1,2) by (auto simp: run_process_def waited_def split: option.splits if_splits)
  then have "e' = e" using assms(2) by (simp add: interrupted_def Let_def case_prod_beta)
  moreover have "c \<le> rr_at r" using interrupted_at [of "max now c" ho ch e'] by (simp add: r)
  ultimately show ?thesis using c interrupted_kills [OF assms(3)] by (simp add: r)
qed

text \<open>A process that is still there two seconds after it was killed (one that cannot be killed, or whose pipes another process
  keeps open) may go on writing into the buffer that the run reads then.\<close>

definition stubborn :: child where
  "stubborn = \<lparr>cd_start = None, cd_pid = 7, cd_exit = None, cd_killed_exit = (\<lambda>t. None), cd_stdout = (\<lambda>t. ''partial''), cd_stderr = (\<lambda>t. [])\<rparr>"

lemma output_read_while_running:
  "run_process \<lparr>ho_pgid = Inr, ho_kill_group = (\<lambda>p. None)\<rparr> stubborn (Some (5, deadline_err)) True 0 =
     Some \<lparr>rr_outcome = \<lparr>ro_stdout = ''partial'', ro_end = Context_Done deadline_err []\<rparr>, rr_at = 5 + kill_patience,
       rr_kills = [Kill_Group 7], rr_running = True\<rparr>"
  by (simp add: run_process_def stubborn_def interrupted_def gone_after_kill_def kill_process_group_def Let_def)

subsection \<open>No operation runs the command without a deadline\<close>

lemma in_time_deadline: "ctx_deadline (in_time qe i d c) \<noteq> None"
  by (simp add: in_time_def with_timeout_def split: option.split)

lemma in_time_process [simp]: "in_time (qmd_process pe stuck qe) = in_time qe"
  by (rule ext)+ (simp add: in_time_def qmd_process_def)

definition ends_after_begin :: "process_env \<Rightarrow> bool" where
  "ends_after_begin pe \<longleftrightarrow> (\<forall>i off args t err. cd_exit (pe_child pe i off args) = Some (t, err) \<longrightarrow> pe_begin pe i \<le> t)"

lemma process_run_returns:
  assumes "ctx_deadline c = Some d" and "ends_after_begin pe"
  shows "\<exists>r. process_run pe i c off args = Some r \<and> pe_begin pe i \<le> rr_at r \<and> rr_at r \<le> max (pe_begin pe i) d + kill_patience"
proof -
  obtain t e where t: "done_at c (pe_cancel pe) = Some (t, e)" "t \<le> d" using done_at_deadline [OF assms(1)] by blast
  have "cd_exit (pe_child pe i off args) = Some (x, err) \<Longrightarrow> pe_begin pe i \<le> x" for x err
    using assms(2) unfolding ends_after_begin_def by blast
  from run_process_returns [of "pe_child pe i off args" "pe_begin pe i" "pe_host pe" t e "pe_wait_first pe i", OF this]
  show ?thesis using t(2) unfolding process_run_def t(1) by fastforce
qed

lemma process_run_Some:
  assumes "ctx_deadline c \<noteq> None"
  shows "process_run pe i c off args \<noteq> None"
proof -
  obtain d where "ctx_deadline c = Some d" using assms by blast
  then show ?thesis by (auto simp: process_run_def run_process_def done_at_def split: option.split prod.split)
qed

lemma qmd_process_simps [simp]:
  "qe_slot (qmd_process pe stuck qe) = qe_slot qe" "qe_json_error (qmd_process pe stuck qe) = qe_json_error qe"
  by (simp_all add: qmd_process_def)

text \<open>The answer of a run under a deadline, in which \<open>stuck\<close> does not occur; in the form in which every operation uses it.\<close>

definition process_answer :: "process_env \<Rightarrow> nat \<Rightarrow> cli \<Rightarrow> ctx \<Rightarrow> string list \<Rightarrow> string \<times> goerr option" where
  "process_answer pe i e c args =
     cli_run \<lparr>qe_now = (\<lambda>i. 0), qe_run = (\<lambda>i c off args. rr_outcome (the (process_run pe i c off args))), qe_slot = (\<lambda>c. None),
              qe_json_error = (\<lambda>t. [])\<rparr> i e c args"

lemma cli_run_process [simp]:
  "cli_run (qmd_process pe stuck qe) i e (in_time qe j d c) args = process_answer pe i e (in_time qe j d c) args"
  using process_run_Some [OF in_time_deadline, of pe i qe j d c "should_disable_vulkan e args" args]
  by (auto simp: process_answer_def cli_run_def qmd_process_def Let_def)

lemmas run_defs = run_text_def run_ok_def exec_search_args_def with_mcp_def probe_context_remove_def

lemma searches_end:
  "cli_search (qmd_process pe stuck qe) = cli_search (qmd_process pe stuck' qe)"
  "cli_vsearch (qmd_process pe stuck qe) = cli_vsearch (qmd_process pe stuck' qe)"
  "cli_query (qmd_process pe stuck qe) = cli_query (qmd_process pe stuck' qe)"
  by ((rule ext)+, simp add: cli_search_def cli_vsearch_def cli_query_def run_defs Let_def cong: option.case_cong sum.case_cong prod.case_cong)+

lemma documents_end:
  "cli_get (qmd_process pe stuck qe) = cli_get (qmd_process pe stuck' qe)"
  "cli_multi_get (qmd_process pe stuck qe) = cli_multi_get (qmd_process pe stuck' qe)"
  by ((rule ext)+, simp add: cli_get_def cli_multi_get_def run_defs Let_def cong: option.case_cong sum.case_cong prod.case_cong)+

lemma registry_ends:
  "cli_collection_add (qmd_process pe stuck qe) = cli_collection_add (qmd_process pe stuck' qe)"
  "cli_collection_list (qmd_process pe stuck qe) = cli_collection_list (qmd_process pe stuck' qe)"
  "cli_context_add (qmd_process pe stuck qe) = cli_context_add (qmd_process pe stuck' qe)"
  "cli_context_list (qmd_process pe stuck qe) = cli_context_list (qmd_process pe stuck' qe)"
  "cli_context_remove (qmd_process pe stuck qe) = cli_context_remove (qmd_process pe stuck' qe)"
  by ((rule ext)+, simp add: cli_collection_add_def cli_collection_list_def cli_context_add_def cli_context_list_def
      cli_context_remove_def run_defs Let_def cong: option.case_cong sum.case_cong prod.case_cong)+

lemma tasks_end:
  "cli_update (qmd_process pe stuck qe) = cli_update (qmd_process pe stuck' qe)"
  "cli_embed (qmd_process pe stuck qe) = cli_embed (qmd_process pe stuck' qe)"
  by ((rule ext)+, simp add: cli_update_def cli_embed_def)+

lemma probes_end:
  "new_cli (qmd_process pe stuck qe) = new_cli (qmd_process pe stuck' qe)"
  "cli_status (qmd_process pe stuck qe) = cli_status (qmd_process pe stuck' qe)"
  "cli_version (qmd_process pe stuck qe) = cli_version (qmd_process pe stuck' qe)"
  "cli_mcp_start (qmd_process pe stuck qe) = cli_mcp_start (qmd_process pe stuck' qe)"
  "cli_mcp_stop (qmd_process pe stuck qe) = cli_mcp_stop (qmd_process pe stuck' qe)"
  "cli_mcp_health (qmd_process pe stuck qe) = cli_mcp_health (qmd_process pe stuck' qe)"
  by ((rule ext)+, simp add: new_cli_def cli_probe_def cli_status_def cli_version_def cli_mcp_start_def cli_mcp_stop_def
      cli_mcp_health_def run_defs Let_def cong: option.case_cong sum.case_cong prod.case_cong)+

subsection \<open>Properties\<close>

text \<open>C15: Every operation of the executor returns: a run of the command under a deadline comes back at most two seconds after it (or after
  it began, if it began late), and no operation depends on a run without a deadline, which might never return.\<close>

theorem every_operation_returns:
  fixes pe :: process_env and qe :: qmd_env and stuck stuck' :: run_outcome
  defines "q \<equiv> qmd_process pe stuck qe" and "q' \<equiv> qmd_process pe stuck' qe"
  assumes "ends_after_begin pe"
  shows "(ctx_deadline c = Some d \<longrightarrow>
      (\<exists>r. process_run pe i c off args = Some r \<and> pe_begin pe i \<le> rr_at r \<and> rr_at r \<le> max (pe_begin pe i) d + 2 * second)) \<and>
    new_cli q = new_cli q' \<and> cli_search q = cli_search q' \<and> cli_vsearch q = cli_vsearch q' \<and> cli_query q = cli_query q' \<and>
    cli_get q = cli_get q' \<and> cli_multi_get q = cli_multi_get q' \<and> cli_collection_add q = cli_collection_add q' \<and>
    cli_collection_list q = cli_collection_list q' \<and> cli_context_add q = cli_context_add q' \<and>
    cli_context_list q = cli_context_list q' \<and> cli_context_remove q = cli_context_remove q' \<and> cli_update q = cli_update q' \<and>
    cli_embed q = cli_embed q' \<and> cli_status q = cli_status q' \<and> cli_version q = cli_version q' \<and>
    cli_mcp_start q = cli_mcp_start q' \<and> cli_mcp_stop q = cli_mcp_stop q' \<and> cli_mcp_health q = cli_mcp_health q'"
  using process_run_returns [OF _ assms(3), of c d i off args]
  unfolding q_def q'_def by (intro conjI impI searches_end documents_end registry_ends tasks_end probes_end) (simp add: kill_patience_def)

definition demo_processes :: process_env where
  "demo_processes =
     \<lparr>pe_host = \<lparr>ho_pgid = Inr, ho_kill_group = (\<lambda>p. None)\<rparr>, pe_child = (\<lambda>i off args. stubborn), pe_begin = (\<lambda>i. 3),
      pe_wait_first = (\<lambda>i. True), pe_cancel = None\<rparr>"

lemma every_operation_returns_witness:
  "\<exists>r. process_run demo_processes 0 \<lparr>ctx_deadline = Some 9\<rparr> False [''search''] = Some r \<and> rr_at r \<le> 9 + 2 * second"
proof -
  have "ends_after_begin demo_processes" by (simp add: ends_after_begin_def demo_processes_def stubborn_def)
  note conjunct1 [OF every_operation_returns [OF this, of "\<lparr>ctx_deadline = Some 9\<rparr>" 9 0 False "[''search'']"]]
  then obtain r where r: "process_run demo_processes 0 \<lparr>ctx_deadline = Some 9\<rparr> False [''search''] = Some r"
    "rr_at r \<le> max (pe_begin demo_processes 0) 9 + 2 * second" by auto
  moreover have "pe_begin demo_processes 0 = 3" by (simp add: demo_processes_def)
  ultimately show ?thesis by simp
qed

text \<open>A run succeeds only when the process came to its end by itself and in time; its output is then complete, and nothing was signalled. A
  run that ends with the error of its context has signalled the process or its group, not before the context was done.\<close>

theorem runs_end_one_way:
  assumes "process_run pe i c off args = Some r" and "0 < cd_pid (pe_child pe i off args)"
  shows "(ro_end (rr_outcome r) = Exited_Ok \<longrightarrow> cd_exit (pe_child pe i off args) = Some (rr_at r, None) \<and> rr_kills r = []) \<and>
    (\<forall>e s. ro_end (rr_outcome r) = Context_Done e s \<longrightarrow>
       rr_kills r \<noteq> [] \<and> (\<exists>t. done_at c (pe_cancel pe) = Some (t, e) \<and> t \<le> rr_at r))"
  using run_process_ok run_process_interrupted [OF _ _ assms(2)] assms(1) unfolding process_run_def by blast

end
