(* ===== verification/Lifecycle.thy ===== *)
theory Lifecycle
  imports Main_Program Process
begin

text \<open>
  The life of the process (\<open>main.go\<close>): the flags, the goroutines that the components start, the calls that the server has
  under way, and the way from the signal to the end of \<open>main\<close> (\<open>Stop\<close> of scheduler, guardian and heartbeat, \<open>Shutdown\<close> of
  \<open>api/server.go\<close>, the watchdog). A context is one of four scopes; cancelling a scope cancels what derives from it. \<open>main\<close> is a program counter,
  the \<open>stage\<close>. Goroutines and calls act on the system of \<open>Main_Program\<close>; who may do what is part of the step relation.
  \<open>GracefulStop\<close> is outside: \<open>graceful\<close> says with which calls under way it may return.
\<close>

subsection \<open>Flags\<close>

record flags =
  fl_config :: string
  fl_v :: bool
  fl_version :: bool

definition default_flags :: flags where
  "default_flags = \<lparr>fl_config = ''/etc/qmdsr/qmdsr.yaml'', fl_v = False, fl_version = False\<rparr>"

record version_info =
  vi_version :: string
  vi_commit :: string
  vi_build_time :: string

definition version_text :: "version_info \<Rightarrow> string" where
  "version_text vi =
     ''qmdsr '' @ vi_version vi @ nl @ ''commit: '' @ vi_commit vi @ nl @ ''build: '' @ vi_build_time vi @ nl"

datatype launch_end = Printed string | Failed exit | Ready system

definition launch :: "flags \<Rightarrow> version_info \<Rightarrow> boot_env \<Rightarrow> 's registry \<Rightarrow> 's \<Rightarrow> launch_end \<times> 's" where
  "launch fl vi be rg s =
     (if fl_v fl \<or> fl_version fl then (Printed (version_text vi), s)
      else case boot (be\<lparr>bo_config_path := fl_config fl\<rparr>) rg s of
             (Inl e, s) \<Rightarrow> (Failed e, s)
           | (Inr sys, s) \<Rightarrow> (Ready sys, s))"

subsection \<open>Contexts and goroutines\<close>

datatype scope = Root_Scope | Sched_Scope | Guard_Scope | Beat_Scope

definition all_scopes :: "scope set" where
  "all_scopes = {Root_Scope, Sched_Scope, Guard_Scope, Beat_Scope}"

definition cancel_scope :: "scope \<Rightarrow> scope set \<Rightarrow> scope set" where
  "cancel_scope s done_scopes = (if s = Root_Scope then all_scopes else insert s done_scopes)"

datatype loop = Task_Loop task | Guard_Loop | Beat_Loop | Cpu_Loop | Watchdog_Loop

fun loop_scope :: "loop \<Rightarrow> scope option" where
  "loop_scope (Task_Loop k) = Some Sched_Scope"
| "loop_scope Guard_Loop = Some Guard_Scope"
| "loop_scope Beat_Loop = Some Beat_Scope"
| "loop_scope Cpu_Loop = Some Root_Scope"
| "loop_scope Watchdog_Loop = None"

text \<open>What \<open>main\<close> has started when it is ready; \<open>sock\<close> is \<open>NOTIFY_SOCKET\<close>.\<close>

definition watchdog_runs :: "string \<Rightarrow> bool" where
  "watchdog_runs sock \<longleftrightarrow> sock \<noteq> []"

definition started_loops :: "config \<Rightarrow> bool \<Rightarrow> string \<Rightarrow> loop list" where
  "started_loops cfg guarding sock =
     (if cm_enabled (orch_cpu_config (cf_runtime cfg)) then [Cpu_Loop] else []) @
     map (\<lambda>(k, interval). Task_Loop k) (scheduled_tasks cfg) @
     (if guarding then [Guard_Loop] else []) @ [Beat_Loop] @ (if watchdog_runs sock then [Watchdog_Loop] else [])"

subsection \<open>The stages of main\<close>

definition shutdown_patience :: duration where
  "shutdown_patience = 10 * second"

text \<open>From the signal on a stage carries the deadline of \<open>shutdownCtx\<close>; the last two carry what \<open>Shutdown\<close> returned.\<close>

datatype stage =
    Serving
  | Stop_Sched time
  | Stop_Guard time
  | Stop_Beat time
  | Shutting time
  | Cancelling time "goerr option"
  | Finished time "goerr option"

record life =
  lf_sys :: system
  lf_stage :: stage
  lf_done :: "scope set"
  lf_loops :: "loop list"
  lf_server :: bool
  lf_listening :: bool
  lf_calls :: "nat list"
  lf_cut :: "nat list"
  lf_now :: time
  lf_pings :: nat

definition has_server :: "system \<Rightarrow> bool" where
  "has_server sys \<longleftrightarrow> sv_grpc_listen (cf_server (ys_cfg sys)) \<noteq> []"

definition new_life :: "time \<Rightarrow> string \<Rightarrow> system \<Rightarrow> life" where
  "new_life now sock sys =
     \<lparr>lf_sys = sys, lf_stage = Serving, lf_done = {}, lf_loops = started_loops (ys_cfg sys) (ys_guarding sys) sock,
      lf_server = has_server sys, lf_listening = has_server sys, lf_calls = [], lf_cut = [], lf_now = now, lf_pings = 0\<rparr>"

definition finished :: "life \<Rightarrow> bool" where
  "finished L \<longleftrightarrow> (case lf_stage L of Finished d r \<Rightarrow> True | _ \<Rightarrow> False)"

text \<open>\<open>Server.Shutdown\<close>: its beginning (no call is taken from then on), and the branch for the deadline, which stops the
  server and so cuts off the calls that are under way.\<close>

definition shutdown_begins :: "time \<Rightarrow> life \<Rightarrow> life" where
  "shutdown_begins d L =
     (if lf_server L then L\<lparr>lf_listening := False, lf_stage := Shutting d\<rparr> else L\<lparr>lf_stage := Cancelling d None\<rparr>)"

definition shutdown_times_out :: "time \<Rightarrow> life \<Rightarrow> life" where
  "shutdown_times_out d L = L\<lparr>lf_stage := Cancelling d (Some deadline_err), lf_cut := lf_calls L\<rparr>"

text \<open>One tick of the watchdog, with what became of the socket.\<close>

definition watchdog_tick :: "goerr option \<Rightarrow> nat \<Rightarrow> nat" where
  "watchdog_tick socket_err pings = (case socket_err of Some e \<Rightarrow> pings | None \<Rightarrow> Suc pings)"

text \<open>The next step of \<open>main\<close> where it does not wait. \<open>Guardian.Stop\<close> does nothing when the guardian was not started.\<close>

definition main_step :: "life \<Rightarrow> life option" where
  "main_step L =
     (case lf_stage L of
        Stop_Sched d \<Rightarrow> Some (L\<lparr>lf_done := cancel_scope Sched_Scope (lf_done L), lf_stage := Stop_Guard d\<rparr>)
      | Stop_Guard d \<Rightarrow>
          Some (L\<lparr>lf_done := (if ys_guarding (lf_sys L) then cancel_scope Guard_Scope (lf_done L) else lf_done L),
                  lf_stage := Stop_Beat d\<rparr>)
      | Stop_Beat d \<Rightarrow>
          Some (shutdown_begins d (L\<lparr>lf_done := cancel_scope Beat_Scope (lf_done L)\<rparr>))
      | Cancelling d r \<Rightarrow> Some (L\<lparr>lf_done := cancel_scope Root_Scope (lf_done L), lf_stage := Finished d r\<rparr>)
      | _ \<Rightarrow> None)"

subsection \<open>Who does what\<close>

fun by_loop :: "loop \<Rightarrow> sys_event \<Rightarrow> bool" where
  "by_loop (Task_Loop k) (Task_Event zone (Triggered k' t)) = (k = k')"
| "by_loop Guard_Loop (Guard_Event (Checked e t)) = True"
| "by_loop Beat_Loop (Round t rs) = True"
| "by_loop _ _ = False"

text \<open>The tasks that the admin service can trigger: \<open>TriggerReindex\<close>, and \<open>TriggerEmbed\<close> where embedding is allowed.\<close>

fun triggerable :: "runtime_config \<Rightarrow> task \<Rightarrow> bool" where
  "triggerable rt Task_Reindex = True"
| "triggerable rt Task_Embed = (\<not> embed_disabled rt)"
| "triggerable rt Task_Embed_Full = (\<not> embed_disabled rt)"
| "triggerable rt Task_Cleanup = False"

fun by_call :: "runtime_config \<Rightarrow> sys_event \<Rightarrow> bool" where
  "by_call rt (Search_Call av c req) = True"
| "by_call rt (Search_And_Get_Call av c req) = True"
| "by_call rt (Cache_Clear_Call rv c) = True"
| "by_call rt (Task_Event zone (Triggered k t)) = triggerable rt k"
| "by_call rt (Guard_Event Manual_Restart) = True"
| "by_call rt _ = False"

text \<open>Goes on by itself: the attempts of a task under way, and restarts.\<close>

fun under_way :: "sys_event \<Rightarrow> bool" where
  "under_way (Task_Event zone (Attempted k a)) = True"
| "under_way (Guard_Event Restart_Begins) = True"
| "under_way (Guard_Event (Restart_Ends e1 e2 t)) = True"
| "under_way _ = False"

datatype life_event =
    Signalled
  | Main_Moves
  | Drained
  | Times_Out
  | Passes time
  | Loop_Ends loop
  | Fires loop sys_event
  | Pinged "goerr option"
  | Call_Begins nat
  | Serves nat sys_event
  | Call_Ends nat
  | Goes_On sys_event

inductive life_step :: "(nat list \<Rightarrow> bool) \<Rightarrow> life \<Rightarrow> life_event \<Rightarrow> life \<Rightarrow> bool" for graceful where
  signalled: "lf_stage L = Serving \<Longrightarrow>
    life_step graceful L Signalled (L\<lparr>lf_stage := Stop_Sched (lf_now L + shutdown_patience)\<rparr>)"
| main_moves: "main_step L = Some L' \<Longrightarrow> life_step graceful L Main_Moves L'"
| drained: "lf_stage L = Shutting d \<Longrightarrow> graceful (lf_calls L) \<Longrightarrow>
    life_step graceful L Drained (L\<lparr>lf_stage := Cancelling d None\<rparr>)"
| times_out: "lf_stage L = Shutting d \<Longrightarrow> d \<le> lf_now L \<Longrightarrow>
    life_step graceful L Times_Out (shutdown_times_out d L)"
| passes: "\<not> finished L \<Longrightarrow> lf_now L \<le> t \<Longrightarrow> life_step graceful L (Passes t) (L\<lparr>lf_now := t\<rparr>)"
| loop_ends: "\<not> finished L \<Longrightarrow> l \<in> set (lf_loops L) \<Longrightarrow> loop_scope l = Some s \<Longrightarrow> s \<in> lf_done L \<or> l = Cpu_Loop \<Longrightarrow>
    life_step graceful L (Loop_Ends l) (L\<lparr>lf_loops := remove1 l (lf_loops L)\<rparr>)"
| fires: "\<not> finished L \<Longrightarrow> l \<in> set (lf_loops L) \<Longrightarrow> by_loop l ev \<Longrightarrow> sys_step (lf_sys L) ev sys \<Longrightarrow>
    life_step graceful L (Fires l ev) (L\<lparr>lf_sys := sys\<rparr>)"
| pinged: "\<not> finished L \<Longrightarrow> Watchdog_Loop \<in> set (lf_loops L) \<Longrightarrow>
    life_step graceful L (Pinged e) (L\<lparr>lf_pings := watchdog_tick e (lf_pings L)\<rparr>)"
| call_begins: "\<not> finished L \<Longrightarrow> lf_listening L \<Longrightarrow> n \<notin> set (lf_calls L) \<Longrightarrow>
    life_step graceful L (Call_Begins n) (L\<lparr>lf_calls := n # lf_calls L\<rparr>)"
| serves: "\<not> finished L \<Longrightarrow> n \<in> set (lf_calls L) \<Longrightarrow> by_call (cf_runtime (ys_cfg (lf_sys L))) ev \<Longrightarrow> sys_step (lf_sys L) ev sys \<Longrightarrow>
    life_step graceful L (Serves n ev) (L\<lparr>lf_sys := sys\<rparr>)"
| call_ends: "\<not> finished L \<Longrightarrow> n \<in> set (lf_calls L) \<Longrightarrow>
    life_step graceful L (Call_Ends n) (L\<lparr>lf_calls := remove1 n (lf_calls L)\<rparr>)"
| goes_on: "\<not> finished L \<Longrightarrow> under_way ev \<Longrightarrow> sys_step (lf_sys L) ev sys \<Longrightarrow>
    life_step graceful L (Goes_On ev) (L\<lparr>lf_sys := sys\<rparr>)"

inductive_cases life_stepE: "life_step graceful L ev L'"

inductive life_run :: "(nat list \<Rightarrow> bool) \<Rightarrow> life \<Rightarrow> life_event list \<Rightarrow> life \<Rightarrow> bool" for graceful where
  start: "life_run graceful L [] L"
| step: "life_run graceful L evs L' \<Longrightarrow> life_step graceful L' ev L'' \<Longrightarrow> life_run graceful L (evs @ [ev]) L''"

subsection \<open>Invariants\<close>

lemma sys_step_guarding: "sys_step sys ev sys' \<Longrightarrow> ys_guarding sys' = ys_guarding sys"
  by (erule sys_stepE) (simp_all add: with_orch_def)

text \<open>What has been cancelled in each stage.\<close>

fun stage_scopes :: "bool \<Rightarrow> stage \<Rightarrow> scope set" where
  "stage_scopes guarding Serving = {}"
| "stage_scopes guarding (Stop_Sched d) = {}"
| "stage_scopes guarding (Stop_Guard d) = {Sched_Scope}"
| "stage_scopes guarding (Stop_Beat d) = {Sched_Scope} \<union> (if guarding then {Guard_Scope} else {})"
| "stage_scopes guarding (Shutting d) = {Sched_Scope, Beat_Scope} \<union> (if guarding then {Guard_Scope} else {})"
| "stage_scopes guarding (Cancelling d r) = {Sched_Scope, Beat_Scope} \<union> (if guarding then {Guard_Scope} else {})"
| "stage_scopes guarding (Finished d r) = all_scopes"

fun stage_deadline :: "stage \<Rightarrow> time option" where
  "stage_deadline Serving = None"
| "stage_deadline (Stop_Sched d) = Some d"
| "stage_deadline (Stop_Guard d) = Some d"
| "stage_deadline (Stop_Beat d) = Some d"
| "stage_deadline (Shutting d) = Some d"
| "stage_deadline (Cancelling d r) = Some d"
| "stage_deadline (Finished d r) = Some d"

fun stage_left :: "stage \<Rightarrow> nat" where
  "stage_left Serving = 6"
| "stage_left (Stop_Sched d) = 5"
| "stage_left (Stop_Guard d) = 4"
| "stage_left (Stop_Beat d) = 3"
| "stage_left (Shutting d) = 2"
| "stage_left (Cancelling d r) = 1"
| "stage_left (Finished d r) = 0"

text \<open>How \<open>Shutdown\<close> has ended: cleanly, with no call left or cut off, or at its deadline.\<close>

fun ended_well :: "time \<Rightarrow> goerr option \<Rightarrow> nat list \<Rightarrow> nat list \<Rightarrow> time \<Rightarrow> bool" where
  "ended_well d None calls broken now \<longleftrightarrow> calls = [] \<and> broken = []"
| "ended_well d (Some e) calls broken now \<longleftrightarrow> e = deadline_err \<and> d \<le> now"

fun stage_ok :: "stage \<Rightarrow> bool \<Rightarrow> nat list \<Rightarrow> nat list \<Rightarrow> time \<Rightarrow> bool" where
  "stage_ok (Shutting d) listening calls broken now \<longleftrightarrow> \<not> listening \<and> broken = []"
| "stage_ok (Cancelling d r) listening calls broken now \<longleftrightarrow> \<not> listening \<and> ended_well d r calls broken now"
| "stage_ok (Finished d r) listening calls broken now \<longleftrightarrow> \<not> listening \<and> ended_well d r calls broken now"
| "stage_ok _ listening calls broken now \<longleftrightarrow> broken = []"

definition server_inv :: "life \<Rightarrow> bool" where
  "server_inv L \<longleftrightarrow> (lf_server L \<or> \<not> lf_listening L \<and> lf_calls L = []) \<and>
     stage_ok (lf_stage L) (lf_listening L) (lf_calls L) (lf_cut L) (lf_now L)"

lemma stage_ok_later: "stage_ok st listening calls broken now \<Longrightarrow> now \<le> t \<Longrightarrow> stage_ok st listening calls broken t"
proof (induction st listening calls broken now rule: stage_ok.induct)
  case (2 d r listening calls broken now)
  then show ?case by (cases r) simp_all
next
  case (3 d r listening calls broken now)
  then show ?case by (cases r) simp_all
qed simp_all

lemma stage_ok_fewer: "stage_ok st listening calls broken now \<Longrightarrow> stage_ok st listening (remove1 n calls) broken now"
proof (induction st listening calls broken now rule: stage_ok.induct)
  case (2 d r listening calls broken now)
  then show ?case by (cases r) simp_all
next
  case (3 d r listening calls broken now)
  then show ?case by (cases r) simp_all
qed simp_all

lemma stage_ok_listening: "stage_ok st True calls broken now \<Longrightarrow> stage_ok st True calls' broken now"
  by (cases st) simp_all

text \<open>A goroutine that has not been told to stop is still there; the cpu guard gives up when it cannot read its counters at first.\<close>

definition loops_inv :: "loop list \<Rightarrow> life \<Rightarrow> bool" where
  "loops_inv started L \<longleftrightarrow> set (lf_loops L) \<subseteq> set started \<and>
     (\<forall>l\<in>set started. l \<in> set (lf_loops L) \<or> l = Cpu_Loop \<or> (\<exists>s\<in>lf_done L. loop_scope l = Some s))"

definition scopes_inv :: "life \<Rightarrow> bool" where
  "scopes_inv L \<longleftrightarrow> lf_done L = stage_scopes (ys_guarding (lf_sys L)) (lf_stage L)"

lemma shutdown_times_out_simps [simp]:
  "lf_stage (shutdown_times_out d L) = Cancelling d (Some deadline_err)" "lf_cut (shutdown_times_out d L) = lf_calls L"
  "lf_sys (shutdown_times_out d L) = lf_sys L" "lf_done (shutdown_times_out d L) = lf_done L"
  "lf_loops (shutdown_times_out d L) = lf_loops L" "lf_server (shutdown_times_out d L) = lf_server L"
  "lf_listening (shutdown_times_out d L) = lf_listening L" "lf_calls (shutdown_times_out d L) = lf_calls L"
  "lf_now (shutdown_times_out d L) = lf_now L"
  by (simp_all add: shutdown_times_out_def)

lemma main_step_cases:
  assumes "main_step L = Some L'"
  obtains d where "lf_stage L = Stop_Sched d" and "L' = L\<lparr>lf_done := cancel_scope Sched_Scope (lf_done L), lf_stage := Stop_Guard d\<rparr>"
  | d where "lf_stage L = Stop_Guard d"
      and "L' = L\<lparr>lf_done := (if ys_guarding (lf_sys L) then cancel_scope Guard_Scope (lf_done L) else lf_done L), lf_stage := Stop_Beat d\<rparr>"
  | d where "lf_stage L = Stop_Beat d" and "lf_server L"
      and "L' = L\<lparr>lf_done := cancel_scope Beat_Scope (lf_done L), lf_listening := False, lf_stage := Shutting d\<rparr>"
  | d where "lf_stage L = Stop_Beat d" and "\<not> lf_server L"
      and "L' = L\<lparr>lf_done := cancel_scope Beat_Scope (lf_done L), lf_stage := Cancelling d None\<rparr>"
  | d r where "lf_stage L = Cancelling d r"
      and "L' = L\<lparr>lf_done := cancel_scope Root_Scope (lf_done L), lf_stage := Finished d r\<rparr>"
  using assms by (cases "lf_stage L") (auto simp: main_step_def shutdown_begins_def split: if_splits)

lemma main_step_scopes: "main_step L = Some L' \<Longrightarrow> scopes_inv L \<Longrightarrow> scopes_inv L'"
  by (erule main_step_cases) (auto simp: scopes_inv_def cancel_scope_def)

lemma main_step_server: "main_step L = Some L' \<Longrightarrow> server_inv L \<Longrightarrow> server_inv L'"
  by (erule main_step_cases) (auto simp: server_inv_def)

lemma main_step_done: "main_step L = Some L' \<Longrightarrow> lf_done L \<subseteq> lf_done L' \<or> lf_done L' = all_scopes"
  by (erule main_step_cases) (auto simp: cancel_scope_def)

lemma all_scopes_UNIV: "s \<in> all_scopes"
  by (cases s) (simp_all add: all_scopes_def)

lemma main_step_loops: "main_step L = Some L' \<Longrightarrow> loops_inv started L \<Longrightarrow> loops_inv started L'"
proof -
  assume m: "main_step L = Some L'" and i: "loops_inv started L"
  have "lf_loops L' = lf_loops L" using m by (rule main_step_cases) simp_all
  moreover have "s \<in> lf_done L \<Longrightarrow> s \<in> lf_done L'" for s using main_step_done [OF m] all_scopes_UNIV by blast
  ultimately show ?thesis using i unfolding loops_inv_def by (metis (no_types, lifting))
qed

lemma main_step_same: "main_step L = Some L' \<Longrightarrow> lf_sys L' = lf_sys L \<and> lf_now L' = lf_now L \<and> lf_server L' = lf_server L"
  by (erule main_step_cases) simp_all

lemma main_step_stage:
  "main_step L = Some L' \<Longrightarrow> stage_deadline (lf_stage L') = stage_deadline (lf_stage L) \<and> stage_left (lf_stage L') < stage_left (lf_stage L) \<and>
     lf_stage L \<noteq> Serving"
  by (erule main_step_cases) simp_all

text \<open>What a step does to the system, to the clock, and to the stage.\<close>

lemma life_step_sys: "life_step graceful L ev L' \<Longrightarrow> lf_sys L' = lf_sys L \<or> (\<exists>e. sys_step (lf_sys L) e (lf_sys L'))"
  by (erule life_stepE) (auto dest: main_step_same)

definition tick :: "time \<Rightarrow> life_event \<Rightarrow> time" where
  "tick t ev = (case ev of Passes t' \<Rightarrow> t' | _ \<Rightarrow> t)"

lemma life_step_now: "life_step graceful L ev L' \<Longrightarrow> lf_now L' = tick (lf_now L) ev"
  by (erule life_stepE) (auto simp: tick_def dest: main_step_same)

fun main_event :: "life_event \<Rightarrow> bool" where
  "main_event Signalled = True"
| "main_event Main_Moves = True"
| "main_event Drained = True"
| "main_event Times_Out = True"
| "main_event _ = False"

lemma life_step_stage:
  "life_step graceful L ev L' \<Longrightarrow>
     (if main_event ev then stage_left (lf_stage L') < stage_left (lf_stage L) else lf_stage L' = lf_stage L) \<and>
     stage_deadline (lf_stage L') =
       (if ev = Signalled then Some (lf_now L + shutdown_patience) else stage_deadline (lf_stage L)) \<and>
     (ev = Signalled \<longrightarrow> lf_stage L = Serving)"
  by (erule life_stepE) (auto dest: main_step_stage)

text \<open>\<open>GracefulStop\<close> returns when no call is under way, and only then.\<close>

definition waits_for_calls :: "(nat list \<Rightarrow> bool) \<Rightarrow> bool" where
  "waits_for_calls graceful \<longleftrightarrow> (\<forall>calls. graceful calls \<longleftrightarrow> calls = [])"

lemma server_inv_step:
  assumes "life_step graceful L ev L'" and "waits_for_calls graceful" and "server_inv L"
  shows "server_inv L'"
  using assms(1)
proof cases
  case main_moves
  then show ?thesis using assms(3) main_step_server by blast
next
  case (drained d)
  then show ?thesis using assms(2,3) by (simp add: server_inv_def waits_for_calls_def)
next
  case (times_out d)
  then show ?thesis using assms(3) by (auto simp: server_inv_def)
next
  case (passes t)
  then show ?thesis using assms(3) by (simp add: server_inv_def stage_ok_later [of _ _ _ _ "lf_now L"])
next
  case (call_begins n)
  then show ?thesis using assms(3) by (simp add: server_inv_def stage_ok_listening [of _ "lf_calls L"])
next
  case (call_ends n)
  then show ?thesis using assms(3) by (auto simp: server_inv_def stage_ok_fewer)
qed (use assms(3) in \<open>simp_all add: server_inv_def\<close>)

lemma scopes_inv_step:
  assumes "life_step graceful L ev L'" and "scopes_inv L"
  shows "scopes_inv L'"
  using assms(1)
proof cases
  case main_moves
  then show ?thesis using assms(2) main_step_scopes by blast
qed (use assms(2) sys_step_guarding in \<open>auto simp: scopes_inv_def\<close>)

lemma loops_inv_step:
  assumes "life_step graceful L ev L'" and "loops_inv started L"
  shows "loops_inv started L'"
  using assms(1)
proof cases
  case main_moves
  then show ?thesis using assms(2) main_step_loops by blast
next
  case (loop_ends l s)
  have "set (remove1 l (lf_loops L)) \<subseteq> set (lf_loops L)" by (rule set_remove1_subset)
  moreover have "x \<in> set (remove1 l (lf_loops L))" if "x \<in> set (lf_loops L)" "x \<noteq> l" for x
    using that by simp
  ultimately show ?thesis using assms(2) loop_ends unfolding loops_inv_def by fastforce
qed (use assms(2) in \<open>simp_all add: loops_inv_def\<close>)

text \<open>The whole run.\<close>

fun signal_at :: "time \<Rightarrow> life_event list \<Rightarrow> time option" where
  "signal_at t [] = None"
| "signal_at t (ev # evs) = (if ev = Signalled then Some t else signal_at (tick t ev) evs)"

lemma signal_at_snoc:
  "signal_at t (evs @ [ev]) = (case signal_at t evs of Some x \<Rightarrow> Some x | None \<Rightarrow> if ev = Signalled then Some (foldl tick t evs) else None)"
  by (induction evs arbitrary: t) (auto split: option.split)

definition life_inv :: "string \<Rightarrow> life \<Rightarrow> bool" where
  "life_inv sock L \<longleftrightarrow> sys_inv (lf_sys L) \<and> server_inv L \<and> scopes_inv L \<and>
     loops_inv (started_loops (ys_cfg (lf_sys L)) (ys_guarding (lf_sys L)) sock) L"

lemma life_inv_new: "sys_inv sys \<Longrightarrow> life_inv sock (new_life now sock sys)"
  by (simp add: life_inv_def new_life_def server_inv_def scopes_inv_def loops_inv_def)

lemma life_step_inv:
  assumes "life_step graceful L ev L'" and "waits_for_calls graceful" and "life_inv sock L"
  shows "life_inv sock L' \<and> ys_cfg (lf_sys L') = ys_cfg (lf_sys L) \<and> ys_guarding (lf_sys L') = ys_guarding (lf_sys L)"
proof -
  have "sys_inv (lf_sys L') \<and> ys_cfg (lf_sys L') = ys_cfg (lf_sys L) \<and> ys_guarding (lf_sys L') = ys_guarding (lf_sys L)"
    using life_step_sys [OF assms(1)] assms(3) sys_step_inv sys_step_guarding unfolding life_inv_def by metis
  then show ?thesis
    using server_inv_step [OF assms(1,2)] scopes_inv_step [OF assms(1)] loops_inv_step [OF assms(1)] assms(3)
    by (simp add: life_inv_def)
qed

lemma life_run_inv:
  assumes "life_run graceful L evs L'" and "waits_for_calls graceful" and "life_inv sock L"
  shows "life_inv sock L' \<and> ys_cfg (lf_sys L') = ys_cfg (lf_sys L) \<and> ys_guarding (lf_sys L') = ys_guarding (lf_sys L)"
  using assms by induction (auto dest: life_step_inv)

lemma life_run_now: "life_run graceful L evs L' \<Longrightarrow> lf_now L' = foldl tick (lf_now L) evs"
  by (induction rule: life_run.induct) (simp_all add: life_step_now)

lemma life_run_stage:
  assumes "life_run graceful L evs L'" and "lf_stage L = Serving"
  shows "stage_deadline (lf_stage L') = map_option (\<lambda>t. t + shutdown_patience) (signal_at (lf_now L) evs) \<and>
    length (filter main_event evs) + stage_left (lf_stage L') \<le> 6"
  using assms
proof induction
  case (step L evs L' ev L'')
  have "stage_deadline s \<noteq> None \<Longrightarrow> s \<noteq> Serving" for s by auto
  then show ?case
    using life_step_stage [OF step.hyps(2)] step life_run_now [OF step.hyps(1)]
    by (auto simp: signal_at_snoc split: option.splits if_splits)
qed simp

subsection \<open>Properties\<close>


subsection \<open>A run to the end\<close>

lemma life_run_Cons:
  assumes "life_step graceful L ev L'" and "life_run graceful L' evs L''"
  shows "life_run graceful L (ev # evs) L''"
  using assms(2,1)
proof induction
  case (start L')
  then show ?case using life_run.step [OF life_run.start] by fastforce
next
  case (step L' evs M ev' M')
  then show ?case using life_run.step [of graceful L "ev # evs" M ev' M'] by simp
qed

text \<open>A signal at a moment without calls leads to a clean end, whatever the goroutines are about to do.\<close>

lemma clean_end:
  assumes "waits_for_calls graceful" and "lf_stage L = Serving" and "lf_calls L = []"
  shows "\<exists>evs L'. life_run graceful L evs L' \<and> lf_stage L' = Finished (lf_now L + shutdown_patience) None \<and> lf_sys L' = lf_sys L"
proof -
  let ?d = "lf_now L + shutdown_patience"
  define L1 where "L1 = L\<lparr>lf_stage := Stop_Sched ?d\<rparr>"
  define L2 where "L2 = the (main_step L1)"
  define L3 where "L3 = the (main_step L2)"
  define L4 where "L4 = the (main_step L3)"
  define L5 where "L5 = L4\<lparr>lf_stage := Cancelling ?d None\<rparr>"
  define L6 where "L6 = the (main_step L5)"
  note defs = L1_def L2_def L3_def L4_def L5_def L6_def main_step_def shutdown_begins_def
  have s: "life_step graceful L Signalled L1" unfolding L1_def using assms(2) by (rule life_step.signalled)
  have m: "life_step graceful L1 Main_Moves L2" "life_step graceful L2 Main_Moves L3" "life_step graceful L3 Main_Moves L4"
    "life_step graceful L5 Main_Moves L6"
    by (rule life_step.main_moves, simp add: defs)+
  have e: "lf_stage L6 = Finished ?d None" "lf_sys L6 = lf_sys L" by (simp_all add: defs)
  show ?thesis
  proof (cases "lf_server L")
    case True
    have "lf_stage L4 = Shutting ?d" "lf_calls L4 = []" using True assms(3) by (simp_all add: defs)
    then have "life_step graceful L4 Drained L5"
      unfolding L5_def using assms(1) by (intro life_step.drained) (simp_all add: waits_for_calls_def)
    from life_run_Cons [OF this life_run_Cons [OF m(4) life_run.start]]
    have "life_run graceful L [Signalled, Main_Moves, Main_Moves, Main_Moves, Drained, Main_Moves] L6"
      by (rule life_run_Cons [OF s life_run_Cons [OF m(1) life_run_Cons [OF m(2) life_run_Cons [OF m(3)]]]])
    then show ?thesis using e by blast
  next
    case False
    have "L4 = L5" using False by (simp add: defs)
    then have "life_run graceful L4 [Main_Moves] L6" using life_run_Cons [OF m(4) life_run.start] by simp
    then have "life_run graceful L [Signalled, Main_Moves, Main_Moves, Main_Moves, Main_Moves] L6"
      by (rule life_run_Cons [OF s life_run_Cons [OF m(1) life_run_Cons [OF m(2) life_run_Cons [OF m(3)]]]])
    then show ?thesis using e by blast
  qed
qed

lemma graceful_null: "waits_for_calls (\<lambda>calls. calls = [])"
  by (simp add: waits_for_calls_def)


text \<open>C22: After the signal \<open>main\<close> comes to its end: it takes at most six steps in all, and it can always take the next one, either at once
  or, when it waits for calls, as soon as the deadline is reached. Once it has ended nothing happens any more.\<close>

theorem main_comes_to_its_end:
  fixes sys0 :: system and L :: life
  assumes "life_run graceful (new_life now sock sys0) evs L"
  shows "length (filter main_event evs) \<le> 6 \<and>
    (\<forall>t. signal_at now evs = Some t \<longrightarrow> \<not> finished L \<longrightarrow>
      (\<exists>ev L'. main_event ev \<and> life_step graceful L ev L') \<or>
      (\<exists>L' L''. life_step graceful L (Passes (max (lf_now L) (t + 10 * second))) L' \<and> life_step graceful L' Times_Out L'')) \<and>
    (finished L \<longrightarrow> (\<nexists>ev L'. life_step graceful L ev L'))"
proof (intro conjI allI impI)
  have stage: "stage_deadline (lf_stage L) = map_option (\<lambda>t. t + shutdown_patience) (signal_at now evs)"
    "length (filter main_event evs) + stage_left (lf_stage L) \<le> 6"
    using life_run_stage [OF assms] by (simp_all add: new_life_def)
  show "length (filter main_event evs) \<le> 6" using stage(2) by simp
  show "\<nexists>ev L'. life_step graceful L ev L'" if "finished L"
  proof -
    have "main_step L = None" using that by (simp add: finished_def main_step_def split: stage.splits)
    with that show ?thesis by (auto simp: finished_def elim!: life_stepE split: stage.splits)
  qed
  fix t assume t: "signal_at now evs = Some t" and fin: "\<not> finished L"
  show "(\<exists>ev L'. main_event ev \<and> life_step graceful L ev L') \<or>
      (\<exists>L' L''. life_step graceful L (Passes (max (lf_now L) (t + 10 * second))) L' \<and> life_step graceful L' Times_Out L'')"
  proof (cases "lf_stage L")
    case (Shutting d)
    let ?L = "L\<lparr>lf_now := max (lf_now L) (t + 10 * second)\<rparr>"
    have "life_step graceful L (Passes (max (lf_now L) (t + 10 * second))) ?L" by (rule life_step.passes [OF fin]) simp
    moreover have "life_step graceful ?L Times_Out (shutdown_times_out d ?L)"
      by (rule life_step.times_out) (use stage(1) t Shutting in \<open>simp_all add: shutdown_patience_def\<close>)
    ultimately show ?thesis by blast
  next
    case Serving
    then show ?thesis using stage(1) t by simp
  next
    case (Finished d r)
    then show ?thesis using fin by (simp add: finished_def)
  next
    case (Stop_Sched d)
    then have "\<exists>L'. main_step L = Some L'" by (simp add: main_step_def)
    then show ?thesis using life_step.main_moves main_event.simps(2) by blast
  next
    case (Stop_Guard d)
    then have "\<exists>L'. main_step L = Some L'" by (simp add: main_step_def)
    then show ?thesis using life_step.main_moves main_event.simps(2) by blast
  next
    case (Stop_Beat d)
    then have "\<exists>L'. main_step L = Some L'" by (simp add: main_step_def)
    then show ?thesis using life_step.main_moves main_event.simps(2) by blast
  next
    case (Cancelling d r)
    then have "\<exists>L'. main_step L = Some L'" by (simp add: main_step_def)
    then show ?thesis using life_step.main_moves main_event.simps(2) by blast
  qed
qed

lemma main_comes_to_its_end_witness:
  "\<exists>sys evs L. life_run (\<lambda>calls. calls = []) (new_life 3 ''/run/notify'' sys) evs L \<and> finished L \<and>
     length (filter main_event evs) \<le> 6 \<and> (\<nexists>ev L'. life_step (\<lambda>calls. calls = []) L ev L')"
proof -
  obtain sys s where b: "boot demo_boot list_registry ([], []) = (Inr sys, s)" by (rule demo_boots)
  let ?L = "new_life 3 ''/run/notify'' sys"
  have "lf_stage ?L = Serving" "lf_calls ?L = []" by (simp_all add: new_life_def)
  then obtain evs L where r: "life_run (\<lambda>calls. calls = []) ?L evs L" "finished L"
    using clean_end [OF graceful_null, of ?L] by (auto simp: finished_def)
  from main_comes_to_its_end [OF r(1)] r show ?thesis by blast
qed

subsection \<open>Which tasks run\<close>

definition tasks_running :: "system \<Rightarrow> task set" where
  "tasks_running sys = tr_task ` set (wd_runs (ys_world sys))"

text \<open>The event that puts a task under way.\<close>

fun triggered_task :: "sys_event \<Rightarrow> task option" where
  "triggered_task (Task_Event zone (Triggered k t)) = Some k"
| "triggered_task _ = None"

lemma after_attempt_task: "after_attempt r a e = Some r' \<Longrightarrow> tr_task r' = tr_task r"
  by (auto simp: after_attempt_def split: option.splits if_splits)

lemma sched_step_tasks:
  assumes "sched_step zone w ev w'"
  shows "tr_task ` set (wd_runs w') \<subseteq> tr_task ` set (wd_runs w) \<union> {k. \<exists>t. ev = Triggered k t}"
  using assms by cases (auto dest: after_attempt_task)

lemma sys_step_tasks:
  assumes "sys_step sys ev sys'"
  shows "tasks_running sys' \<subseteq> tasks_running sys \<union> {k. triggered_task ev = Some k}"
  using assms
proof cases
  case (task_event zone ev w)
  then show ?thesis using sched_step_tasks unfolding tasks_running_def by fastforce
qed (simp_all add: tasks_running_def with_orch_def)

lemma scheduled_allowed:
  "Task_Loop k \<in> set (started_loops cfg guarding sock) \<Longrightarrow> k \<in> {Task_Reindex, Task_Cleanup} \<or> \<not> embed_disabled (cf_runtime cfg)"
  by (auto simp: started_loops_def scheduled_tasks_def embed_disabled_def Let_def split: if_splits)

lemma triggerable_allowed: "triggerable rt k \<Longrightarrow> k = Task_Reindex \<or> \<not> embed_disabled rt"
  by (cases k) simp_all

lemma life_step_tasks:
  assumes "life_step graceful L ev L'" and "life_inv sock L" and "embed_disabled (cf_runtime (ys_cfg (lf_sys L)))"
  shows "tasks_running (lf_sys L') \<subseteq> tasks_running (lf_sys L) \<union> {Task_Reindex, Task_Cleanup}"
  using assms(1)
proof cases
  case (fires l ev' sys)
  have "k \<in> {Task_Reindex, Task_Cleanup}" if "triggered_task ev' = Some k" for k
  proof -
    have "l = Task_Loop k" using fires(5) that by (cases "(l, ev')" rule: by_loop.cases) auto
    then have "Task_Loop k \<in> set (started_loops (ys_cfg (lf_sys L)) (ys_guarding (lf_sys L)) sock)"
      using fires(4) assms(2) by (auto simp: life_inv_def loops_inv_def)
    from scheduled_allowed [OF this] assms(3) show ?thesis by simp
  qed
  then show ?thesis using sys_step_tasks [OF fires(6)] fires(2) by auto
next
  case (serves n ev' sys)
  have "k = Task_Reindex" if "triggered_task ev' = Some k" for k
    using serves(5) that triggerable_allowed assms(3) by (cases ev' rule: triggered_task.cases) auto
  then show ?thesis using sys_step_tasks [OF serves(6)] serves(2) by auto
next
  case (goes_on ev' sys)
  have "triggered_task ev' = None" using goes_on(4) by (cases ev' rule: under_way.cases) simp_all
  then show ?thesis using sys_step_tasks [OF goes_on(5)] goes_on(2) by auto
qed (auto dest: main_step_same)

lemma life_run_tasks:
  assumes "life_run graceful L evs L'" and "waits_for_calls graceful" and "life_inv sock L"
    and "embed_disabled (cf_runtime (ys_cfg (lf_sys L)))" and "tasks_running (lf_sys L) \<subseteq> {Task_Reindex, Task_Cleanup}"
  shows "tasks_running (lf_sys L') \<subseteq> {Task_Reindex, Task_Cleanup}"
  using assms
proof induction
  case (step L evs L' ev L'')
  have "life_inv sock L' \<and> ys_cfg (lf_sys L') = ys_cfg (lf_sys L)" using life_run_inv [OF step.hyps(1) step.prems(1,2)] by simp
  with life_step_tasks [OF step.hyps(2), of sock] step show ?case by fastforce
qed

text \<open>C19: In low resource mode without leave to search vectors or to go deep on the CPU no embedding task is ever under way, whoever asks
  for it: only index refreshes and cache cleanups run.\<close>

theorem no_embedding_without_leave:
  fixes sys0 :: system and L :: life
  assumes "boot be rg s = (Inr sys0, s')" and "waits_for_calls graceful"
    and "life_run graceful (new_life now sock sys0) evs L" and "embed_disabled (cf_runtime (ys_cfg sys0))"
  shows "\<forall>r\<in>set (wd_runs (ys_world (lf_sys L))). tr_task r = Task_Reindex \<or> tr_task r = Task_Cleanup"
proof -
  obtain cfg e where sys: "sys0 = new_system be cfg e" using assms(1) by (rule booted)
  have "life_inv sock (new_life now sock sys0)" using life_inv_new new_system_inv(1) sys by simp
  moreover have "tasks_running (lf_sys (new_life now sock sys0)) = {}"
    by (simp add: new_life_def tasks_running_def sys new_system_def case_prod_beta world_new_def)
  ultimately have "tasks_running (lf_sys L) \<subseteq> {Task_Reindex, Task_Cleanup}"
    using assms(4) by (intro life_run_tasks [OF assms(3,2)]) (simp_all add: new_life_def)
  then show ?thesis by (auto simp: tasks_running_def)
qed

definition demo_small_boot :: boot_env where
  "demo_small_boot =
     demo_boot\<lparr>bo_yaml := (\<lambda>t. Inr (sample_cfg\<lparr>cf_runtime := sample_runtime\<lparr>rt_allow_cpu_deep_query := False\<rparr>\<rparr>))\<rparr>"

lemma demo_small_boots:
  obtains sys s where "boot demo_small_boot list_registry ([], []) = (Inr sys, s)" and "embed_disabled (cf_runtime (ys_cfg sys))"
proof -
  have "case fst (boot demo_small_boot list_registry ([], [])) of Inr sys \<Rightarrow> embed_disabled (cf_runtime (ys_cfg sys)) | Inl e \<Rightarrow> False"
    by code_simp
  then show ?thesis
    by (cases "boot demo_small_boot list_registry ([], [])"; cases "fst (boot demo_small_boot list_registry ([], []))") (auto intro: that)
qed

lemma no_embedding_without_leave_witness:
  "\<exists>sys evs L. life_run (\<lambda>calls. calls = []) (new_life 3 [] sys) evs L \<and> finished L \<and>
     (\<forall>r\<in>set (wd_runs (ys_world (lf_sys L))). tr_task r = Task_Reindex \<or> tr_task r = Task_Cleanup)"
proof -
  obtain sys s where b: "boot demo_small_boot list_registry ([], []) = (Inr sys, s)" and low: "embed_disabled (cf_runtime (ys_cfg sys))"
    by (rule demo_small_boots)
  let ?L = "new_life 3 [] sys"
  have "lf_stage ?L = Serving" "lf_calls ?L = []" by (simp_all add: new_life_def)
  from clean_end [OF graceful_null this]
  obtain evs L where r: "life_run (\<lambda>calls. calls = []) ?L evs L" "finished L" by (auto simp: finished_def)
  from no_embedding_without_leave [OF b graceful_null r(1) low] r show ?thesis by blast
qed

subsection \<open>What the end does not wait for\<close>

text \<open>\<open>main\<close> ends cleanly although a task is under way: \<open>Stop\<close> only cancels the context, and nobody waits for the goroutines, so that
  the process may be gone before the run of qmd, which is in a process group of its own, has been killed.\<close>

theorem clean_end_leaves_task_running:
  "\<exists>sys evs L d. life_run (\<lambda>calls. calls = []) (new_life 3 sock sys) evs L \<and> lf_stage L = Finished d None \<and>
     wd_runs (ys_world (lf_sys L)) \<noteq> []"
proof -
  obtain sys s where b: "boot demo_boot list_registry ([], []) = (Inr sys, s)" by (rule demo_boots)
  then obtain cfg e where sys: "sys = new_system demo_boot cfg e" by (rule booted)
  let ?L = "new_life 3 sock sys" and ?ev = "Task_Event (\<lambda>t. 0) (Triggered Task_Reindex 3)"
  obtain sd where "begin_task (task_name Task_Reindex) (sy_sched (wd_sys (ys_world sys))) = Some sd"
    by (simp add: sys new_system_def case_prod_beta world_new_def sched_new_def begin_task_def mget_def)
  note started = sched_step.started [OF this, of "\<lambda>t. 0" 3]
  define sys' where "sys' = sys\<lparr>ys_world := (ys_world sys)\<lparr>wd_sys := (wd_sys (ys_world sys))\<lparr>sy_sched := sd\<rparr>,
    wd_runs := wd_runs (ys_world sys) @ [\<lparr>tr_task = Task_Reindex, tr_tries = 0, tr_ready = 3\<rparr>]\<rparr>\<rparr>"
  have st: "sys_step sys ?ev sys'" "wd_runs (ys_world sys') \<noteq> []"
    unfolding sys'_def by (rule sys_step.task_event [OF started]) simp
  have "Task_Loop Task_Reindex \<in> set (lf_loops ?L)" by (simp add: new_life_def started_loops_def scheduled_tasks_def Let_def)
  then have f: "life_step (\<lambda>calls. calls = []) ?L (Fires (Task_Loop Task_Reindex) ?ev) (?L\<lparr>lf_sys := sys'\<rparr>)"
    using st(1) by (intro life_step.fires) (simp_all add: finished_def new_life_def)
  have "lf_stage (?L\<lparr>lf_sys := sys'\<rparr>) = Serving" "lf_calls (?L\<lparr>lf_sys := sys'\<rparr>) = []" by (simp_all add: new_life_def)
  from clean_end [OF graceful_null this]
  obtain evs L d where "life_run (\<lambda>calls. calls = []) (?L\<lparr>lf_sys := sys'\<rparr>) evs L" "lf_stage L = Finished d None" "lf_sys L = sys'"
    by auto
  with life_run_Cons [OF f] st(2) show ?thesis by blast
qed

text \<open>The watchdog has no context and looks at nothing: it can tell the service manager that all is well in every state, whatever
  the rest of the program does.\<close>

theorem watchdog_never_stops:
  assumes "life_run graceful (new_life now sock sys0) evs L" and "waits_for_calls graceful" and "sys_inv sys0"
    and "watchdog_runs sock" and "\<not> finished L"
  shows "life_step graceful L (Pinged None) (L\<lparr>lf_pings := Suc (lf_pings L)\<rparr>)"
proof -
  have "loops_inv (started_loops (ys_cfg sys0) (ys_guarding sys0) sock) L"
    using life_run_inv [OF assms(1,2) life_inv_new [OF assms(3)]] by (auto simp: life_inv_def new_life_def)
  moreover have "Watchdog_Loop \<in> set (started_loops (ys_cfg sys0) (ys_guarding sys0) sock)"
    using assms(4) by (simp add: started_loops_def)
  ultimately have "Watchdog_Loop \<in> set (lf_loops L)" by (auto simp: loops_inv_def)
  from life_step.pinged [OF assms(5) this, of graceful None] show ?thesis by (simp add: watchdog_tick_def)
qed

text \<open>Loops that a context does not stop in time: a loop whose context is done may still take a tick, as \<open>select\<close> chooses freely.\<close>

lemma stopped_loop_may_fire:
  assumes "\<not> finished L" and "Beat_Loop \<in> set (lf_loops L)"
  shows "\<exists>ev L'. life_step graceful L (Fires Beat_Loop ev) L'"
proof -
  let ?r = "main_reports (lf_sys L) \<lparr>pb_version = Inr [], pb_stat = (\<lambda>p. None), pb_status = Inr status_zero\<rparr>"
  have "sys_step (lf_sys L) (Round 0 ?r) ((lf_sys L)\<lparr>ys_tracker := snd (run_checks 0 ?r (ys_tracker (lf_sys L)))\<rparr>)"
    by (rule sys_step.round) simp
  from life_step.fires [OF assms _ this] show ?thesis by (metis by_loop.simps(3))
qed

end
