(* ===== verification/Spec2Isabelle.thy ===== *)
theory Spec2Isabelle
  imports Cache_Properties Search_Util Cpu_Monitor Router Search_Promises Api_Promises Guardian Heartbeat Scheduler Cli_Promises
    Grpc_Promises Registry Main_Program Observation Lifecycle
begin

text \<open>
  A verification library for qmdsr, a gRPC service in front of the command line search tool qmd. All file names are
  under \<open>src/\<close>.

  \<^bold>\<open>The program.\<close> A request comes in over gRPC (\<open>api/grpc.go\<close>), is turned into one search per collection
  (\<open>api/core.go\<close>), and each of these is answered by the orchestrator (\<open>orchestrator/orchestrator.go\<close>): from the result
  cache (\<open>cache/cache.go\<close>) if it can, otherwise in a mode that the router (\<open>router/router.go\<close>), the low-resource policy, the
  negative cache of deep queries and the cpu guard (\<open>internal/resourceguard\<close>) allow, through the executor
  (\<open>executor/cli.go\<close>, \<open>executor/parse.go\<close>), which runs qmd and reads its output. The hits are filtered, cleaned and ranked
  (\<open>internal/textutil\<close>, \<open>internal/searchutil\<close>). Beside the requests run the scheduler (\<open>scheduler/scheduler.go\<close>: index refresh,
  embedding, cleanup), the guardian of the MCP daemon (\<open>guardian/guardian.go\<close>) and the heartbeat (\<open>heartbeat\<close>), which share
  cache and negative cache with them. \<open>main.go\<close> loads the configuration (\<open>config/config.go\<close>) and puts all this together.

  \<^bold>\<open>The Go library.\<close>
  \<^item> \<open>Prelude\<close>: errors as a message with the sentinels on their chain, a result as a sum, maps as association lists
    behind the interface \<open>finite_map\<close>, \<open>float64\<close> as a rational number, an infinity or NaN; the collections \<open>go_defs\<close> and \<open>inv_intros\<close>.
  \<^item> \<open>Go_Unicode\<close>, \<open>Go_Strings\<close>: strings as lists of bytes, their runes (UTF-8 with its error cases), the functions of
    \<open>strings\<close> and \<open>unicode\<close> that are used. \<open>Go_Numbers\<close>: printing and reading integers, fixed-point printing of scores, quoting.
    \<open>Go_Path\<close>: \<open>filepath\<close>. \<open>Go_Time\<close>: the calendar behind \<open>time.Format\<close>. \<open>Sha1\<close>: \<open>crypto/sha1\<close> on 32-bit words.
  \<^item> \<open>Go_Json\<close>, \<open>Json_Print\<close>, \<open>Go_Decode\<close>: the JSON syntax, its inverse with the round trip, decoding into structs as \<open>json.Unmarshal\<close>
    does it, \<open>ParseFloat\<close> with rounding to binary64, CSV records, RFC 3339.

  \<^bold>\<open>The components.\<close>
  \<^item> \<open>Model_Types\<close> (\<open>model/types.go\<close>), \<open>Config\<close> (\<open>config/config.go\<close>): the data; loading, defaults and validation.
  \<^item> \<open>Text_Util\<close>, \<open>Search_Util\<close>: measures of text, snippet cleaning; deduplication and ranking for every sort that
    keeps the contract of \<open>sort.Slice\<close> (interface \<open>score_sort\<close>).
  \<^item> \<open>Cache\<close>: the pointer structure of the LRU cache; \<open>Cache_Refine\<close>: its abstract state, a recency list, and the interfaces
    \<open>result_cache\<close> and \<open>clearable_cache\<close>; \<open>Cache_Properties\<close>: the refinement over all runs.
  \<^item> \<open>Cpu_Monitor\<close>: reading \<open>/proc/stat\<close> and the sampling loop with its hysteresis. \<open>Deep_Negative\<close>: the negative cache
    (interface \<open>deadline_store\<close>). \<open>Router\<close>, \<open>Orch_Policy\<close>: the choice of the mode. \<open>Orch_Results\<close>: what becomes of raw hits.
  \<^item> \<open>Orchestrator\<close>: \<open>Search\<close> and all it calls, the state passed explicitly; \<open>Orch_Properties\<close> and \<open>Search_Promises\<close>: where
    hits come from, when a search depends on the executor, what is cached, how degradation is reported.
  \<^item> \<open>Observation\<close>: the record of the last searches that is written now and then, and that its numbers fit together.
  \<^item> \<open>Slots\<close>: the semaphores for deep queries and for searches under overload (interface \<open>slots\<close>).
  \<^item> \<open>Cli_Parse\<close>, \<open>Cli_Exec\<close>, \<open>Cli_Promises\<close>: the parsers, every operation of the executor, and what they promise together. \<open>Process\<close>:
    starting, waiting for and killing the qmd process; every operation of the executor returns.
  \<^item> \<open>Api_Format\<close>, \<open>Api_Convert\<close>, \<open>Api_Core\<close>: texts, conversions, the two query handlers; \<open>Api_Properties\<close>, \<open>Api_Promises\<close>: a
    request in terms of the outcomes of its searches.
  \<^item> \<open>Grpc_Server\<close>: every handler from the request message to the reply or the status error, the admin operations, health and
    status; \<open>Grpc_Promises\<close>: what a client can rely on.
  \<^item> \<open>Guardian\<close>, \<open>Heartbeat\<close>, \<open>Scheduler\<close>: the operations as atomic steps under their mutexes and, for guardian and scheduler,
    all goroutines together as a step relation, with invariants by rule induction.
  \<^item> \<open>Registry\<close>: registering collections and contexts at startup. \<open>Main_Program\<close>: the start, and the whole running system as a step
    relation over all of the above. \<open>Lifecycle\<close>: the process from its flags to its end, with the goroutines that are started, their
    contexts, the calls under way, the shutdown and the watchdog; the steps of the system are those some goroutine or call makes.

  \<^bold>\<open>What is outside\<close> is an argument: the outcome of a run of qmd (\<open>qmd_env\<close>), of the executor as the orchestrator sees
  it (\<open>executor\<close>), the clock readings of an operation, the files and environment of the host (\<open>os_env\<close>), the YAML decoder, the order in
  which \<open>sort.Slice\<close> leaves equal elements, request ids, the store of qmd (\<open>registry\<close>),
  processes and signals (\<open>host\<close>, \<open>child\<close>), and when \<open>GracefulStop\<close> may return (\<open>graceful\<close>; \<open>waits_for_calls\<close> is its documented behaviour). Parallel searches of a tier are taken in
  the order of their results; what other requests do to the shared state between the locked sections of one search is a
  function of the environment (\<open>ev_others\<close>, \<open>av_others_search\<close>) of which only the preservation of the invariants is assumed.

  \<^bold>\<open>Bounds and fuel.\<close> Times and durations are integers of nanoseconds and assumed not to overflow; counters of the wire
  format are 32-bit words or conversions through them; the hash, the jiffy counters and the request messages use words. The JSON parser
  descends with fuel of twice the length of the text, which \<open>json_fuel_enough\<close> shows to be enough; nesting is limited to
  10000 as in the library. The retries of the scheduler are a recursion on the attempts left; a call that is under way makes
  at most four, in any interleaving. Everything else is structural or has a measure.

  \<^bold>\<open>Not modelled.\<close> The gRPC transport, listener and reflection, the generated codec (the messages are records), and log
  output (but for the observation record): library code and output, whose results are parameters where the program looks at them. The parser of flags gives a record. The tickers of
  the loops are left out: their ticks are events that may come at any time, also once after the context is done, as \<open>select\<close> may choose.
  Goroutines meet only at their locks: every locked section is one step; the atomic counters of a sample are taken together, as
  additions commute.
\<close>

end
